(* ===== verification/Prelude.thy ===== *)
theory Prelude
  imports Complex_Main
begin

text \<open>
  Shared vocabulary of the development: input sources (clocks, identifier generators,
  fault scripts), tables as lists of rows with the two SQL idioms every statement of the
  storage layer is made of, and the generic lemmas about them.
\<close>

named_theorems frame_simps \<open>which parts of the state an operation leaves alone\<close>
named_theorems steps_intros \<open>operations change the database through SQL statements only\<close>

section \<open>Sources\<close>

text \<open>
  What the environment decides (the reading of a clock, a fresh identifier, whether a
  statement fails) is a source: an infinite sequence and the number of values used up.
  A theorem about every source is a theorem about every behaviour of the environment.
\<close>

type_synonym 'a source = "(nat \<Rightarrow> 'a) \<times> nat"

definition draw :: "'a source \<Rightarrow> 'a \<times> 'a source" where
  "draw s = (fst s (snd s), (fst s, Suc (snd s)))"

lemma draw_simps [simp]:
  "fst (draw s) = fst s (snd s)"
  "snd (draw s) = (fst s, Suc (snd s))"
  by (simp_all add: draw_def)

section \<open>Tables\<close>

definition update_where :: "('r \<Rightarrow> bool) \<Rightarrow> ('r \<Rightarrow> 'r) \<Rightarrow> 'r list \<Rightarrow> 'r list" where
  "update_where p f t = map (\<lambda>r. if p r then f r else r) t"

definition count_where :: "('r \<Rightarrow> bool) \<Rightarrow> 'r list \<Rightarrow> nat" where
  "count_where p t = length (filter p t)"

lemma update_where_simps [simp]:
  "update_where p f [] = []"
  "update_where p f (r # t) = (if p r then f r else r) # update_where p f t"
  by (simp_all add: update_where_def)

lemma length_update_where [simp]: "length (update_where p f t) = length t"
  by (simp add: update_where_def)

lemma set_update_where:
  "set (update_where p f t) = f ` {r \<in> set t. p r} \<union> {r \<in> set t. \<not> p r}"
  by (auto simp: update_where_def)

lemma in_update_whereE:
  assumes "r \<in> set (update_where p f t)"
  obtains (changed) q where "q \<in> set t" "p q" "r = f q" | (kept) "r \<in> set t" "\<not> p r"
  using assms by (auto simp: set_update_where)

lemma map_update_where:
  "(\<And>r. r \<in> set t \<Longrightarrow> p r \<Longrightarrow> k (f r) = k r) \<Longrightarrow> map k (update_where p f t) = map k t"
  by (induction t) auto

lemma filter_update_where:
  "(\<And>r. r \<in> set t \<Longrightarrow> p r \<Longrightarrow> q (f r) = q r) \<Longrightarrow>
   map k (filter q (update_where p f t)) = map (\<lambda>r. k (if p r then f r else r)) (filter q t)"
  by (induction t) auto

lemma update_where_none: "(\<And>r. r \<in> set t \<Longrightarrow> \<not> p r) \<Longrightarrow> update_where p f t = t"
  by (induction t) auto

lemma count_where_zero: "count_where p t = 0 \<longleftrightarrow> (\<forall>r\<in>set t. \<not> p r)"
  by (simp add: count_where_def filter_empty_conv)

lemma count_where_pos: "0 < count_where p t \<longleftrightarrow> (\<exists>r\<in>set t. p r)"
  by (auto simp: count_where_def filter_empty_conv)

text \<open>A column that is a key: rows with the same value of the column are the same row.\<close>

lemma distinct_map_eqD:
  "distinct (map k t) \<Longrightarrow> r \<in> set t \<Longrightarrow> q \<in> set t \<Longrightarrow> k r = k q \<Longrightarrow> r = q"
  by (auto simp: distinct_map inj_on_def)

lemma distinct_map_append1:
  "distinct (map k (t @ [r])) \<longleftrightarrow> distinct (map k t) \<and> k r \<notin> k ` set t"
  by auto

lemma find_SomeD: "List.find p t = Some r \<Longrightarrow> r \<in> set t \<and> p r"
  by (induction t) (auto split: if_splits)

lemma find_NoneD: "List.find p t = None \<Longrightarrow> r \<in> set t \<Longrightarrow> \<not> p r"
  by (induction t) (auto split: if_splits)

lemma find_unique_key:
  assumes "distinct (map k t)" "r \<in> set t"
  shows "List.find (\<lambda>q. k q = k r) t = Some r"
  using assms by (induction t) (auto simp: image_iff)

lemma find_update_where:
  assumes "\<And>r. p (f r) = p r"
  shows "List.find p (update_where q f t) = map_option (\<lambda>r. if q r then f r else r) (List.find p t)"
  using assms by (induction t) auto

lemma map_of_find:
  "map_of (map (\<lambda>r. (k r, v r)) t) x = map_option v (List.find (\<lambda>r. k r = x) t)"
  by (induction t) auto

lemma map_of_update_where:
  assumes "\<And>r. k (f r) = k r"
  shows "map_of (map (\<lambda>r. (k r, v r)) (update_where p f t)) x =
    map_option (\<lambda>r. v (if p r then f r else r)) (List.find (\<lambda>r. k r = x) t)"
  using assms by (induction t) auto

lemma map_of_append1:
  "k \<notin> fst ` set xs \<Longrightarrow> map_of (xs @ [(k, v)]) = (map_of xs)(k \<mapsto> v)"
  by (induction xs) (auto simp: fun_eq_iff)

section \<open>Keeping a value through a pair of result and state\<close>

lemma prod_case_distrib: "f (case p of (a, b) \<Rightarrow> g a b) = (case p of (a, b) \<Rightarrow> f (g a b))"
  by (simp split: prod.split)

end
