(* ===== verification/GoTime.thy ===== *)
theory GoTime
  imports Prelude
begin

text \<open>
  Go's \<^verbatim>\<open>time.Time\<close> and \<^verbatim>\<open>time.Duration\<close>. An instant is the number of nanoseconds
  since the Unix epoch (negative before it); \<^verbatim>\<open>UTC()\<close> changes the location of a value and
  not its instant. A duration is a signed 64-bit count of nanoseconds, read here as an
  integer, with the wrap-around of Go's arithmetic written out by \<open>wrap64\<close>.
\<close>

type_synonym Time = int
type_synonym Duration = int

definition wrap64 :: "int \<Rightarrow> int" where
  "wrap64 n = (n + 2 ^ 63) mod 2 ^ 64 - 2 ^ 63"

definition minDuration :: Duration where "minDuration = - (2 ^ 63)"
definition maxDuration :: Duration where "maxDuration = 2 ^ 63 - 1"

definition Nanosecond :: Duration where "Nanosecond = 1"
definition Millisecond :: Duration where "Millisecond = 1000000"
definition Second :: Duration where "Second = 1000000000"
definition Minute :: Duration where "Minute = 60000000000"
definition Hour :: Duration where "Hour = 3600000000000"

lemmas duration_units = Nanosecond_def Millisecond_def Second_def Minute_def Hour_def
lemmas duration_bounds = minDuration_def maxDuration_def

text \<open>The zero \<^verbatim>\<open>time.Time\<close> is the first instant of year 1, 62135596800 seconds before the epoch.\<close>

definition zeroTime :: Time where
  "zeroTime = - 62135596800 * 1000000000"

definition IsZero :: "Time \<Rightarrow> bool" where
  "IsZero t \<longleftrightarrow> t = zeroTime"

definition time_Add :: "Time \<Rightarrow> Duration \<Rightarrow> Time" where
  "time_Add t d = t + d"

text \<open>\<^verbatim>\<open>t.Sub(u)\<close> saturates at the largest and smallest duration.\<close>

definition time_Sub :: "Time \<Rightarrow> Time \<Rightarrow> Duration" where
  "time_Sub t u = max minDuration (min maxDuration (t - u))"

text \<open>\<^verbatim>\<open>d.Abs()\<close> maps the one value with no positive counterpart to the largest duration.\<close>

definition dur_Abs :: "Duration \<Rightarrow> Duration" where
  "dur_Abs d = (if 0 \<le> d then d else if d = minDuration then maxDuration else - d)"

definition time_Before :: "Time \<Rightarrow> Time \<Rightarrow> bool" where
  "time_Before t u \<longleftrightarrow> t < u"

definition time_After :: "Time \<Rightarrow> Time \<Rightarrow> bool" where
  "time_After t u \<longleftrightarrow> u < t"

text \<open>
  \<^verbatim>\<open>time.Unix(s, 0)\<close> keeps the seconds since year 1 in an \<^verbatim>\<open>int64\<close>, so the sum of
  \<^verbatim>\<open>s\<close> and the offset of the epoch wraps; \<^verbatim>\<open>time.UnixMilli(ms)\<close> has no such range problem.
\<close>

definition time_Unix :: "int \<Rightarrow> Time" where
  "time_Unix s = (wrap64 (s + 62135596800) - 62135596800) * 1000000000"

definition time_UnixMilli :: "int \<Rightarrow> Time" where
  "time_UnixMilli ms = ms * 1000000"

section \<open>Facts\<close>

lemma wrap64_bounds: "minDuration \<le> wrap64 n" "wrap64 n \<le> maxDuration"
  by (simp_all add: wrap64_def duration_bounds)

lemma wrap64_id: "- (2 ^ 63) \<le> n \<Longrightarrow> n < 2 ^ 63 \<Longrightarrow> wrap64 n = n"
  by (simp add: wrap64_def)

lemma time_Sub_bounds: "minDuration \<le> time_Sub t u" "time_Sub t u \<le> maxDuration"
  by (simp_all add: time_Sub_def duration_bounds)

lemma dur_Abs_nonneg: "minDuration \<le> d \<Longrightarrow> d \<le> maxDuration \<Longrightarrow> 0 \<le> dur_Abs d \<and> dur_Abs d \<le> maxDuration"
  by (auto simp: dur_Abs_def duration_bounds)

text \<open>
  The skew test of the webhook window: saturation cannot turn a far instant into a near
  one, because the bound it is compared with is itself a duration.
\<close>

lemma skew_within_iff:
  assumes "m < maxDuration"
  shows "dur_Abs (time_Sub t u) \<le> m \<longleftrightarrow> \<bar>t - u\<bar> \<le> m"
  using assms by (auto simp: dur_Abs_def time_Sub_def duration_bounds max_def min_def)

lemma time_Unix_in_range:
  "0 < s \<Longrightarrow> s < 2 ^ 62 \<Longrightarrow> time_Unix s = s * 1000000000"
  by (simp add: time_Unix_def wrap64_id)

lemma time_Unix_not_zero: "0 < s \<Longrightarrow> s < 2 ^ 62 \<Longrightarrow> \<not> IsZero (time_Unix s)"
  by (simp add: time_Unix_in_range IsZero_def zeroTime_def)

lemma time_UnixMilli_not_zero: "0 < ms \<Longrightarrow> \<not> IsZero (time_UnixMilli ms)"
  by (simp add: time_UnixMilli_def IsZero_def zeroTime_def)

end
