(* ===== verification/GoErrors.thy ===== *)
theory GoErrors
  imports Prelude
begin

text \<open>
  Go's error values. A package-level \<^verbatim>\<open>errors.New\<close> variable is a sentinel; a
  \<^verbatim>\<open>fmt.Errorf\<close> value keeps its format string, its arguments and, for \<^verbatim>\<open>%w\<close>, the error it
  wraps; the two wrapper types of the program (\<^verbatim>\<open>reliability.Permanent\<close>,
  \<^verbatim>\<open>events.ErrRejected\<close>) and \<^verbatim>\<open>errors.Join\<close> are constructors of their own; what a driver or
  the network reports is \<open>Driver\<close> or \<open>PgError\<close>, distinct from every sentinel of the
  program except the two context errors. \<^verbatim>\<open>err.Error()\<close> is not rendered: where the
  program stores or sends it, the model keeps \<open>ErrText e\<close>.
\<close>

datatype sentinel =
    ErrNotFound | ErrDuplicate | ErrInvalidTransition | ErrValidation
  | ErrNoRows | Canceled | DeadlineExceeded

datatype fmt_arg = AStr string | AInt int | AFloat rat

datatype driver_error = DrvCanceled | DrvDeadline | DrvOther string

datatype error =
    Sentinel sentinel
  | Errorf string "fmt_arg list"
  | Wrapf string "fmt_arg list" error
  | Permanent error
  | ErrRejected error
  | Join "error list"
  | Driver driver_error
  | PgError string

type_synonym 'a res = "error + 'a"

datatype message = Str string | ErrText error

section \<open>errors.Is, errors.As, errors.Join\<close>

fun errIs :: "error \<Rightarrow> sentinel \<Rightarrow> bool" where
  "errIs (Sentinel s) t = (s = t)"
| "errIs (Errorf f as) t = False"
| "errIs (Wrapf f as e) t = errIs e t"
| "errIs (Permanent e) t = errIs e t"
| "errIs (ErrRejected e) t = errIs e t"
| "errIs (Join es) t = list_ex (\<lambda>e. errIs e t) es"
| "errIs (Driver d) t = (d = DrvCanceled \<and> t = Canceled \<or> d = DrvDeadline \<and> t = DeadlineExceeded)"
| "errIs (PgError c) t = False"

text \<open>\<^verbatim>\<open>errors.As\<close> with a \<^verbatim>\<open>reliability.Permanent\<close> target succeeds.\<close>

fun IsPermanent :: "error \<Rightarrow> bool" where
  "IsPermanent (Permanent e) = True"
| "IsPermanent (Wrapf f as e) = IsPermanent e"
| "IsPermanent (ErrRejected e) = IsPermanent e"
| "IsPermanent (Join es) = list_ex IsPermanent es"
| "IsPermanent e = False"

text \<open>\<^verbatim>\<open>errors.As\<close> with an \<^verbatim>\<open>events.ErrRejected\<close> target: the first one in the tree.\<close>

fun asRejected :: "error \<Rightarrow> error option" where
  "asRejected (ErrRejected e) = Some (ErrRejected e)"
| "asRejected (Wrapf f as e) = asRejected e"
| "asRejected (Permanent e) = asRejected e"
| "asRejected (Join es) = foldr (\<lambda>e r. case asRejected e of None \<Rightarrow> r | Some x \<Rightarrow> Some x) es None"
| "asRejected e = None"

text \<open>\<^verbatim>\<open>errors.Join\<close> of a list without nil entries is nil exactly for the empty list.\<close>

definition joinErrors :: "error list \<Rightarrow> error option" where
  "joinErrors es = (if es = [] then None else Some (Join es))"

text \<open>
  Whether the rendered text is empty. Every format string of the program holds literal
  characters beside its verbs; \<^verbatim>\<open>errors.Join\<close> puts a newline between two messages.
\<close>

fun errTextEmpty :: "error \<Rightarrow> bool" where
  "errTextEmpty (Sentinel s) = False"
| "errTextEmpty (Errorf f as) = (f = [])"
| "errTextEmpty (Wrapf f as e) = (f = [])"
| "errTextEmpty (Permanent e) = errTextEmpty e"
| "errTextEmpty (ErrRejected e) = False"
| "errTextEmpty (Join es) = (case es of [e] \<Rightarrow> errTextEmpty e | _ \<Rightarrow> False)"
| "errTextEmpty (Driver d) = (d = DrvOther [])"
| "errTextEmpty (PgError c) = (c = [])"

definition textEmpty :: "message \<Rightarrow> bool" where
  "textEmpty t = (case t of Str s \<Rightarrow> s = [] | ErrText e \<Rightarrow> errTextEmpty e)"

section \<open>Facts\<close>

lemma textEmpty_simps [simp]:
  "textEmpty (Str s) \<longleftrightarrow> s = []"
  "textEmpty (ErrText e) \<longleftrightarrow> errTextEmpty e"
  by (simp_all add: textEmpty_def)

lemma joinErrors_None [simp]: "joinErrors es = None \<longleftrightarrow> es = []"
  by (simp add: joinErrors_def)

lemma joinErrors_not_permanent:
  "joinErrors es = Some e \<Longrightarrow> (\<And>x. x \<in> set es \<Longrightarrow> \<not> IsPermanent x) \<Longrightarrow> \<not> IsPermanent e"
  by (auto simp: joinErrors_def list_ex_iff split: if_splits)

end
