(* ===== verification/Domain.thy ===== *)
theory Domain
  imports GoTime GoErrors
begin

text \<open>
  The connector's internal model (\<^verbatim>\<open>internal/domain/domain.go\<close>): hazard, provider, device,
  monitoring and command vocabularies, the records that pass between the components, the
  validation of a hazard event and the command state machine. Go's string types admit any
  string, so the vocabularies are strings with named constants and the checks that
  recognise them. A \<^verbatim>\<open>float64\<close> that JSON can carry is finite and is read as a rational.
\<close>

type_synonym float64 = rat

section \<open>Vocabularies\<close>

type_synonym HazardType = string
type_synonym ProviderName = string
type_synonym DeviceStatus = string
type_synonym MonitoringStatus = string
type_synonym CommandType = string
type_synonym CommandState = string

definition HazardFire :: HazardType where "HazardFire = ''FIRE''"
definition HazardSmoke :: HazardType where "HazardSmoke = ''SMOKE''"
definition HazardFall :: HazardType where "HazardFall = ''FALL''"
definition HazardIntrusion :: HazardType where "HazardIntrusion = ''INTRUSION''"
definition HazardCameraTampering :: HazardType where "HazardCameraTampering = ''CAMERA_TAMPERING''"

lemmas hazard_consts = HazardFire_def HazardSmoke_def HazardFall_def HazardIntrusion_def
  HazardCameraTampering_def

definition ValidHazardType :: "HazardType \<Rightarrow> bool" where
  "ValidHazardType t \<longleftrightarrow>
     t \<in> set [HazardFire, HazardSmoke, HazardFall, HazardIntrusion, HazardCameraTampering]"

definition ProviderGuardianEdge :: ProviderName where "ProviderGuardianEdge = ''guardian-edge''"
definition ProviderAlphaSense :: ProviderName where "ProviderAlphaSense = ''alphasense''"
definition ProviderBetaGrid :: ProviderName where "ProviderBetaGrid = ''betagrid''"

lemmas provider_consts = ProviderGuardianEdge_def ProviderAlphaSense_def ProviderBetaGrid_def

definition ValidProvider :: "ProviderName \<Rightarrow> bool" where
  "ValidProvider p \<longleftrightarrow> p \<in> set [ProviderGuardianEdge, ProviderAlphaSense, ProviderBetaGrid]"

definition DeviceOnline :: DeviceStatus where "DeviceOnline = ''ONLINE''"
definition DeviceOffline :: DeviceStatus where "DeviceOffline = ''OFFLINE''"
definition DeviceUnknown :: DeviceStatus where "DeviceUnknown = ''UNKNOWN''"

lemmas device_consts = DeviceOnline_def DeviceOffline_def DeviceUnknown_def

definition MonitoringIdle :: MonitoringStatus where "MonitoringIdle = ''IDLE''"
definition MonitoringActive :: MonitoringStatus where "MonitoringActive = ''MONITORING''"
definition MonitoringUnknown :: MonitoringStatus where "MonitoringUnknown = ''UNKNOWN''"

lemmas monitoring_consts = MonitoringIdle_def MonitoringActive_def MonitoringUnknown_def

definition CommandGetStatus :: CommandType where "CommandGetStatus = ''GET_STATUS''"
definition CommandStartMonitoring :: CommandType where "CommandStartMonitoring = ''START_MONITORING''"
definition CommandStopMonitoring :: CommandType where "CommandStopMonitoring = ''STOP_MONITORING''"
definition CommandUpdateConfig :: CommandType where "CommandUpdateConfig = ''UPDATE_MONITORING_CONFIG''"

lemmas command_type_consts = CommandGetStatus_def CommandStartMonitoring_def
  CommandStopMonitoring_def CommandUpdateConfig_def

definition ValidCommandType :: "CommandType \<Rightarrow> bool" where
  "ValidCommandType t \<longleftrightarrow>
     t \<in> set [CommandGetStatus, CommandStartMonitoring, CommandStopMonitoring, CommandUpdateConfig]"

definition CommandPending :: CommandState where "CommandPending = ''PENDING''"
definition CommandDelivered :: CommandState where "CommandDelivered = ''DELIVERED''"
definition CommandAcknowledged :: CommandState where "CommandAcknowledged = ''ACKNOWLEDGED''"
definition CommandFailed :: CommandState where "CommandFailed = ''FAILED''"

lemmas command_state_consts = CommandPending_def CommandDelivered_def CommandAcknowledged_def
  CommandFailed_def

text \<open>The four states are four different strings; proofs use this and not the spelling.\<close>

lemma command_states_distinct [simp]:
  "CommandPending \<noteq> CommandDelivered" "CommandDelivered \<noteq> CommandPending"
  "CommandPending \<noteq> CommandAcknowledged" "CommandAcknowledged \<noteq> CommandPending"
  "CommandPending \<noteq> CommandFailed" "CommandFailed \<noteq> CommandPending"
  "CommandDelivered \<noteq> CommandAcknowledged" "CommandAcknowledged \<noteq> CommandDelivered"
  "CommandDelivered \<noteq> CommandFailed" "CommandFailed \<noteq> CommandDelivered"
  "CommandAcknowledged \<noteq> CommandFailed" "CommandFailed \<noteq> CommandAcknowledged"
  by (simp_all add: command_state_consts)

lemma providers_distinct [simp]:
  "ProviderGuardianEdge \<noteq> ProviderAlphaSense" "ProviderAlphaSense \<noteq> ProviderGuardianEdge"
  "ProviderGuardianEdge \<noteq> ProviderBetaGrid" "ProviderBetaGrid \<noteq> ProviderGuardianEdge"
  "ProviderAlphaSense \<noteq> ProviderBetaGrid" "ProviderBetaGrid \<noteq> ProviderAlphaSense"
  by (simp_all add: provider_consts)

lemma device_states_distinct [simp]:
  "DeviceOnline \<noteq> DeviceOffline" "DeviceOffline \<noteq> DeviceOnline"
  "DeviceOnline \<noteq> DeviceUnknown" "DeviceUnknown \<noteq> DeviceOnline"
  "DeviceOffline \<noteq> DeviceUnknown" "DeviceUnknown \<noteq> DeviceOffline"
  by (simp_all add: device_consts)

section \<open>Records\<close>

record Device =
  d_ID :: string
  d_ExternalID :: string
  d_Provider :: ProviderName
  d_Name :: string
  d_Status :: DeviceStatus
  d_AppVersion :: string
  d_LastSeenAt :: Time
  d_CreatedAt :: Time
  d_UpdatedAt :: Time

record TelemetryEvent =
  tl_ID :: string
  tl_DeviceID :: string
  tl_ReportedAt :: Time
  tl_ReceivedAt :: Time
  tl_MonitoringStatus :: MonitoringStatus
  tl_ModelStatus :: string
  tl_InferenceLatencyMs :: int
  tl_ProcessedFPS :: int
  tl_DroppedFrames :: int
  tl_ConfirmedEvents :: int
  tl_AppVersion :: string

record HazardEvent =
  e_ID :: string
  e_DedupKey :: string
  e_DeviceID :: string
  e_Source :: ProviderName
  e_Type :: HazardType
  e_Confidence :: float64
  e_FirstSeenAt :: Time
  e_ConfirmedAt :: Time
  e_ReceivedAt :: Time

record Command =
  c_ID :: string
  c_DeviceID :: string
  c_Type :: CommandType
  c_Payload :: string
  c_IdempotencyKey :: string
  c_State :: CommandState
  c_ResultMessage :: message
  c_CreatedAt :: Time
  c_DeliveredAt :: "Time option"
  c_CompletedAt :: "Time option"
  c_ExpiresAt :: Time

record ProviderConnection =
  pc_ID :: string
  pc_Provider :: ProviderName
  pc_BaseURL :: string
  pc_AccessToken :: string
  pc_RefreshToken :: string
  pc_TokenExpiry :: Time
  pc_WebhookSecret :: string
  pc_Status :: string
  pc_UpdatedAt :: Time

text \<open>The zero values Go starts a literal from.\<close>

definition zeroDevice :: Device where
  "zeroDevice = \<lparr>d_ID = [], d_ExternalID = [], d_Provider = [], d_Name = [], d_Status = [],
     d_AppVersion = [], d_LastSeenAt = zeroTime, d_CreatedAt = zeroTime, d_UpdatedAt = zeroTime\<rparr>"

definition zeroTelemetryEvent :: TelemetryEvent where
  "zeroTelemetryEvent = \<lparr>tl_ID = [], tl_DeviceID = [], tl_ReportedAt = zeroTime,
     tl_ReceivedAt = zeroTime, tl_MonitoringStatus = [], tl_ModelStatus = [],
     tl_InferenceLatencyMs = 0, tl_ProcessedFPS = 0, tl_DroppedFrames = 0,
     tl_ConfirmedEvents = 0, tl_AppVersion = []\<rparr>"

definition zeroHazardEvent :: HazardEvent where
  "zeroHazardEvent = \<lparr>e_ID = [], e_DedupKey = [], e_DeviceID = [], e_Source = [], e_Type = [],
     e_Confidence = 0, e_FirstSeenAt = zeroTime, e_ConfirmedAt = zeroTime,
     e_ReceivedAt = zeroTime\<rparr>"

definition zeroCommand :: Command where
  "zeroCommand = \<lparr>c_ID = [], c_DeviceID = [], c_Type = [], c_Payload = [],
     c_IdempotencyKey = [], c_State = [], c_ResultMessage = Str [], c_CreatedAt = zeroTime,
     c_DeliveredAt = None, c_CompletedAt = None, c_ExpiresAt = zeroTime\<rparr>"

definition zeroProviderConnection :: ProviderConnection where
  "zeroProviderConnection = \<lparr>pc_ID = [], pc_Provider = [], pc_BaseURL = [],
     pc_AccessToken = [], pc_RefreshToken = [], pc_TokenExpiry = zeroTime,
     pc_WebhookSecret = [], pc_Status = [], pc_UpdatedAt = zeroTime\<rparr>"

lemmas zero_values = zeroDevice_def zeroTelemetryEvent_def zeroHazardEvent_def zeroCommand_def
  zeroProviderConnection_def

section \<open>Validation of a hazard event\<close>

definition Validate_errors :: "HazardEvent \<Rightarrow> error list" where
  "Validate_errors e =
     (if e_DedupKey e = [] then [Errorf ''missing dedup key'' []] else []) @
     (if e_DeviceID e = [] then [Errorf ''missing device id'' []] else []) @
     (if \<not> ValidProvider (e_Source e)
      then [Errorf ''unknown source %q'' [AStr (e_Source e)]] else []) @
     (if \<not> ValidHazardType (e_Type e)
      then [Errorf ''unknown hazard type %q'' [AStr (e_Type e)]] else []) @
     (if e_Confidence e < 0 \<or> 1 < e_Confidence e
      then [Errorf ''confidence %v outside [0,1]'' [AFloat (e_Confidence e)]] else []) @
     (if IsZero (e_ConfirmedAt e) then [Errorf ''missing confirmed-at timestamp'' []] else [])"

definition Validate :: "HazardEvent \<Rightarrow> error option" where
  "Validate e = joinErrors (Validate_errors e)"

text \<open>What an event must satisfy, stated once and independently of the order of the checks.\<close>

definition valid_event :: "HazardEvent \<Rightarrow> bool" where
  "valid_event e \<longleftrightarrow>
     e_DedupKey e \<noteq> [] \<and> e_DeviceID e \<noteq> [] \<and> ValidProvider (e_Source e) \<and>
     ValidHazardType (e_Type e) \<and> 0 \<le> e_Confidence e \<and> e_Confidence e \<le> 1 \<and>
     \<not> IsZero (e_ConfirmedAt e)"

lemma Validate_None_iff: "Validate e = None \<longleftrightarrow> valid_event e"
  by (auto simp: Validate_def Validate_errors_def valid_event_def)

lemma Validate_not_sentinel: "Validate e = Some err \<Longrightarrow> \<not> errIs err s"
  by (auto simp: Validate_def Validate_errors_def joinErrors_def split: if_splits)

section \<open>The command state machine\<close>

definition CanTransition :: "CommandState \<Rightarrow> CommandState \<Rightarrow> bool" where
  "CanTransition from to =
     (if from = CommandPending then to = CommandDelivered \<or> to = CommandFailed
      else if from = CommandDelivered then to = CommandAcknowledged \<or> to = CommandFailed
      else False)"

definition valid_state :: "CommandState \<Rightarrow> bool" where
  "valid_state s \<longleftrightarrow> s \<in> {CommandPending, CommandDelivered, CommandAcknowledged, CommandFailed}"

definition terminal_state :: "CommandState \<Rightarrow> bool" where
  "terminal_state s \<longleftrightarrow> s = CommandAcknowledged \<or> s = CommandFailed"

lemma CanTransition_simps [simp]:
  "CanTransition CommandPending to \<longleftrightarrow> to = CommandDelivered \<or> to = CommandFailed"
  "CanTransition CommandDelivered to \<longleftrightarrow> to = CommandAcknowledged \<or> to = CommandFailed"
  "\<not> CanTransition CommandAcknowledged to"
  "\<not> CanTransition CommandFailed to"
  by (simp_all add: CanTransition_def)

lemma CanTransition_valid:
  "CanTransition from to \<Longrightarrow> valid_state from \<and> valid_state to \<and> \<not> terminal_state from"
  by (auto simp: CanTransition_def valid_state_def terminal_state_def split: if_splits)

text \<open>A state order: every transition climbs, so a lifecycle has no cycle.\<close>

definition state_rank :: "CommandState \<Rightarrow> nat" where
  "state_rank s = (if s = CommandPending then 0 else if s = CommandDelivered then 1 else 2)"

lemma CanTransition_rank: "CanTransition from to \<Longrightarrow> state_rank from < state_rank to"
  by (auto simp: CanTransition_def state_rank_def split: if_splits)

end
