(* ===== verification/World.thy ===== *)
theory World
  imports Domain
begin

text \<open>
  The state the connector's operations run on: the PostgreSQL tables of
  \<^verbatim>\<open>migrations/0001_init.sql\<close>, the metric counters, the subscriber hub of the event
  pipeline, the cached OAuth token, and the environment (the process clock, the database
  clock, identifier generation, the fault script of the database driver, the answers of the
  network, and the readings of \<^verbatim>\<open>ctx.Err()\<close>) as sources.
\<close>

section \<open>Tables\<close>

record device_row =
  dv_id :: string
  dv_provider :: ProviderName
  dv_external_id :: string
  dv_name :: string
  dv_status :: DeviceStatus
  dv_app_version :: string
  dv_last_seen_at :: "Time option"
  dv_created_at :: Time
  dv_updated_at :: Time

record delivery_row =
  dl_provider :: ProviderName
  dl_delivery_id :: string
  dl_received_at :: Time

record dead_row =
  dd_id :: string
  dd_source :: ProviderName
  dd_reason :: message
  dd_payload :: string
  dd_received_at :: Time

record connection_row =
  cn_id :: string
  cn_provider :: ProviderName
  cn_base_url :: string
  cn_access_token_enc :: "string option"
  cn_refresh_token_enc :: "string option"
  cn_token_expiry :: "Time option"
  cn_webhook_secret_enc :: "string option"
  cn_status :: string
  cn_updated_at :: Time

text \<open>
  The columns of \<^verbatim>\<open>telemetry\<close>, \<^verbatim>\<open>hazard_events\<close> and \<^verbatim>\<open>commands\<close> are the fields of the
  domain records, which serve as their rows.
\<close>

record database =
  t_devices :: "device_row list"
  t_telemetry :: "TelemetryEvent list"
  t_hazards :: "HazardEvent list"
  t_commands :: "Command list"
  t_connections :: "connection_row list"
  t_deliveries :: "delivery_row list"
  t_dead :: "dead_row list"
  t_migrations :: "string list"

definition empty_database :: database where
  "empty_database = \<lparr>t_devices = [], t_telemetry = [], t_hazards = [], t_commands = [],
     t_connections = [], t_deliveries = [], t_dead = [], t_migrations = []\<rparr>"

section \<open>What PostgreSQL does with a parameter\<close>

text \<open>
  PostgreSQL and its driver are not part of the repository: how a \<^verbatim>\<open>timestamptz\<close> keeps an
  instant, which strings a \<^verbatim>\<open>uuid\<close> column accepts (and the canonical text it returns), and
  which documents \<^verbatim>\<open>jsonb\<close> accepts (and the text it returns) are parameters.
\<close>

record pg_params =
  pg_time :: "Time \<Rightarrow> Time"
  pg_uuid :: "string \<Rightarrow> string option"
  pg_jsonb :: "string \<Rightarrow> string option"

text \<open>
  A statement can fail in the driver before it reaches the server, or after the server has
  executed it (the connection is lost before the answer arrives).
\<close>

datatype fault = NoFault | FailBefore driver_error | FailAfter driver_error

section \<open>Metrics\<close>

type_synonym metric = "string \<times> string list"
type_synonym metrics = "metric \<Rightarrow> nat"

definition Inc :: "metric \<Rightarrow> metrics \<Rightarrow> metrics" where
  "Inc m ms = ms(m := Suc (ms m))"

section \<open>Subscriber channels\<close>

record chan =
  ch_buf :: "HazardEvent list"
  ch_closed :: bool

record hub =
  h_chans :: "chan list"
  h_subs :: "nat list"
  h_panic :: bool

section \<open>Outbound HTTP and tokens\<close>

record http_request =
  rq_method :: string
  rq_url :: string
  rq_token :: string
  rq_body :: string

record http_response =
  rs_status :: int
  rs_body :: string

record Token =
  tk_AccessToken :: string
  tk_RefreshToken :: string
  tk_Expiry :: Time

definition zeroToken :: Token where
  "zeroToken = \<lparr>tk_AccessToken = [], tk_RefreshToken = [], tk_Expiry = zeroTime\<rparr>"

section \<open>The world\<close>

record world =
  w_clock :: "Time source"
  w_dbclock :: "Time source"
  w_uuids :: "string source"
  w_faults :: "fault source"
  w_ctx :: "sentinel option source"
  w_rand :: "nat source"
  w_net :: "(http_request \<Rightarrow> driver_error + http_response) source"
  w_sent :: "http_request list"
  w_pg :: pg_params
  w_db :: database
  w_metrics :: metrics
  w_hub :: hub
  w_token :: Token

definition timeNow :: "world \<Rightarrow> Time \<times> world" where
  "timeNow w = (fst (draw (w_clock w)), w\<lparr>w_clock := snd (draw (w_clock w))\<rparr>)"

definition sqlNow :: "world \<Rightarrow> Time \<times> world" where
  "sqlNow w = (fst (draw (w_dbclock w)), w\<lparr>w_dbclock := snd (draw (w_dbclock w))\<rparr>)"

definition uuidNew :: "world \<Rightarrow> string \<times> world" where
  "uuidNew w = (fst (draw (w_uuids w)), w\<lparr>w_uuids := snd (draw (w_uuids w))\<rparr>)"

definition nextFault :: "world \<Rightarrow> fault \<times> world" where
  "nextFault w = (fst (draw (w_faults w)), w\<lparr>w_faults := snd (draw (w_faults w))\<rparr>)"

definition ctxErr :: "world \<Rightarrow> sentinel option \<times> world" where
  "ctxErr w = (fst (draw (w_ctx w)), w\<lparr>w_ctx := snd (draw (w_ctx w))\<rparr>)"

definition randNext :: "world \<Rightarrow> nat \<times> world" where
  "randNext w = (fst (draw (w_rand w)), w\<lparr>w_rand := snd (draw (w_rand w))\<rparr>)"

definition metricInc :: "metric \<Rightarrow> world \<Rightarrow> world" where
  "metricInc m w = w\<lparr>w_metrics := Inc m (w_metrics w)\<rparr>"

lemmas environment_defs = timeNow_def sqlNow_def uuidNew_def nextFault_def ctxErr_def randNext_def

text \<open>Reading the environment changes nothing but the source that was read.\<close>

lemma w_db_env [simp, frame_simps]:
  "w_db (snd (timeNow w)) = w_db w" "w_db (snd (sqlNow w)) = w_db w"
  "w_db (snd (uuidNew w)) = w_db w" "w_db (snd (nextFault w)) = w_db w"
  "w_db (snd (ctxErr w)) = w_db w" "w_db (snd (randNext w)) = w_db w"
  "w_db (metricInc m w) = w_db w"
  by (simp_all add: environment_defs metricInc_def)

lemma w_pg_env [simp, frame_simps]:
  "w_pg (snd (timeNow w)) = w_pg w" "w_pg (snd (sqlNow w)) = w_pg w"
  "w_pg (snd (uuidNew w)) = w_pg w" "w_pg (snd (nextFault w)) = w_pg w"
  "w_pg (snd (ctxErr w)) = w_pg w" "w_pg (snd (randNext w)) = w_pg w"
  "w_pg (metricInc m w) = w_pg w"
  by (simp_all add: environment_defs metricInc_def)

lemma w_hub_env [simp, frame_simps]:
  "w_hub (snd (timeNow w)) = w_hub w" "w_hub (snd (sqlNow w)) = w_hub w"
  "w_hub (snd (uuidNew w)) = w_hub w" "w_hub (snd (nextFault w)) = w_hub w"
  "w_hub (snd (ctxErr w)) = w_hub w" "w_hub (snd (randNext w)) = w_hub w"
  "w_hub (metricInc m w) = w_hub w"
  by (simp_all add: environment_defs metricInc_def)

lemma w_metrics_env [simp, frame_simps]:
  "w_metrics (snd (timeNow w)) = w_metrics w" "w_metrics (snd (sqlNow w)) = w_metrics w"
  "w_metrics (snd (uuidNew w)) = w_metrics w" "w_metrics (snd (nextFault w)) = w_metrics w"
  "w_metrics (snd (ctxErr w)) = w_metrics w" "w_metrics (snd (randNext w)) = w_metrics w"
  "w_metrics (metricInc m w) = Inc m (w_metrics w)"
  by (simp_all add: environment_defs metricInc_def)

text \<open>An operation that touches only the database and the sources a statement reads.\<close>

definition db_only :: "world \<Rightarrow> world \<Rightarrow> bool" where
  "db_only w w' \<longleftrightarrow>
     w_clock w' = w_clock w \<and> w_ctx w' = w_ctx w \<and> w_rand w' = w_rand w \<and>
     w_net w' = w_net w \<and> w_sent w' = w_sent w \<and> w_pg w' = w_pg w \<and>
     w_metrics w' = w_metrics w \<and> w_hub w' = w_hub w \<and> w_token w' = w_token w \<and>
     fst (w_faults w') = fst (w_faults w) \<and> fst (w_dbclock w') = fst (w_dbclock w) \<and>
     fst (w_uuids w') = fst (w_uuids w)"

lemma db_only_refl [simp]: "db_only w w"
  by (simp add: db_only_def)

lemma db_only_trans [trans]: "db_only w w' \<Longrightarrow> db_only w' w'' \<Longrightarrow> db_only w w''"
  by (simp add: db_only_def)

lemma db_only_env [simp]:
  "db_only w (snd (sqlNow w))" "db_only w (snd (uuidNew w))" "db_only w (snd (nextFault w))"
  by (simp_all add: environment_defs db_only_def)

lemma db_only_update [simp]: "db_only w (w\<lparr>w_db := d\<rparr>)"
  by (simp add: db_only_def)

lemma db_onlyD:
  assumes "db_only w w'"
  shows "w_pg w' = w_pg w" "w_metrics w' = w_metrics w" "w_hub w' = w_hub w" "w_token w' = w_token w"
    "w_sent w' = w_sent w" "w_net w' = w_net w" "w_clock w' = w_clock w"
    "fst (w_faults w') = fst (w_faults w)"
  using assms by (simp_all add: db_only_def)

text \<open>A run in which no statement fails in the driver.\<close>

definition healthy :: "world \<Rightarrow> bool" where
  "healthy w \<longleftrightarrow> (\<forall>n. fst (w_faults w) n = NoFault)"

lemma healthy_db_only: "db_only w w' \<Longrightarrow> healthy w' = healthy w"
  by (simp add: healthy_def db_only_def)

lemma Inc_same [simp]: "Inc m ms m = Suc (ms m)"
  by (simp add: Inc_def)

lemma Inc_other [simp]: "m \<noteq> m' \<Longrightarrow> Inc m ms m' = ms m'"
  by (simp add: Inc_def)

end
