(* ===== verification/Storage.thy ===== *)
theory Storage
  imports World
begin

text \<open>
  The storage layer (\<^verbatim>\<open>internal/storage/storage.go\<close>). Every SQL text of the file is a
  statement: a function of the database clock and the tables that gives an error of the
  server or a result and the new tables. \<open>exec_sql\<close> runs one statement under the fault
  script. The Go methods are compositions of statements, one database round trip each, so
  that interleavings of concurrent handlers are interleavings of statements.
\<close>

type_synonym 'a stmt = "Time \<Rightarrow> database \<Rightarrow> error + ('a \<times> database)"

definition exec_sql :: "'a stmt \<Rightarrow> world \<Rightarrow> 'a res \<times> world" where
  "exec_sql stmt w =
     (let (now, w1) = sqlNow w;
          (flt, w2) = nextFault w1
      in case flt of
           FailBefore d \<Rightarrow> (Inl (Driver d), w2)
         | NoFault \<Rightarrow>
             (case stmt now (w_db w2) of
                Inl e \<Rightarrow> (Inl e, w2)
              | Inr (a, db') \<Rightarrow> (Inr a, w2\<lparr>w_db := db'\<rparr>))
         | FailAfter d \<Rightarrow>
             (case stmt now (w_db w2) of
                Inl e \<Rightarrow> (Inl e, w2)
              | Inr (a, db') \<Rightarrow> (Inl (Driver d), w2\<lparr>w_db := db'\<rparr>)))"

section \<open>SQL functions and error classes\<close>

definition sql_nullif :: "'a \<Rightarrow> 'a \<Rightarrow> 'a option" where
  "sql_nullif a b = (if a = b then None else Some a)"

definition sql_coalesce :: "'a option \<Rightarrow> 'a option \<Rightarrow> 'a option" where
  "sql_coalesce a b = (case a of None \<Rightarrow> b | Some _ \<Rightarrow> a)"

text \<open>\<^verbatim>\<open>GREATEST\<close> ignores NULL arguments.\<close>

definition sql_greatest :: "Time option \<Rightarrow> Time option \<Rightarrow> Time option" where
  "sql_greatest a b =
     (case (a, b) of (Some x, Some y) \<Rightarrow> Some (max x y) | (None, _) \<Rightarrow> b | (_, None) \<Rightarrow> a)"

definition unique_violation :: error where "unique_violation = PgError ''unique_violation''"
definition foreign_key_violation :: error where
  "foreign_key_violation = PgError ''foreign_key_violation''"
definition check_violation :: error where "check_violation = PgError ''check_violation''"
definition invalid_text :: error where
  "invalid_text = PgError ''invalid_text_representation''"

lemmas pg_errors = unique_violation_def foreign_key_violation_def check_violation_def
  invalid_text_def

text \<open>A \<^verbatim>\<open>uuid\<close> parameter is read before anything else happens.\<close>

definition with_uuid :: "pg_params \<Rightarrow> string \<Rightarrow> (string \<Rightarrow> error + 'b) \<Rightarrow> error + 'b" where
  "with_uuid pg s k = (case pg_uuid pg s of None \<Rightarrow> Inl invalid_text | Some u \<Rightarrow> k u)"

definition device_ids :: "database \<Rightarrow> string set" where
  "device_ids db = dv_id ` set (t_devices db)"

section \<open>Devices\<close>

definition device_key :: "device_row \<Rightarrow> ProviderName \<times> string" where
  "device_key r = (dv_provider r, dv_external_id r)"

definition new_device_row :: "string \<Rightarrow> Device \<Rightarrow> Time option \<Rightarrow> Time \<Rightarrow> device_row" where
  "new_device_row u d seen now =
     \<lparr>dv_id = u, dv_provider = d_Provider d, dv_external_id = d_ExternalID d,
      dv_name = d_Name d, dv_status = d_Status d, dv_app_version = d_AppVersion d,
      dv_last_seen_at = seen, dv_created_at = now, dv_updated_at = now\<rparr>"

definition upsert_device_row :: "Device \<Rightarrow> Time option \<Rightarrow> Time \<Rightarrow> device_row \<Rightarrow> device_row" where
  "upsert_device_row d seen now r =
     r\<lparr>dv_name := the (sql_coalesce (sql_nullif (d_Name d) []) (Some (dv_name r))),
       dv_status := (if d_Status d = DeviceUnknown then dv_status r else d_Status d),
       dv_app_version := the (sql_coalesce (sql_nullif (d_AppVersion d) []) (Some (dv_app_version r))),
       dv_last_seen_at := sql_greatest (sql_coalesce seen (dv_last_seen_at r)) (dv_last_seen_at r),
       dv_updated_at := now\<rparr>"

definition upsertDevice_sql :: "pg_params \<Rightarrow> string \<Rightarrow> Device \<Rightarrow> string stmt" where
  "upsertDevice_sql pg uid d now db =
     with_uuid pg uid (\<lambda>u.
       let seen = sql_nullif (pg_time pg (d_LastSeenAt d)) zeroTime;
           same = (\<lambda>r. device_key r = (d_Provider d, d_ExternalID d))
       in case List.find same (t_devices db) of
            Some r \<Rightarrow>
              Inr (dv_id r,
                   db\<lparr>t_devices := update_where same (upsert_device_row d seen now) (t_devices db)\<rparr>)
          | None \<Rightarrow>
              if u \<in> device_ids db then Inl unique_violation
              else Inr (u, db\<lparr>t_devices := t_devices db @ [new_device_row u d seen now]\<rparr>))"

definition UpsertDevice :: "Device \<Rightarrow> world \<Rightarrow> string res \<times> world" where
  "UpsertDevice d w =
     (let (uid, w1) = uuidNew w
      in case exec_sql (upsertDevice_sql (w_pg w1) uid d) w1 of
           (Inl e, w2) \<Rightarrow> (Inl (Wrapf ''upserting device: %w'' [] e), w2)
         | (Inr got, w2) \<Rightarrow> (Inr got, w2))"

definition touchDevice_sql :: "pg_params \<Rightarrow> string \<Rightarrow> DeviceStatus \<Rightarrow> Time \<Rightarrow> unit stmt" where
  "touchDevice_sql pg deviceID status seenAt now db =
     with_uuid pg deviceID (\<lambda>u.
       let seen' = Some (pg_time pg seenAt);
           touch = (\<lambda>r. r\<lparr>dv_status := status,
             dv_last_seen_at := sql_greatest (sql_coalesce (dv_last_seen_at r) seen') seen',
             dv_updated_at := now\<rparr>)
       in Inr ((), db\<lparr>t_devices := update_where (\<lambda>r. dv_id r = u) touch (t_devices db)\<rparr>))"

definition TouchDevice :: "string \<Rightarrow> DeviceStatus \<Rightarrow> Time \<Rightarrow> world \<Rightarrow> unit res \<times> world" where
  "TouchDevice deviceID status seenAt w = exec_sql (touchDevice_sql (w_pg w) deviceID status seenAt) w"

text \<open>The columns \<^verbatim>\<open>deviceCols\<close> selects, scanned into a \<^verbatim>\<open>domain.Device\<close>.\<close>

definition scan_device_row :: "device_row \<Rightarrow> Device" where
  "scan_device_row r =
     \<lparr>d_ID = dv_id r, d_ExternalID = dv_external_id r, d_Provider = dv_provider r,
      d_Name = dv_name r, d_Status = dv_status r, d_AppVersion = dv_app_version r,
      d_LastSeenAt = the (sql_coalesce (dv_last_seen_at r) (Some zeroTime)),
      d_CreatedAt = dv_created_at r, d_UpdatedAt = dv_updated_at r\<rparr>"

definition select_one :: "('r \<Rightarrow> bool) \<Rightarrow> ('r \<Rightarrow> 'a) \<Rightarrow> 'r list \<Rightarrow> database \<Rightarrow> error + ('a \<times> database)" where
  "select_one p f t db =
     (case List.find p t of None \<Rightarrow> Inl (Sentinel ErrNoRows) | Some r \<Rightarrow> Inr (f r, db))"

text \<open>\<^verbatim>\<open>scanDevice\<close> and \<^verbatim>\<open>scanCommand\<close> turn a missing row into \<^verbatim>\<open>ErrNotFound\<close>.\<close>

definition rowErr :: "error \<Rightarrow> error" where
  "rowErr e = (if errIs e ErrNoRows then Sentinel ErrNotFound else e)"

definition scanRow :: "'a res \<times> world \<Rightarrow> 'a res \<times> world" where
  "scanRow r = (case r of (Inl e, w) \<Rightarrow> (Inl (rowErr e), w) | (Inr a, w) \<Rightarrow> (Inr a, w))"

definition getDevice_sql :: "pg_params \<Rightarrow> string \<Rightarrow> Device stmt" where
  "getDevice_sql pg uid now db =
     with_uuid pg uid (\<lambda>u. select_one (\<lambda>r. dv_id r = u) scan_device_row (t_devices db) db)"

definition GetDevice :: "string \<Rightarrow> world \<Rightarrow> Device res \<times> world" where
  "GetDevice uid w = scanRow (exec_sql (getDevice_sql (w_pg w) uid) w)"

definition findDevice_sql :: "ProviderName \<Rightarrow> string \<Rightarrow> Device stmt" where
  "findDevice_sql p ext now db =
     select_one (\<lambda>r. device_key r = (p, ext)) scan_device_row (t_devices db) db"

definition FindDeviceByExternalID :: "ProviderName \<Rightarrow> string \<Rightarrow> world \<Rightarrow> Device res \<times> world" where
  "FindDeviceByExternalID p ext w = scanRow (exec_sql (findDevice_sql p ext) w)"

text \<open>\<^verbatim>\<open>ORDER BY last_seen_at DESC NULLS LAST\<close>; rows that tie keep the order of the table.\<close>

definition listDevices_sql :: "Device list stmt" where
  "listDevices_sql now db =
     Inr (map scan_device_row
           (sort_key (\<lambda>r. - the (dv_last_seen_at r))
              (filter (\<lambda>r. dv_last_seen_at r \<noteq> None) (t_devices db)) @
            filter (\<lambda>r. dv_last_seen_at r = None) (t_devices db)), db)"

definition ListDevices :: "world \<Rightarrow> Device list res \<times> world" where
  "ListDevices w = exec_sql listDevices_sql w"

section \<open>Telemetry\<close>

definition telemetry_checks :: "TelemetryEvent \<Rightarrow> bool" where
  "telemetry_checks t \<longleftrightarrow> 0 \<le> tl_InferenceLatencyMs t \<and> 0 \<le> tl_ProcessedFPS t \<and>
     0 \<le> tl_DroppedFrames t \<and> 0 \<le> tl_ConfirmedEvents t"

definition insertTelemetry_sql :: "pg_params \<Rightarrow> string \<Rightarrow> TelemetryEvent \<Rightarrow> unit stmt" where
  "insertTelemetry_sql pg uid t now db =
     with_uuid pg uid (\<lambda>u. with_uuid pg (tl_DeviceID t) (\<lambda>dev.
       if \<not> telemetry_checks t then Inl check_violation
       else if u \<in> tl_ID ` set (t_telemetry db) then Inl unique_violation
       else if dev \<notin> device_ids db then Inl foreign_key_violation
       else Inr ((), db\<lparr>t_telemetry := t_telemetry db @
              [t\<lparr>tl_ID := u, tl_DeviceID := dev, tl_ReportedAt := pg_time pg (tl_ReportedAt t),
                 tl_ReceivedAt := pg_time pg (tl_ReceivedAt t)\<rparr>]\<rparr>)))"

definition InsertTelemetry :: "TelemetryEvent \<Rightarrow> world \<Rightarrow> unit res \<times> world" where
  "InsertTelemetry t w =
     (let (uid, w1) = uuidNew w in exec_sql (insertTelemetry_sql (w_pg w1) uid t) w1)"

text \<open>\<^verbatim>\<open>ORDER BY reported_at DESC LIMIT 1\<close>.\<close>

definition latestTelemetry_sql :: "pg_params \<Rightarrow> string \<Rightarrow> TelemetryEvent stmt" where
  "latestTelemetry_sql pg deviceID now db =
     with_uuid pg deviceID (\<lambda>dev.
       case sort_key (\<lambda>t. - tl_ReportedAt t) (filter (\<lambda>t. tl_DeviceID t = dev) (t_telemetry db)) of
         [] \<Rightarrow> Inl (Sentinel ErrNoRows)
       | t # _ \<Rightarrow> Inr (t, db))"

definition LatestTelemetry :: "string \<Rightarrow> world \<Rightarrow> TelemetryEvent res \<times> world" where
  "LatestTelemetry deviceID w = scanRow (exec_sql (latestTelemetry_sql (w_pg w) deviceID) w)"

section \<open>Hazard events\<close>

definition hazard_key :: "HazardEvent \<Rightarrow> ProviderName \<times> string" where
  "hazard_key e = (e_Source e, e_DedupKey e)"

definition insertHazard_sql :: "pg_params \<Rightarrow> HazardEvent \<Rightarrow> nat stmt" where
  "insertHazard_sql pg e now db =
     with_uuid pg (e_ID e) (\<lambda>u. with_uuid pg (e_DeviceID e) (\<lambda>dev.
       if e_Confidence e < 0 \<or> 1 < e_Confidence e then Inl check_violation
       else if hazard_key e \<in> hazard_key ` set (t_hazards db) then Inr (0, db)
       else if u \<in> e_ID ` set (t_hazards db) then Inl unique_violation
       else if dev \<notin> device_ids db then Inl foreign_key_violation
       else Inr (1, db\<lparr>t_hazards := t_hazards db @
              [e\<lparr>e_ID := u, e_DeviceID := dev, e_FirstSeenAt := pg_time pg (e_FirstSeenAt e),
                 e_ConfirmedAt := pg_time pg (e_ConfirmedAt e),
                 e_ReceivedAt := pg_time pg (e_ReceivedAt e)\<rparr>]\<rparr>)))"

definition withEventID :: "HazardEvent \<Rightarrow> world \<Rightarrow> HazardEvent \<times> world" where
  "withEventID e w =
     (if e_ID e = [] then (let (uid, w') = uuidNew w in (e\<lparr>e_ID := uid\<rparr>, w')) else (e, w))"

definition InsertHazardEvent :: "HazardEvent \<Rightarrow> world \<Rightarrow> HazardEvent res \<times> world" where
  "InsertHazardEvent e w =
     (let (e1, w1) = withEventID e w
      in case exec_sql (insertHazard_sql (w_pg w1) e1) w1 of
           (Inl err, w2) \<Rightarrow> (Inl (Wrapf ''inserting hazard event: %w'' [] err), w2)
         | (Inr n, w2) \<Rightarrow> if n = 0 then (Inl (Sentinel ErrDuplicate), w2) else (Inr e1, w2))"

definition clamp_event_limit :: "int \<Rightarrow> int" where
  "clamp_event_limit limit = (if limit \<le> 0 \<or> 500 < limit then 100 else limit)"

definition listRecentEvents_sql :: "int \<Rightarrow> HazardEvent list stmt" where
  "listRecentEvents_sql limit now db =
     Inr (take (nat limit) (sort_key (\<lambda>e. - e_ReceivedAt e) (t_hazards db)), db)"

definition ListRecentEvents :: "int \<Rightarrow> world \<Rightarrow> HazardEvent list res \<times> world" where
  "ListRecentEvents limit w = exec_sql (listRecentEvents_sql (clamp_event_limit limit)) w"

section \<open>Webhook deliveries and dead letters\<close>

definition delivery_key :: "delivery_row \<Rightarrow> ProviderName \<times> string" where
  "delivery_key r = (dl_provider r, dl_delivery_id r)"

definition recordDelivery_sql :: "ProviderName \<Rightarrow> string \<Rightarrow> nat stmt" where
  "recordDelivery_sql p deliveryID now db =
     (if (p, deliveryID) \<in> delivery_key ` set (t_deliveries db) then Inr (0, db)
      else Inr (1, db\<lparr>t_deliveries := t_deliveries db @
             [\<lparr>dl_provider = p, dl_delivery_id = deliveryID, dl_received_at = now\<rparr>]\<rparr>))"

definition RecordWebhookDelivery :: "ProviderName \<Rightarrow> string \<Rightarrow> world \<Rightarrow> unit res \<times> world" where
  "RecordWebhookDelivery p deliveryID w =
     (case exec_sql (recordDelivery_sql p deliveryID) w of
        (Inl e, w1) \<Rightarrow> (Inl e, w1)
      | (Inr n, w1) \<Rightarrow> if n = 0 then (Inl (Sentinel ErrDuplicate), w1) else (Inr (), w1))"

definition maxPayload :: nat where "maxPayload = 64 * 1024"

definition insertDeadLetter_sql :: "pg_params \<Rightarrow> string \<Rightarrow> ProviderName \<Rightarrow> message \<Rightarrow> string \<Rightarrow> unit stmt" where
  "insertDeadLetter_sql pg uid source reason payload now db =
     with_uuid pg uid (\<lambda>u.
       if u \<in> dd_id ` set (t_dead db) then Inl unique_violation
       else Inr ((), db\<lparr>t_dead := t_dead db @
              [\<lparr>dd_id = u, dd_source = source, dd_reason = reason, dd_payload = payload,
                dd_received_at = now\<rparr>]\<rparr>))"

definition InsertDeadLetter :: "ProviderName \<Rightarrow> message \<Rightarrow> string \<Rightarrow> world \<Rightarrow> unit res \<times> world" where
  "InsertDeadLetter source reason payload w =
     (let payload' = (if maxPayload < length payload then take maxPayload payload else payload);
          (uid, w1) = uuidNew w
      in exec_sql (insertDeadLetter_sql (w_pg w1) uid source reason payload') w1)"

section \<open>Commands\<close>

text \<open>The partial unique index: commands with an empty idempotency key are not in it.\<close>

definition idem_key :: "Command \<Rightarrow> (string \<times> string) option" where
  "idem_key c = (if c_IdempotencyKey c = [] then None else Some (c_DeviceID c, c_IdempotencyKey c))"

definition getCommand_sql :: "pg_params \<Rightarrow> string \<Rightarrow> Command stmt" where
  "getCommand_sql pg uid now db =
     with_uuid pg uid (\<lambda>u. select_one (\<lambda>c. c_ID c = u) (\<lambda>c. c) (t_commands db) db)"

definition GetCommand :: "string \<Rightarrow> world \<Rightarrow> Command res \<times> world" where
  "GetCommand uid w = scanRow (exec_sql (getCommand_sql (w_pg w) uid) w)"

definition findByIdemKey_sql :: "pg_params \<Rightarrow> string \<Rightarrow> string \<Rightarrow> Command stmt" where
  "findByIdemKey_sql pg deviceID key now db =
     with_uuid pg deviceID (\<lambda>dev.
       select_one (\<lambda>c. c_DeviceID c = dev \<and> c_IdempotencyKey c = key) (\<lambda>c. c) (t_commands db) db)"

definition findCommandByIdemKey :: "string \<Rightarrow> string \<Rightarrow> world \<Rightarrow> Command res \<times> world" where
  "findCommandByIdemKey deviceID key w =
     scanRow (exec_sql (findByIdemKey_sql (w_pg w) deviceID key) w)"

definition new_command_row :: "pg_params \<Rightarrow> Command \<Rightarrow> string \<Rightarrow> string \<Rightarrow> string \<Rightarrow> Time \<Rightarrow> Command" where
  "new_command_row pg c u dev doc now =
     c\<lparr>c_ID := u, c_DeviceID := dev, c_Payload := doc, c_State := CommandPending,
       c_ResultMessage := Str [], c_CreatedAt := now, c_DeliveredAt := None,
       c_CompletedAt := None, c_ExpiresAt := pg_time pg (c_ExpiresAt c)\<rparr>"

definition insertCommand_sql :: "pg_params \<Rightarrow> Command \<Rightarrow> string \<Rightarrow> nat stmt" where
  "insertCommand_sql pg c payload now db =
     with_uuid pg (c_ID c) (\<lambda>u. with_uuid pg (c_DeviceID c) (\<lambda>dev.
       case pg_jsonb pg payload of
         None \<Rightarrow> Inl invalid_text
       | Some doc \<Rightarrow>
           let row = new_command_row pg c u dev doc now
           in if idem_key row \<noteq> None \<and> idem_key row \<in> idem_key ` set (t_commands db)
              then Inr (0, db)
              else if u \<in> c_ID ` set (t_commands db) then Inl unique_violation
              else if dev \<notin> device_ids db then Inl foreign_key_violation
              else Inr (1, db\<lparr>t_commands := t_commands db @ [row]\<rparr>)))"

text \<open>
  \<^verbatim>\<open>CreateCommand\<close> returns a command together with \<^verbatim>\<open>ErrDuplicate\<close>: the three outcomes are an
  error, the existing command (\<open>CmdExisting\<close>) and the new one (\<open>CmdCreated\<close>).
\<close>

datatype create_outcome = CmdError error | CmdExisting Command | CmdCreated Command

definition withCommandID :: "Command \<Rightarrow> world \<Rightarrow> Command \<times> world" where
  "withCommandID c w =
     (if c_ID c = [] then (let (uid, w') = uuidNew w in (c\<lparr>c_ID := uid\<rparr>, w')) else (c, w))"

text \<open>What follows the \<^verbatim>\<open>INSERT\<close>: the row that won the key, or the new row read back.\<close>

definition afterInsertCommand :: "Command \<Rightarrow> nat res \<Rightarrow> world \<Rightarrow> create_outcome \<times> world" where
  "afterInsertCommand c r w =
     (case r of
        Inl e \<Rightarrow> (CmdError (Wrapf ''creating command: %w'' [] e), w)
      | Inr n \<Rightarrow>
          if n = 0 then
            (case findCommandByIdemKey (c_DeviceID c) (c_IdempotencyKey c) w of
               (Inl e, w1) \<Rightarrow> (CmdError e, w1)
             | (Inr existing, w1) \<Rightarrow> (CmdExisting existing, w1))
          else
            (case GetCommand (c_ID c) w of
               (Inl e, w1) \<Rightarrow> (CmdError e, w1)
             | (Inr got, w1) \<Rightarrow> (CmdCreated got, w1)))"

definition create_payload :: "Command \<Rightarrow> string" where
  "create_payload c = (if c_Payload c = [] then ''{}'' else c_Payload c)"

definition CreateCommand :: "Command \<Rightarrow> world \<Rightarrow> create_outcome \<times> world" where
  "CreateCommand c w =
     (let (c1, w1) = withCommandID c w;
          c2 = c1\<lparr>c_State := CommandPending\<rparr>;
          (r, w2) = exec_sql (insertCommand_sql (w_pg w1) c2 (create_payload c2)) w1
      in afterInsertCommand c2 r w2)"

definition clamp_poll_limit :: "int \<Rightarrow> int" where
  "clamp_poll_limit limit = (if limit \<le> 0 \<or> 50 < limit then 10 else limit)"

definition claimable :: "string \<Rightarrow> Time \<Rightarrow> Command \<Rightarrow> bool" where
  "claimable dev now c \<longleftrightarrow>
     c_DeviceID c = dev \<and> c_State c = CommandPending \<and> now < c_ExpiresAt c"

definition claim_row :: "Time \<Rightarrow> Command \<Rightarrow> Command" where
  "claim_row now c = c\<lparr>c_State := CommandDelivered, c_DeliveredAt := Some now\<rparr>"

definition claim_ids :: "string \<Rightarrow> int \<Rightarrow> Time \<Rightarrow> Command list \<Rightarrow> string list" where
  "claim_ids dev limit now t =
     map c_ID (take (nat limit) (sort_key c_CreatedAt (filter (claimable dev now) t)))"

text \<open>
  \<^verbatim>\<open>UPDATE ... RETURNING\<close> gives the updated rows in no promised order; here it is the order
  of the table.
\<close>

definition fetchPending_sql :: "pg_params \<Rightarrow> string \<Rightarrow> int \<Rightarrow> Command list stmt" where
  "fetchPending_sql pg deviceID limit now db =
     with_uuid pg deviceID (\<lambda>dev.
       let ids = claim_ids dev limit now (t_commands db);
           hit = (\<lambda>c. c_ID c \<in> set ids)
       in Inr (map (claim_row now) (filter hit (t_commands db)),
               db\<lparr>t_commands := update_where hit (claim_row now) (t_commands db)\<rparr>))"

definition FetchPendingCommands :: "string \<Rightarrow> int \<Rightarrow> world \<Rightarrow> Command list res \<times> world" where
  "FetchPendingCommands deviceID limit w =
     exec_sql (fetchPending_sql (w_pg w) deviceID (clamp_poll_limit limit)) w"

text \<open>The states \<^verbatim>\<open>TransitionCommand\<close> lets a command leave for \<open>to\<close>; None is its default branch.\<close>

definition transition_sources :: "CommandState \<Rightarrow> CommandState list option" where
  "transition_sources to =
     (if to = CommandDelivered then Some [CommandPending]
      else if to = CommandAcknowledged then Some [CommandDelivered]
      else if to = CommandFailed then Some [CommandPending, CommandDelivered]
      else None)"

definition transition_row :: "CommandState \<Rightarrow> message \<Rightarrow> Time \<Rightarrow> Command \<Rightarrow> Command" where
  "transition_row to msg now c =
     c\<lparr>c_State := to,
       c_ResultMessage := (if \<not> textEmpty msg then msg else c_ResultMessage c),
       c_DeliveredAt := (if to = CommandDelivered then Some now else c_DeliveredAt c),
       c_CompletedAt := (if to = CommandAcknowledged \<or> to = CommandFailed then Some now
                         else c_CompletedAt c)\<rparr>"

definition transition_sql ::
  "pg_params \<Rightarrow> string \<Rightarrow> CommandState \<Rightarrow> message \<Rightarrow> CommandState list \<Rightarrow> nat stmt" where
  "transition_sql pg uid to msg from now db =
     with_uuid pg uid (\<lambda>u.
       let hit = (\<lambda>c. c_ID c = u \<and> c_State c \<in> set from)
       in Inr (count_where hit (t_commands db),
               db\<lparr>t_commands := update_where hit (transition_row to msg now) (t_commands db)\<rparr>))"

definition TransitionCommand :: "string \<Rightarrow> CommandState \<Rightarrow> message \<Rightarrow> world \<Rightarrow> Command res \<times> world" where
  "TransitionCommand uid to msg w =
     (case transition_sources to of
        None \<Rightarrow> (Inl (Sentinel ErrInvalidTransition), w)
      | Some from \<Rightarrow>
          (case exec_sql (transition_sql (w_pg w) uid to msg from) w of
             (Inl e, w1) \<Rightarrow> (Inl e, w1)
           | (Inr n, w1) \<Rightarrow>
               if n = 0 then
                 (case GetCommand uid w1 of
                    (Inl e, w2) \<Rightarrow>
                      if errIs e ErrNotFound then (Inl (Sentinel ErrNotFound), w2)
                      else (Inl (Sentinel ErrInvalidTransition), w2)
                  | (Inr _, w2) \<Rightarrow> (Inl (Sentinel ErrInvalidTransition), w2))
               else GetCommand uid w1))"

definition expired_message :: message where
  "expired_message = Str ''expired before completion''"

definition overdue :: "Time \<Rightarrow> Command \<Rightarrow> bool" where
  "overdue now c \<longleftrightarrow>
     (c_State c = CommandPending \<or> c_State c = CommandDelivered) \<and> c_ExpiresAt c \<le> now"

definition expire_row :: "Time \<Rightarrow> Command \<Rightarrow> Command" where
  "expire_row now c =
     c\<lparr>c_State := CommandFailed, c_ResultMessage := expired_message, c_CompletedAt := Some now\<rparr>"

definition expire_sql :: "nat stmt" where
  "expire_sql now db =
     Inr (count_where (overdue now) (t_commands db),
          db\<lparr>t_commands := update_where (overdue now) (expire_row now) (t_commands db)\<rparr>)"

definition ExpireCommands :: "world \<Rightarrow> nat res \<times> world" where
  "ExpireCommands w = exec_sql expire_sql w"

end
