(* ===== verification/StorageInv.thy ===== *)
theory StorageInv
  imports Storage
begin

text \<open>
  What the tables keep. \<open>db_step\<close> is one writing statement with any arguments, at any time;
  its closure \<open>db_steps\<close> is what any number of concurrent handlers can do to the database.
  The integrity of the tables (\<open>db_inv\<close>) is an invariant of these steps, and the command
  table refines an abstract lifecycle machine whose moves are those of \<open>CanTransition\<close>.
\<close>

section \<open>Integrity\<close>

definition devices_inv :: "database \<Rightarrow> bool" where
  "devices_inv db \<longleftrightarrow> distinct (map dv_id (t_devices db)) \<and> distinct (map device_key (t_devices db))"

definition hazards_inv :: "database \<Rightarrow> bool" where
  "hazards_inv db \<longleftrightarrow>
     distinct (map e_ID (t_hazards db)) \<and> distinct (map hazard_key (t_hazards db)) \<and>
     (\<forall>e\<in>set (t_hazards db). e_DeviceID e \<in> device_ids db \<and> 0 \<le> e_Confidence e \<and> e_Confidence e \<le> 1)"

definition telemetry_inv :: "database \<Rightarrow> bool" where
  "telemetry_inv db \<longleftrightarrow>
     distinct (map tl_ID (t_telemetry db)) \<and>
     (\<forall>t\<in>set (t_telemetry db). tl_DeviceID t \<in> device_ids db \<and> telemetry_checks t)"

text \<open>The state of a command and its timestamps tell the same story.\<close>

definition command_wf :: "Command \<Rightarrow> bool" where
  "command_wf c \<longleftrightarrow>
     c_State c = CommandPending \<and> c_DeliveredAt c = None \<and> c_CompletedAt c = None \<or>
     c_State c = CommandDelivered \<and> c_DeliveredAt c \<noteq> None \<and> c_CompletedAt c = None \<or>
     c_State c = CommandAcknowledged \<and> c_DeliveredAt c \<noteq> None \<and> c_CompletedAt c \<noteq> None \<or>
     c_State c = CommandFailed \<and> c_CompletedAt c \<noteq> None"

definition idem_keys :: "Command list \<Rightarrow> (string \<times> string) option list" where
  "idem_keys t = map idem_key (filter (\<lambda>c. idem_key c \<noteq> None) t)"

definition commands_inv :: "database \<Rightarrow> bool" where
  "commands_inv db \<longleftrightarrow>
     distinct (map c_ID (t_commands db)) \<and> distinct (idem_keys (t_commands db)) \<and>
     (\<forall>c\<in>set (t_commands db). c_DeviceID c \<in> device_ids db \<and> command_wf c)"

definition gates_inv :: "database \<Rightarrow> bool" where
  "gates_inv db \<longleftrightarrow>
     distinct (map delivery_key (t_deliveries db)) \<and> distinct (map dd_id (t_dead db))"

definition db_inv :: "database \<Rightarrow> bool" where
  "db_inv db \<longleftrightarrow> devices_inv db \<and> hazards_inv db \<and> telemetry_inv db \<and> commands_inv db \<and> gates_inv db"

lemmas inv_defs = devices_inv_def hazards_inv_def telemetry_inv_def commands_inv_def gates_inv_def

lemma db_inv_empty: "db_inv empty_database"
  by (simp add: db_inv_def inv_defs empty_database_def idem_keys_def)

section \<open>Steps\<close>

inductive db_step :: "database \<Rightarrow> database \<Rightarrow> bool" where
  upsert: "upsertDevice_sql pg uid d now db = Inr (a, db') \<Longrightarrow> db_step db db'"
| touch: "touchDevice_sql pg uid st seen now db = Inr (u, db') \<Longrightarrow> db_step db db'"
| telemetry: "insertTelemetry_sql pg uid t now db = Inr (u, db') \<Longrightarrow> db_step db db'"
| hazard: "insertHazard_sql pg e now db = Inr (n, db') \<Longrightarrow> db_step db db'"
| delivery: "recordDelivery_sql p key now db = Inr (n, db') \<Longrightarrow> db_step db db'"
| dead: "insertDeadLetter_sql pg uid src why body now db = Inr (u, db') \<Longrightarrow> db_step db db'"
| create: "insertCommand_sql pg c payload now db = Inr (n, db') \<Longrightarrow> db_step db db'"
| claim: "fetchPending_sql pg dev limit now db = Inr (cs, db') \<Longrightarrow> db_step db db'"
| move: "transition_sources to = Some from \<Longrightarrow>
    transition_sql pg uid to msg from now db = Inr (n, db') \<Longrightarrow> db_step db db'"
| expire: "expire_sql now db = Inr (n, db') \<Longrightarrow> db_step db db'"

abbreviation db_steps :: "database \<Rightarrow> database \<Rightarrow> bool" where
  "db_steps \<equiv> db_step\<^sup>*\<^sup>*"

text \<open>Each statement written out as what it does to the one table it writes.\<close>

lemmas stmt_defs = upsertDevice_sql_def touchDevice_sql_def insertTelemetry_sql_def
  insertHazard_sql_def recordDelivery_sql_def insertDeadLetter_sql_def insertCommand_sql_def
  fetchPending_sql_def transition_sql_def expire_sql_def with_uuid_def Let_def

lemma device_ids_simps [simp]:
  "device_ids (db\<lparr>t_telemetry := a\<rparr>) = device_ids db" "device_ids (db\<lparr>t_hazards := b\<rparr>) = device_ids db"
  "device_ids (db\<lparr>t_commands := c\<rparr>) = device_ids db" "device_ids (db\<lparr>t_deliveries := d\<rparr>) = device_ids db"
  "device_ids (db\<lparr>t_dead := e\<rparr>) = device_ids db" "device_ids (db\<lparr>t_devices := f\<rparr>) = dv_id ` set f"
  by (simp_all add: device_ids_def)

lemma upsert_row_keys [simp]:
  "dv_id (upsert_device_row d seen now r) = dv_id r"
  "device_key (upsert_device_row d seen now r) = device_key r"
  by (simp_all add: upsert_device_row_def device_key_def)

lemma transition_row_keys [simp]:
  "c_ID (transition_row to msg now c) = c_ID c" "c_DeviceID (transition_row to msg now c) = c_DeviceID c"
  "idem_key (transition_row to msg now c) = idem_key c" "c_State (transition_row to msg now c) = to"
  by (simp_all add: transition_row_def idem_key_def)

lemma claim_row_keys [simp]:
  "c_ID (claim_row now c) = c_ID c" "c_DeviceID (claim_row now c) = c_DeviceID c"
  "idem_key (claim_row now c) = idem_key c" "c_State (claim_row now c) = CommandDelivered"
  by (simp_all add: claim_row_def idem_key_def)

lemma expire_row_keys [simp]:
  "c_ID (expire_row now c) = c_ID c" "c_DeviceID (expire_row now c) = c_DeviceID c"
  "idem_key (expire_row now c) = idem_key c" "c_State (expire_row now c) = CommandFailed"
  by (simp_all add: expire_row_def idem_key_def)

lemma new_command_row_simps [simp]:
  "c_ID (new_command_row pg c u dev doc now) = u"
  "c_DeviceID (new_command_row pg c u dev doc now) = dev"
  "c_Type (new_command_row pg c u dev doc now) = c_Type c"
  "c_Payload (new_command_row pg c u dev doc now) = doc"
  "c_IdempotencyKey (new_command_row pg c u dev doc now) = c_IdempotencyKey c"
  "c_State (new_command_row pg c u dev doc now) = CommandPending"
  by (simp_all add: new_command_row_def)

text \<open>The two ways an enqueue statement succeeds.\<close>

lemma insertCommand_InrE:
  assumes "insertCommand_sql pg c payload now db = Inr (n, db')"
  obtains (conflict) u dev doc where "n = 0" "db' = db" "pg_uuid pg (c_DeviceID c) = Some dev"
      "idem_key (new_command_row pg c u dev doc now) \<noteq> None"
      "idem_key (new_command_row pg c u dev doc now) \<in> idem_key ` set (t_commands db)"
  | (enqueued) u dev doc where "n = 1" "pg_uuid pg (c_ID c) = Some u"
      "pg_uuid pg (c_DeviceID c) = Some dev" "pg_jsonb pg payload = Some doc"
      "db' = db\<lparr>t_commands := t_commands db @ [new_command_row pg c u dev doc now]\<rparr>"
      "u \<notin> c_ID ` set (t_commands db)" "dev \<in> device_ids db"
      "idem_key (new_command_row pg c u dev doc now) = None \<or>
       idem_key (new_command_row pg c u dev doc now) \<notin> idem_key ` set (t_commands db)"
proof -
  from assms obtain u dev doc where args: "pg_uuid pg (c_ID c) = Some u"
      "pg_uuid pg (c_DeviceID c) = Some dev" "pg_jsonb pg payload = Some doc"
    by (auto simp: insertCommand_sql_def with_uuid_def split: option.splits)
  with assms conflict [of dev u doc] enqueued [of u dev doc] show ?thesis
    by (auto simp: insertCommand_sql_def with_uuid_def Let_def simp del: not_None_eq split: if_splits)
qed

section \<open>Updates that keep the keys\<close>

text \<open>
  A command update that keeps identifiers, owner and idempotency key and keeps the row
  well formed keeps the whole command table in order.
\<close>

lemma idem_keys_update_where:
  "(\<And>c. idem_key (f c) = idem_key c) \<Longrightarrow> idem_keys (update_where p f t) = idem_keys t"
  by (induction t) (auto simp: idem_keys_def)

lemma commands_inv_update:
  assumes inv: "commands_inv db"
    and keys: "\<And>c. c_ID (f c) = c_ID c" "\<And>c. idem_key (f c) = idem_key c"
      "\<And>c. c_DeviceID (f c) = c_DeviceID c"
    and wf: "\<And>c. c \<in> set (t_commands db) \<Longrightarrow> p c \<Longrightarrow> command_wf (f c)"
  shows "commands_inv (db\<lparr>t_commands := update_where p f (t_commands db)\<rparr>)"
  using inv keys(3) wf
  by (auto simp: commands_inv_def map_update_where keys(1) idem_keys_update_where keys(2)
      elim!: in_update_whereE)

lemma devices_update_ids:
  "(\<And>r. dv_id (f r) = dv_id r) \<Longrightarrow> dv_id ` set (update_where p f t) = dv_id ` set t"
  by (metis list.set_map map_update_where)

text \<open>Device statements never remove a device, so the references to devices stay valid.\<close>

lemma db_inv_devices_update:
  assumes "db_inv db" "devices_inv (db\<lparr>t_devices := t\<rparr>)" "device_ids db \<subseteq> dv_id ` set t"
  shows "db_inv (db\<lparr>t_devices := t\<rparr>)"
  using assms unfolding db_inv_def inv_defs by (auto 0 3)

lemma db_inv_devices_keep:
  assumes inv: "db_inv db"
    and keys: "\<And>r. dv_id (f r) = dv_id r" "\<And>r. device_key (f r) = device_key r"
  shows "db_inv (db\<lparr>t_devices := update_where p f (t_devices db)\<rparr>)"
  using inv
  by (intro db_inv_devices_update)
    (auto simp: db_inv_def devices_inv_def map_update_where keys device_ids_def devices_update_ids)

section \<open>Every statement keeps the invariant\<close>

lemma upsert_inv:
  assumes "upsertDevice_sql pg uid d now db = Inr (a, db')" "db_inv db"
  shows "db_inv db'"
  using assms
proof (cases "List.find (\<lambda>r. device_key r = (d_Provider d, d_ExternalID d)) (t_devices db)")
  case None
  then have fresh: "(d_Provider d, d_ExternalID d) \<notin> device_key ` set (t_devices db)"
    by (auto dest: find_NoneD)
  from assms(1) None obtain u seen where u: "u \<notin> device_ids db"
    and db': "db' = db\<lparr>t_devices := t_devices db @ [new_device_row u d seen now]\<rparr>"
    by (auto simp: stmt_defs split: option.splits if_splits)
  have "devices_inv db'"
    using assms(2) u fresh
    by (auto simp: db' db_inv_def devices_inv_def new_device_row_def device_key_def device_ids_def)
  with assms(2) show ?thesis
    unfolding db' by (intro db_inv_devices_update) (auto simp: device_ids_def)
next
  case (Some r)
  with assms show ?thesis
    by (auto simp: stmt_defs split: option.splits intro!: db_inv_devices_keep)
qed

lemma touch_inv:
  "touchDevice_sql pg uid st seen now db = Inr (u, db') \<Longrightarrow> db_inv db \<Longrightarrow> db_inv db'"
  by (auto simp: stmt_defs device_key_def split: option.splits intro!: db_inv_devices_keep)

text \<open>A statement that writes one table other than \<open>t_devices\<close> owes only that table's part.\<close>

lemma db_inv_tables:
  "db_inv db \<Longrightarrow> telemetry_inv (db\<lparr>t_telemetry := a\<rparr>) \<Longrightarrow> db_inv (db\<lparr>t_telemetry := a\<rparr>)"
  "db_inv db \<Longrightarrow> hazards_inv (db\<lparr>t_hazards := b\<rparr>) \<Longrightarrow> db_inv (db\<lparr>t_hazards := b\<rparr>)"
  "db_inv db \<Longrightarrow> commands_inv (db\<lparr>t_commands := c\<rparr>) \<Longrightarrow> db_inv (db\<lparr>t_commands := c\<rparr>)"
  "db_inv db \<Longrightarrow> gates_inv (db\<lparr>t_deliveries := d\<rparr>) \<Longrightarrow> db_inv (db\<lparr>t_deliveries := d\<rparr>)"
  "db_inv db \<Longrightarrow> gates_inv (db\<lparr>t_dead := e\<rparr>) \<Longrightarrow> db_inv (db\<lparr>t_dead := e\<rparr>)"
  by (simp_all add: db_inv_def inv_defs)

lemma telemetry_step_inv:
  assumes "insertTelemetry_sql pg uid t now db = Inr (u, db')" "db_inv db"
  shows "db_inv db'"
proof -
  have "telemetry_inv db" using assms(2) by (simp add: db_inv_def)
  with assms show ?thesis
    by (auto simp: stmt_defs telemetry_inv_def telemetry_checks_def split: option.splits if_splits
        intro!: db_inv_tables)
qed

lemma hazard_step_inv:
  assumes "insertHazard_sql pg e now db = Inr (n, db')" "db_inv db"
  shows "db_inv db'"
proof -
  have "hazards_inv db" using assms(2) by (simp add: db_inv_def)
  with assms show ?thesis
    by (auto simp: stmt_defs hazards_inv_def hazard_key_def split: option.splits if_splits
        intro!: db_inv_tables)
qed

lemma delivery_step_inv:
  assumes "recordDelivery_sql p key now db = Inr (n, db')" "db_inv db"
  shows "db_inv db'"
proof -
  have "gates_inv db" using assms(2) by (simp add: db_inv_def)
  with assms show ?thesis
    by (auto simp: stmt_defs gates_inv_def delivery_key_def split: if_splits intro!: db_inv_tables)
qed

lemma dead_step_inv:
  assumes "insertDeadLetter_sql pg uid src why body now db = Inr (u, db')" "db_inv db"
  shows "db_inv db'"
proof -
  have "gates_inv db" using assms(2) by (simp add: db_inv_def)
  with assms show ?thesis
    by (auto simp: stmt_defs gates_inv_def split: option.splits if_splits intro!: db_inv_tables)
qed

lemma idem_keys_append1:
  "distinct (idem_keys (t @ [c])) \<longleftrightarrow>
     distinct (idem_keys t) \<and> (idem_key c = None \<or> idem_key c \<notin> idem_key ` set t)"
  by (auto simp: idem_keys_def)

lemma commands_inv_append:
  assumes "commands_inv db" "c_ID c \<notin> c_ID ` set (t_commands db)" "c_DeviceID c \<in> device_ids db"
    "idem_key c = None \<or> idem_key c \<notin> idem_key ` set (t_commands db)" "command_wf c"
  shows "commands_inv (db\<lparr>t_commands := t_commands db @ [c]\<rparr>)"
  using assms by (auto simp: commands_inv_def idem_keys_append1)

lemma create_step_inv:
  assumes "insertCommand_sql pg c payload now db = Inr (n, db')" "db_inv db"
  shows "db_inv db'"
  using assms(1)
proof (cases rule: insertCommand_InrE)
  case conflict
  then show ?thesis using assms(2) by simp
next
  case (enqueued u dev doc)
  have "commands_inv db" using assms(2) by (simp add: db_inv_def)
  then have "commands_inv db'"
    unfolding enqueued(5) using enqueued(6-8)
    by (intro commands_inv_append) (auto simp: command_wf_def new_command_row_def)
  then show ?thesis using assms(2) unfolding enqueued(5) by (intro db_inv_tables)
qed

lemma claim_ids_claimable:
  assumes "commands_inv db" "c \<in> set (t_commands db)" "c_ID c \<in> set (claim_ids dev limit now (t_commands db))"
  shows "claimable dev now c"
proof -
  from assms(3) obtain q where q: "q \<in> set (t_commands db)" "claimable dev now q" "c_ID q = c_ID c"
    by (auto simp: claim_ids_def dest!: in_set_takeD)
  with assms(1,2) have "q = c"
    by (auto simp: commands_inv_def dest: distinct_map_eqD)
  with q show ?thesis by simp
qed

lemma transition_sources_iff:
  "transition_sources to = Some from \<Longrightarrow> s \<in> set from \<longleftrightarrow> CanTransition s to"
  by (auto simp: transition_sources_def CanTransition_def split: if_splits)

text \<open>The three updates of a command row are moves of the state machine that keep a row well formed.\<close>

lemma row_moves_wf:
  "command_wf c \<Longrightarrow> CanTransition (c_State c) to \<Longrightarrow> command_wf (transition_row to msg now c)"
  "command_wf c \<Longrightarrow> claimable dev now c \<Longrightarrow> command_wf (claim_row now c)"
  "command_wf c \<Longrightarrow> overdue now c \<Longrightarrow> command_wf (expire_row now c)"
  by (auto simp: command_wf_def transition_row_def claim_row_def claimable_def expire_row_def
      CanTransition_def split: if_splits)

lemma row_moves:
  "claimable dev now c \<Longrightarrow> CanTransition (c_State c) (c_State (claim_row now c))"
  "overdue now c \<Longrightarrow> CanTransition (c_State c) (c_State (expire_row now c))"
  by (auto simp: claimable_def overdue_def)

lemma commands_inv_wfD: "commands_inv db \<Longrightarrow> c \<in> set (t_commands db) \<Longrightarrow> command_wf c"
  by (simp add: commands_inv_def)

text \<open>Every command update of the storage layer has this shape.\<close>

inductive command_update :: "database \<Rightarrow> (Command \<Rightarrow> bool) \<Rightarrow> (Command \<Rightarrow> Command) \<Rightarrow> bool" for db where
  "(\<And>c. c \<in> set (t_commands db) \<Longrightarrow> p c \<Longrightarrow>
      CanTransition (c_State c) (c_State (f c)) \<and> command_wf (f c)) \<Longrightarrow>
   (\<And>c. c_ID (f c) = c_ID c \<and> idem_key (f c) = idem_key c \<and> c_DeviceID (f c) = c_DeviceID c) \<Longrightarrow>
   command_update db p f"

lemma command_update_inv:
  assumes "command_update db p f" "db_inv db"
  shows "db_inv (db\<lparr>t_commands := update_where p f (t_commands db)\<rparr>)"
  using assms(1)
proof cases
  case 1
  have "commands_inv db" using assms(2) by (simp add: db_inv_def)
  then have "commands_inv (db\<lparr>t_commands := update_where p f (t_commands db)\<rparr>)"
    by (rule commands_inv_update) (use 1 in auto)
  then show ?thesis using assms(2) by (intro db_inv_tables)
qed

lemma claim_update:
  assumes "fetchPending_sql pg dev limit now db = Inr (cs, db')" "db_inv db"
  obtains p where "command_update db p (claim_row now)"
    "db' = db\<lparr>t_commands := update_where p (claim_row now) (t_commands db)\<rparr>"
    "cs = map (claim_row now) (filter p (t_commands db))"
proof -
  have inv: "commands_inv db" using assms(2) by (simp add: db_inv_def)
  from assms(1) obtain u where u: "pg_uuid pg dev = Some u"
    and eqs: "cs = map (claim_row now)
        (filter (\<lambda>c. c_ID c \<in> set (claim_ids u limit now (t_commands db))) (t_commands db))"
      "db' = db\<lparr>t_commands := update_where (\<lambda>c. c_ID c \<in> set (claim_ids u limit now (t_commands db)))
        (claim_row now) (t_commands db)\<rparr>"
    by (auto simp: stmt_defs split: option.splits)
  have "command_update db (\<lambda>c. c_ID c \<in> set (claim_ids u limit now (t_commands db))) (claim_row now)"
    using claim_ids_claimable [OF inv, of _ u limit now] commands_inv_wfD [OF inv]
    by (intro command_update.intros) (auto intro: row_moves_wf(2) simp: claimable_def)
  with eqs show ?thesis using that by blast
qed

lemma move_update:
  assumes "transition_sources to = Some from"
    "transition_sql pg uid to msg from now db = Inr (n, db')" "db_inv db"
  obtains p where "command_update db p (transition_row to msg now)"
    "db' = db\<lparr>t_commands := update_where p (transition_row to msg now) (t_commands db)\<rparr>"
proof -
  have inv: "commands_inv db" using assms(3) by (simp add: db_inv_def)
  from assms(2) obtain u where "db' = db\<lparr>t_commands := update_where
      (\<lambda>c. c_ID c = u \<and> c_State c \<in> set from) (transition_row to msg now) (t_commands db)\<rparr>"
    by (auto simp: stmt_defs split: option.splits)
  moreover have "command_update db (\<lambda>c. c_ID c = u \<and> c_State c \<in> set from) (transition_row to msg now)"
    by (rule command_update.intros)
      (auto simp: transition_sources_iff [OF assms(1)] intro: row_moves_wf(1) commands_inv_wfD [OF inv])
  ultimately show ?thesis using that by blast
qed

lemma expire_update:
  assumes "expire_sql now db = Inr (n, db')" "db_inv db"
  shows "command_update db (overdue now) (expire_row now)"
    "db' = db\<lparr>t_commands := update_where (overdue now) (expire_row now) (t_commands db)\<rparr>"
proof -
  have inv: "commands_inv db" using assms(2) by (simp add: db_inv_def)
  show "command_update db (overdue now) (expire_row now)"
    by (rule command_update.intros)
      (use row_moves(2) row_moves_wf(3) commands_inv_wfD [OF inv] in auto)
  show "db' = db\<lparr>t_commands := update_where (overdue now) (expire_row now) (t_commands db)\<rparr>"
    using assms(1) by (auto simp: stmt_defs)
qed

lemma db_step_inv: "db_step db db' \<Longrightarrow> db_inv db \<Longrightarrow> db_inv db'"
proof (induction rule: db_step.induct)
  case (claim pg dev limit now db cs db')
  then show ?case by (auto elim: claim_update intro: command_update_inv)
next
  case (move to "from" pg uid msg now db n db')
  then show ?case by (auto elim: move_update intro: command_update_inv)
next
  case (expire now db n db')
  then show ?case using expire_update command_update_inv by metis
qed (fact upsert_inv touch_inv telemetry_step_inv hazard_step_inv delivery_step_inv dead_step_inv
    create_step_inv)+

lemma db_steps_inv: "db_steps db db' \<Longrightarrow> db_inv db \<Longrightarrow> db_inv db'"
  by (induction rule: rtranclp_induct) (auto intro: db_step_inv)

end
