(* ===== verification/Lifecycle.thy ===== *)
theory Lifecycle
  imports StorageInv
begin

text \<open>
  The abstract lifecycle of commands and the refinement of it by the command table. An
  abstract state gives every known command its lifecycle state; an abstract step makes a new
  command pending, or moves any set of commands along edges of \<open>CanTransition\<close> at once (the
  batch a poll claims, the batch the reaper fails).
\<close>

type_synonym lifecycle_state = "string \<rightharpoonup> CommandState"

inductive life_step :: "lifecycle_state \<Rightarrow> lifecycle_state \<Rightarrow> bool" where
  enqueue: "m k = None \<Longrightarrow> life_step m (m(k \<mapsto> CommandPending))"
| advance: "(\<And>k. m' k = m k \<or> (\<exists>s s'. m k = Some s \<and> m' k = Some s' \<and> CanTransition s s')) \<Longrightarrow>
    life_step m m'"

inductive_cases life_stepE: "life_step m m'"

definition lifecycle :: "database \<Rightarrow> lifecycle_state" where
  "lifecycle db = map_of (map (\<lambda>c. (c_ID c, c_State c)) (t_commands db))"

section \<open>Facts of the abstract machine\<close>

lemma life_step_moves:
  "life_step m m' \<Longrightarrow> m k = Some s \<Longrightarrow> \<exists>s'. m' k = Some s' \<and> CanTransition\<^sup>*\<^sup>* s s'"
  by (erule life_stepE) (auto, metis option.inject rtranclp.rtrancl_refl r_into_rtranclp)

lemma life_steps_moves:
  "life_step\<^sup>*\<^sup>* m m' \<Longrightarrow> m k = Some s \<Longrightarrow> \<exists>s'. m' k = Some s' \<and> CanTransition\<^sup>*\<^sup>* s s'"
proof (induction rule: rtranclp_induct)
  case base
  then show ?case by auto
next
  case (step m1 m2)
  then show ?case using life_step_moves rtranclp_trans by metis
qed

lemma CanTransition_star_rank: "CanTransition\<^sup>*\<^sup>* s s' \<Longrightarrow> state_rank s \<le> state_rank s'"
  by (induction rule: rtranclp_induct) (auto dest: CanTransition_rank)

lemma CanTransition_star_terminal: "CanTransition\<^sup>*\<^sup>* s s' \<Longrightarrow> terminal_state s \<Longrightarrow> s' = s"
  by (induction rule: converse_rtranclp_induct) (auto simp: terminal_state_def)

text \<open>An acknowledged command was delivered: the only way into ACKNOWLEDGED is from DELIVERED.\<close>

lemma life_steps_created:
  "life_step\<^sup>*\<^sup>* m m' \<Longrightarrow> m k = None \<Longrightarrow> m' k = Some s \<Longrightarrow> CanTransition\<^sup>*\<^sup>* CommandPending s"
proof (induction arbitrary: s rule: rtranclp_induct)
  case base
  then show ?case by simp
next
  case (step m1 m2)
  from step.hyps(2) have "m1 k = Some s \<or> m1 k = None \<and> s = CommandPending \<or>
      (\<exists>s'. m1 k = Some s' \<and> CanTransition s' s)"
  proof cases
    case (enqueue j)
    then show ?thesis using step.prems(2) by (auto split: if_splits)
  next
    case advance
    from this [of k] show ?thesis using step.prems(2) by auto
  qed
  with step.IH step.prems(1) show ?case
    by (auto intro: rtranclp.rtrancl_into_rtrancl)
qed

section \<open>The refinement\<close>

lemma lifecycle_find: "lifecycle db k = map_option c_State (List.find (\<lambda>c. c_ID c = k) (t_commands db))"
  by (simp add: lifecycle_def map_of_find)

lemma lifecycle_Some_iff:
  "commands_inv db \<Longrightarrow>
   lifecycle db k = Some s \<longleftrightarrow> (\<exists>c\<in>set (t_commands db). c_ID c = k \<and> c_State c = s)"
  by (auto simp: commands_inv_def lifecycle_find find_unique_key dest!: find_SomeD)

lemma lifecycle_None_iff: "lifecycle db k = None \<longleftrightarrow> k \<notin> c_ID ` set (t_commands db)"
  by (simp add: lifecycle_def map_of_eq_None_iff image_image)

lemma command_update_life:
  assumes "command_update db p f"
  shows "life_step (lifecycle db) (lifecycle (db\<lparr>t_commands := update_where p f (t_commands db)\<rparr>))"
  using assms
proof cases
  case 1
  have "lifecycle (db\<lparr>t_commands := update_where p f (t_commands db)\<rparr>) k =
      map_option (\<lambda>c. c_State (if p c then f c else c)) (List.find (\<lambda>c. c_ID c = k) (t_commands db))" for k
    using 1(2) by (simp add: lifecycle_def map_of_update_where)
  note after = this
  show ?thesis
  proof (rule advance)
    fix k
    show "lifecycle (db\<lparr>t_commands := update_where p f (t_commands db)\<rparr>) k = lifecycle db k \<or>
      (\<exists>s s'. lifecycle db k = Some s \<and>
        lifecycle (db\<lparr>t_commands := update_where p f (t_commands db)\<rparr>) k = Some s' \<and> CanTransition s s')"
      using 1(1) by (cases "List.find (\<lambda>c. c_ID c = k) (t_commands db)")
        (auto simp: after lifecycle_find [of db] dest!: find_SomeD)
  qed
qed

lemma lifecycle_same: "t_commands db' = t_commands db \<Longrightarrow> life_step (lifecycle db) (lifecycle db')"
  by (auto simp: lifecycle_def intro: advance)

lemma create_life:
  assumes "insertCommand_sql pg c payload now db = Inr (n, db')"
  shows "life_step (lifecycle db) (lifecycle db')"
  using assms
proof (cases rule: insertCommand_InrE)
  case conflict
  then show ?thesis by (simp add: lifecycle_same)
next
  case (enqueued u dev doc)
  then have "lifecycle db' = (lifecycle db)(u \<mapsto> CommandPending)"
    unfolding enqueued(5) by (simp add: lifecycle_def map_of_append1 image_image del: map_of_append)
  with enqueued(6) show ?thesis
    by (auto simp: lifecycle_None_iff intro: enqueue)
qed

lemma db_step_life:
  "db_step db db' \<Longrightarrow> db_inv db \<Longrightarrow> life_step (lifecycle db) (lifecycle db')"
proof (induction rule: db_step.induct)
  case (create pg c payload now db n db')
  then show ?case by (auto intro: create_life)
next
  case (claim pg dev limit now db cs db')
  then show ?case by (auto elim: claim_update intro: command_update_life)
next
  case (move to "from" pg uid msg now db n db')
  then show ?case by (auto elim: move_update intro: command_update_life)
next
  case (expire now db n db')
  then show ?case using expire_update command_update_life by metis
qed (auto simp: stmt_defs intro!: lifecycle_same split: option.splits if_splits)

lemma db_steps_life:
  "db_steps db db' \<Longrightarrow> db_inv db \<Longrightarrow> life_step\<^sup>*\<^sup>* (lifecycle db) (lifecycle db')"
proof (induction rule: rtranclp_induct)
  case (step d1 d2)
  then show ?case
    using db_step_life [of d1 d2] db_steps_inv [of db d1] by (auto intro: rtranclp.rtrancl_into_rtrancl)
qed simp

lemma db_steps_moves:
  "db_steps db db' \<Longrightarrow> db_inv db \<Longrightarrow> lifecycle db k = Some s \<Longrightarrow>
   \<exists>s'. lifecycle db' k = Some s' \<and> CanTransition\<^sup>*\<^sup>* s s'"
  using db_steps_life life_steps_moves by blast

end
