(* ===== verification/StorageOps.thy ===== *)
theory StorageOps
  imports Lifecycle
begin

text \<open>
  From statements to the methods of \<^verbatim>\<open>storage.Store\<close>: what one round trip can do under any
  fault script, which part of the world a method touches (\<open>store_effect\<close>), and what each
  answer of a method says about the tables.
\<close>

section \<open>One round trip\<close>

lemma exec_sql_db_only: "db_only w (snd (exec_sql stmt w))"
  by (auto simp: exec_sql_def Let_def environment_defs db_only_def split: fault.splits sum.splits)

lemma exec_sql_Inr:
  "exec_sql stmt w = (Inr a, w') \<Longrightarrow> \<exists>now. stmt now (w_db w) = Inr (a, w_db w')"
  by (auto simp: exec_sql_def Let_def environment_defs split: fault.splits sum.splits)

text \<open>A failed round trip left the tables alone, or its answer was lost after it took effect.\<close>

lemma exec_sql_Inl:
  "exec_sql stmt w = (Inl e, w') \<Longrightarrow>
     w_db w' = w_db w \<and> (\<exists>d. e = Driver d) \<or>
     w_db w' = w_db w \<and> (\<exists>now. stmt now (w_db w) = Inl e) \<or>
     (\<exists>d now a. e = Driver d \<and> stmt now (w_db w) = Inr (a, w_db w'))"
  by (auto simp: exec_sql_def Let_def environment_defs split: fault.splits sum.splits)

lemma exec_sql_db_cases:
  "w_db (snd (exec_sql stmt w)) = w_db w \<or>
   (\<exists>now a. stmt now (w_db w) = Inr (a, w_db (snd (exec_sql stmt w))))"
  by (auto simp: exec_sql_def Let_def environment_defs split: fault.splits sum.splits)

text \<open>Without faults a round trip is its statement, run at the next reading of the database clock.\<close>

definition sql_time :: "world \<Rightarrow> Time" where
  "sql_time w = fst (w_dbclock w) (snd (w_dbclock w))"

definition sql_done :: "world \<Rightarrow> world" where
  "sql_done w = w\<lparr>w_dbclock := snd (draw (w_dbclock w)), w_faults := snd (draw (w_faults w))\<rparr>"

lemma exec_sql_healthy:
  "healthy w \<Longrightarrow> exec_sql stmt w =
     (case stmt (sql_time w) (w_db w) of
        Inl e \<Rightarrow> (Inl e, sql_done w)
      | Inr (a, db') \<Rightarrow> (Inr a, (sql_done w)\<lparr>w_db := db'\<rparr>))"
  by (simp add: exec_sql_def Let_def environment_defs healthy_def sql_time_def sql_done_def
      split: sum.split)

lemma sql_done_simps [simp]:
  "w_db (sql_done w) = w_db w" "w_pg (sql_done w) = w_pg w" "w_metrics (sql_done w) = w_metrics w"
  "w_hub (sql_done w) = w_hub w" "w_clock (sql_done w) = w_clock w" "w_uuids (sql_done w) = w_uuids w"
  "healthy (sql_done w) = healthy w" "healthy (w\<lparr>w_db := d\<rparr>) = healthy w"
  by (simp_all add: sql_done_def healthy_def)

section \<open>Which part of the world a method touches\<close>

definition store_effect :: "world \<Rightarrow> world \<Rightarrow> bool" where
  "store_effect w w' \<longleftrightarrow> db_only w w' \<and> db_steps (w_db w) (w_db w')"

lemma store_effect_refl [simp]: "store_effect w w"
  by (simp add: store_effect_def)

lemma store_effect_trans [trans]:
  "store_effect w w' \<Longrightarrow> store_effect w' w'' \<Longrightarrow> store_effect w w''"
  by (auto simp: store_effect_def intro: db_only_trans)

lemma store_effect_uuid [simp]: "store_effect w (snd (uuidNew w))"
  by (simp add: store_effect_def)

lemma store_effectD:
  assumes "store_effect w w'"
  shows "db_steps (w_db w) (w_db w')" "w_pg w' = w_pg w" "w_metrics w' = w_metrics w"
    "w_hub w' = w_hub w" "w_clock w' = w_clock w" "w_token w' = w_token w" "w_sent w' = w_sent w"
    "healthy w' = healthy w"
  using assms db_onlyD [of w w'] healthy_db_only [of w w'] by (simp_all add: store_effect_def)

lemma store_effect_inv: "store_effect w w' \<Longrightarrow> db_inv (w_db w) \<Longrightarrow> db_inv (w_db w')"
  by (auto simp: store_effect_def intro: db_steps_inv)

lemma exec_sql_effect:
  assumes "\<And>now a db'. stmt now (w_db w) = Inr (a, db') \<Longrightarrow> db_step (w_db w) db' \<or> db' = w_db w"
  shows "store_effect w (snd (exec_sql stmt w))"
  unfolding store_effect_def
proof
  from exec_sql_db_cases [of stmt w]
  show "db_steps (w_db w) (w_db (snd (exec_sql stmt w)))"
  proof
    assume "\<exists>now a. stmt now (w_db w) = Inr (a, w_db (snd (exec_sql stmt w)))"
    then show ?thesis using assms by (metis r_into_rtranclp rtranclp.rtrancl_refl)
  qed simp
qed (rule exec_sql_db_only)

text \<open>A method that draws an identifier first and then runs statements.\<close>

lemma uuid_then_effect:
  "store_effect (snd (uuidNew w)) w' \<Longrightarrow> store_effect w w'"
  by (rule store_effect_trans [OF store_effect_uuid])

lemma uuid_effect_result: "uuidNew w = (uid, w1) \<Longrightarrow> store_effect w w1"
  using store_effect_uuid [of w] by simp

lemma scanRow_snd [simp]: "snd (scanRow r) = snd r"
  by (auto simp: scanRow_def split: prod.split sum.split)

lemma select_step: "select_one p f t db = Inr (a, db') \<Longrightarrow> db' = db"
  by (auto simp: select_one_def split: option.splits)

lemma query_stmts:
  "getDevice_sql pg uid now db = Inr (d, db') \<Longrightarrow> db' = db"
  "findDevice_sql p ext now db = Inr (d, db') \<Longrightarrow> db' = db"
  "listDevices_sql now db = Inr (ds, db') \<Longrightarrow> db' = db"
  "latestTelemetry_sql pg dev now db = Inr (t, db') \<Longrightarrow> db' = db"
  "listRecentEvents_sql limit now db = Inr (es, db') \<Longrightarrow> db' = db"
  "getCommand_sql pg uid now db = Inr (c, db') \<Longrightarrow> db' = db"
  "findByIdemKey_sql pg dev key now db = Inr (c, db') \<Longrightarrow> db' = db"
  by (auto simp: getDevice_sql_def findDevice_sql_def listDevices_sql_def latestTelemetry_sql_def
      listRecentEvents_sql_def getCommand_sql_def findByIdemKey_sql_def with_uuid_def
      split: option.splits list.splits dest: select_step)

text \<open>The queries read only.\<close>

lemma query_effects [steps_intros]:
  "store_effect w (snd (GetDevice uid w))"
  "store_effect w (snd (FindDeviceByExternalID p ext w))"
  "store_effect w (snd (ListDevices w))"
  "store_effect w (snd (LatestTelemetry dev w))"
  "store_effect w (snd (ListRecentEvents limit w))"
  "store_effect w (snd (GetCommand uid w))"
  "store_effect w (snd (findCommandByIdemKey dev key w))"
  unfolding GetDevice_def FindDeviceByExternalID_def ListDevices_def LatestTelemetry_def
    ListRecentEvents_def GetCommand_def findCommandByIdemKey_def scanRow_snd
  by (rule exec_sql_effect; blast dest: query_stmts)+

text \<open>Every writing statement, run through the driver.\<close>

lemma write_effects [steps_intros]:
  "store_effect w (snd (exec_sql (upsertDevice_sql pg uid d) w))"
  "store_effect w (snd (exec_sql (touchDevice_sql pg uid st seen) w))"
  "store_effect w (snd (exec_sql (insertTelemetry_sql pg uid t) w))"
  "store_effect w (snd (exec_sql (insertHazard_sql pg e) w))"
  "store_effect w (snd (exec_sql (recordDelivery_sql p key) w))"
  "store_effect w (snd (exec_sql (insertDeadLetter_sql pg uid src why body) w))"
  "store_effect w (snd (exec_sql (insertCommand_sql pg c doc) w))"
  "store_effect w (snd (exec_sql (fetchPending_sql pg dev limit) w))"
  "store_effect w (snd (exec_sql expire_sql w))"
  "transition_sources to = Some from \<Longrightarrow>
     store_effect w (snd (exec_sql (transition_sql pg uid to msg from) w))"
  by (rule exec_sql_effect; blast intro: db_step.intros)+

lemma effect_result: "op w = (r, w') \<Longrightarrow> store_effect w (snd (op w)) \<Longrightarrow> store_effect w w'"
  by simp

lemma UpsertDevice_effect [steps_intros]: "store_effect w (snd (UpsertDevice d w))"
proof -
  obtain uid w1 where u: "uuidNew w = (uid, w1)" by fastforce
  have "snd (UpsertDevice d w) = snd (exec_sql (upsertDevice_sql (w_pg w1) uid d) w1)"
    by (simp add: UpsertDevice_def u split: prod.split sum.split)
  moreover have "store_effect w w1" using store_effect_uuid [of w] u by simp
  ultimately show ?thesis by (metis store_effect_trans write_effects(1))
qed

lemma TouchDevice_effect [steps_intros]: "store_effect w (snd (TouchDevice dev st seen w))"
  by (simp add: TouchDevice_def write_effects)

lemma InsertTelemetry_effect [steps_intros]: "store_effect w (snd (InsertTelemetry t w))"
  by (auto simp: InsertTelemetry_def write_effects split: prod.split
      intro: uuid_then_effect)

lemma with_id_effect:
  "withEventID e w = (e1, w1) \<Longrightarrow> store_effect w w1"
  "withCommandID c w = (c1, w1) \<Longrightarrow> store_effect w w1"
  by (auto simp: withEventID_def withCommandID_def split: if_splits prod.splits
      dest: uuid_effect_result)

lemma InsertHazardEvent_effect [steps_intros]: "store_effect w (snd (InsertHazardEvent e w))"
proof -
  obtain e1 w1 where u: "withEventID e w = (e1, w1)" by fastforce
  have "snd (InsertHazardEvent e w) = snd (exec_sql (insertHazard_sql (w_pg w1) e1) w1)"
    by (simp add: InsertHazardEvent_def u split: prod.split sum.split)
  with with_id_effect(1) [OF u] show ?thesis by (metis store_effect_trans write_effects(4))
qed

lemma RecordWebhookDelivery_effect [steps_intros]:
  "store_effect w (snd (RecordWebhookDelivery p key w))"
proof -
  have "snd (RecordWebhookDelivery p key w) = snd (exec_sql (recordDelivery_sql p key) w)"
    by (simp add: RecordWebhookDelivery_def split: prod.split sum.split)
  then show ?thesis by (simp add: write_effects)
qed

lemma InsertDeadLetter_effect [steps_intros]:
  "store_effect w (snd (InsertDeadLetter src why body w))"
  by (auto simp: InsertDeadLetter_def Let_def write_effects split: prod.split intro: uuid_then_effect)

lemma afterInsertCommand_effect: "store_effect w (snd (afterInsertCommand c r w))"
  using query_effects(6) [of w "c_ID c"]
    query_effects(7) [of w "c_DeviceID c" "c_IdempotencyKey c"]
  by (auto simp: afterInsertCommand_def split: sum.split prod.split)

lemma CreateCommand_effect [steps_intros]: "store_effect w (snd (CreateCommand c w))"
proof -
  obtain c1 w1 where u: "withCommandID c w = (c1, w1)" by fastforce
  define c2 where "c2 = c1\<lparr>c_State := CommandPending\<rparr>"
  obtain r w2 where x: "exec_sql (insertCommand_sql (w_pg w1) c2 (create_payload c2)) w1 = (r, w2)" by fastforce
  have "store_effect w w1" by (rule with_id_effect(2) [OF u])
  also have "store_effect w1 w2"
    using write_effects(7) [of w1 "w_pg w1" c2 "create_payload c2"] x by simp
  also have "store_effect w2 (snd (afterInsertCommand c2 r w2))"
    by (rule afterInsertCommand_effect)
  also have "afterInsertCommand c2 r w2 = CreateCommand c w"
    unfolding CreateCommand_def u Let_def prod.case c2_def [symmetric] x ..
  finally show ?thesis .
qed

lemma FetchPendingCommands_effect [steps_intros]:
  "store_effect w (snd (FetchPendingCommands dev limit w))"
  by (simp add: FetchPendingCommands_def write_effects)

lemma TransitionCommand_effect [steps_intros]:
  "store_effect w (snd (TransitionCommand uid to msg w))"
proof (cases "transition_sources to")
  case None
  then show ?thesis by (simp add: TransitionCommand_def)
next
  case (Some "from")
  obtain r w1 where x: "exec_sql (transition_sql (w_pg w) uid to msg from) w = (r, w1)" by fastforce
  have "store_effect w w1"
    using write_effects(10) [OF Some, of w "w_pg w" uid msg] x by simp
  also have "store_effect w1 (snd (TransitionCommand uid to msg w))"
    using query_effects(6) [of w1 uid]
    by (auto simp: TransitionCommand_def Some x split: prod.splits sum.splits)
  finally show ?thesis .
qed

lemma ExpireCommands_effect [steps_intros]: "store_effect w (snd (ExpireCommands w))"
  by (simp add: ExpireCommands_def write_effects)

end
