(* ===== verification/Gates.thy ===== *)
theory Gates
  imports StorageOps
begin

text \<open>
  The idempotency gates of the storage layer. A gate is an \<^verbatim>\<open>INSERT ... ON CONFLICT DO NOTHING\<close>
  that reports the rows it wrote: the locale \<open>insert_gate\<close> states what its clients rely on, and
  the three gates of the schema (hazard events, webhook deliveries, command idempotency keys)
  are its interpretations.
\<close>

section \<open>The contract of a gate\<close>

locale insert_gate =
  fixes ins :: "'r \<Rightarrow> 'd \<Rightarrow> error + nat \<times> 'd"
    and key :: "'r \<Rightarrow> 'k option"
    and keys :: "'d \<Rightarrow> 'k set"
  assumes known: "key r = Some k \<Longrightarrow> k \<in> keys d \<Longrightarrow> ins r d = Inr (n, d') \<Longrightarrow> n = 0 \<and> d' = d"
    and fresh: "key r = Some k \<Longrightarrow> k \<notin> keys d \<Longrightarrow> ins r d = Inr (n, d') \<Longrightarrow>
      n = 1 \<and> keys d' = insert k (keys d)"
begin

lemma admitted: "ins r d = Inr (n, d') \<Longrightarrow> n \<noteq> 0 \<Longrightarrow> key r = Some k \<Longrightarrow> k \<notin> keys d \<and> k \<in> keys d'"
  using known [of r k d n d'] fresh [of r k d n d'] by (cases "k \<in> keys d") simp_all

lemma refused: "ins r d = Inr (0, d') \<Longrightarrow> key r = Some k \<Longrightarrow> k \<in> keys d \<and> d' = d"
  using known [of r k d 0 d'] fresh [of r k d 0 d'] by (cases "k \<in> keys d") simp_all

lemma holds_key: "ins r d = Inr (n, d') \<Longrightarrow> key r = Some k \<Longrightarrow> k \<in> keys d'"
  using known [of r k d n d'] fresh [of r k d n d'] by (cases "k \<in> keys d") simp_all

end

text \<open>A gate in a store that other writers use as well, none of which forgets a key.\<close>

locale shared_gate = insert_gate ins key keys
  for ins :: "'r \<Rightarrow> 'd \<Rightarrow> error + nat \<times> 'd" and key :: "'r \<Rightarrow> 'k option" and keys :: "'d \<Rightarrow> 'k set" +
  fixes step :: "'d \<Rightarrow> 'd \<Rightarrow> bool"
  assumes step_keeps: "step d d' \<Longrightarrow> keys d \<subseteq> keys d'"
begin

lemma steps_keep: "step\<^sup>*\<^sup>* d d' \<Longrightarrow> keys d \<subseteq> keys d'"
  by (induction rule: rtranclp_induct) (auto dest: step_keeps)

text \<open>Once the gate has answered for a key, no later attempt with that key is admitted.\<close>

lemma once:
  assumes "ins r d = Inr (n, d1)" "key r = Some k" "step\<^sup>*\<^sup>* d1 d2"
    "ins r' d2 = Inr (n', d3)" "key r' = Some k"
  shows "n' = 0 \<and> d3 = d2"
proof (rule known [OF assms(5) _ assms(4)])
  show "k \<in> keys d2" using holds_key [OF assms(1,2)] steps_keep [OF assms(3)] by (rule rev_subsetD)
qed

end

section \<open>No statement forgets a key\<close>

definition hazard_keys :: "database \<Rightarrow> (ProviderName \<times> string) set" where
  "hazard_keys db = hazard_key ` set (t_hazards db)"

definition delivery_keys :: "database \<Rightarrow> (ProviderName \<times> string) set" where
  "delivery_keys db = delivery_key ` set (t_deliveries db)"

definition command_keys :: "database \<Rightarrow> (string \<times> string) set" where
  "command_keys db = {k. Some k \<in> idem_key ` set (t_commands db)}"

lemmas gate_keys_defs = hazard_keys_def delivery_keys_def command_keys_def

lemma update_where_image:
  "(\<And>r. k (f r) = k r) \<Longrightarrow> k ` set (update_where p f t) = k ` set t"
  by (metis list.set_map map_update_where)

lemma db_step_hazard_keys: "db_step db db' \<Longrightarrow> hazard_keys db \<subseteq> hazard_keys db'"
  by (induction rule: db_step.induct)
    (auto simp: stmt_defs hazard_keys_def hazard_key_def split: option.splits if_splits)

lemma db_step_delivery_keys: "db_step db db' \<Longrightarrow> delivery_keys db \<subseteq> delivery_keys db'"
  by (induction rule: db_step.induct)
    (auto simp: stmt_defs delivery_keys_def split: option.splits if_splits)

lemma db_step_command_keys: "db_step db db' \<Longrightarrow> command_keys db \<subseteq> command_keys db'"
proof (induction rule: db_step.induct)
  case (create pg c payload now db n db')
  then show ?case by (auto simp: command_keys_def elim!: insertCommand_InrE)
next
  case (claim pg dev limit now db cs db')
  then show ?case
    by (auto simp: fetchPending_sql_def with_uuid_def Let_def command_keys_def update_where_image
        split: option.splits)
next
  case (move to "from" pg uid msg now db n db')
  then show ?case
    by (auto simp: transition_sql_def with_uuid_def Let_def command_keys_def update_where_image
        split: option.splits)
next
  case (expire now db n db')
  then show ?case by (auto simp: expire_sql_def command_keys_def update_where_image)
qed (auto simp: stmt_defs command_keys_def split: option.splits if_splits)

section \<open>The three gates\<close>

definition hazard_gate :: "pg_params \<Rightarrow> HazardEvent \<times> Time \<Rightarrow> database \<Rightarrow> error + nat \<times> database" where
  "hazard_gate pg r = insertHazard_sql pg (fst r) (snd r)"

definition delivery_gate :: "(ProviderName \<times> string) \<times> Time \<Rightarrow> database \<Rightarrow> error + nat \<times> database" where
  "delivery_gate r = recordDelivery_sql (fst (fst r)) (snd (fst r)) (snd r)"

definition command_gate :: "pg_params \<Rightarrow> (Command \<times> string) \<times> Time \<Rightarrow> database \<Rightarrow> error + nat \<times> database" where
  "command_gate pg r = insertCommand_sql pg (fst (fst r)) (snd (fst r)) (snd r)"

definition command_gate_key :: "pg_params \<Rightarrow> (Command \<times> string) \<times> Time \<Rightarrow> (string \<times> string) option" where
  "command_gate_key pg r =
     (let c = fst (fst r)
      in if c_IdempotencyKey c = [] then None
         else map_option (\<lambda>dev. (dev, c_IdempotencyKey c)) (pg_uuid pg (c_DeviceID c)))"

lemma hazard_gate_cases:
  assumes "insertHazard_sql pg e now db = Inr (n, db')"
  obtains (conflict) "n = 0" "db' = db" "hazard_key e \<in> hazard_keys db"
  | (stored) r where "n = 1" "db' = db\<lparr>t_hazards := t_hazards db @ [r]\<rparr>"
      "hazard_key r = hazard_key e" "hazard_key e \<notin> hazard_keys db"
      "e_Type r = e_Type e" "e_Confidence r = e_Confidence e"
  using assms by (auto simp: insertHazard_sql_def with_uuid_def hazard_keys_def hazard_key_def
      split: option.splits if_splits)

interpretation hazards: shared_gate "hazard_gate pg" "\<lambda>r. Some (hazard_key (fst r))" hazard_keys db_step
  for pg
proof unfold_locales
  show "db_step d d' \<Longrightarrow> hazard_keys d \<subseteq> hazard_keys d'" for d d'
    by (rule db_step_hazard_keys)
qed (auto simp: hazard_gate_def elim!: hazard_gate_cases, auto simp: hazard_keys_def)

interpretation deliveries: shared_gate delivery_gate "\<lambda>r. Some (fst r)" delivery_keys db_step
proof unfold_locales
  show "db_step d d' \<Longrightarrow> delivery_keys d \<subseteq> delivery_keys d'" for d d'
    by (rule db_step_delivery_keys)
qed (auto simp: delivery_gate_def recordDelivery_sql_def delivery_keys_def delivery_key_def
    split: if_splits)

lemma command_gate_known:
  assumes "command_gate_key pg r = Some k" "k \<in> command_keys d" "command_gate pg r d = Inr (n, d')"
  shows "n = 0 \<and> d' = d"
  using assms(3) unfolding command_gate_def
proof (cases rule: insertCommand_InrE)
  case (enqueued u dev doc)
  with assms(1,2) show ?thesis
    by (auto simp: command_gate_key_def Let_def command_keys_def idem_key_def new_command_row_def
        split: if_splits)
qed simp

lemma command_gate_fresh:
  assumes "command_gate_key pg r = Some k" "k \<notin> command_keys d" "command_gate pg r d = Inr (n, d')"
  shows "n = 1 \<and> command_keys d' = insert k (command_keys d)"
  using assms(3) unfolding command_gate_def
proof (cases rule: insertCommand_InrE)
  case (conflict u dev doc)
  with assms(1,2) show ?thesis
    by (auto simp: command_gate_key_def Let_def command_keys_def idem_key_def new_command_row_def
        split: if_splits)
next
  case (enqueued u dev doc)
  with assms(1) show ?thesis
    by (auto simp: command_gate_key_def Let_def command_keys_def idem_key_def new_command_row_def
        split: if_splits)
qed

interpretation commands: shared_gate "command_gate pg" "command_gate_key pg" command_keys db_step for pg
  by unfold_locales (fact command_gate_known command_gate_fresh db_step_command_keys)+

end
