(* ===== verification/Demo.thy ===== *)
theory Demo
  imports StorageOps
begin

text \<open>
  Concrete worlds for the examples of the other theories: a PostgreSQL that keeps instants
  and accepts every nonempty identifier and every document, clocks that stand still, fresh
  identifiers \<open>u\<close>, \<open>uu\<close>, \<open>uuu\<close> and so on, a fault script, and a database with one registered
  device and the commands given.
\<close>

definition demo_pg :: pg_params where
  "demo_pg = \<lparr>pg_time = (\<lambda>t. t), pg_uuid = (\<lambda>s. if s = [] then None else Some s),
     pg_jsonb = (\<lambda>s. Some s)\<rparr>"

definition demo_uuid :: "nat \<Rightarrow> string" where
  "demo_uuid n = replicate (Suc n) CHR ''u''"

definition demo_device :: device_row where
  "demo_device = \<lparr>dv_id = ''d1'', dv_provider = ProviderGuardianEdge, dv_external_id = ''x1'',
     dv_name = ''Hall'', dv_status = DeviceOnline, dv_app_version = ''1.0'',
     dv_last_seen_at = Some 50, dv_created_at = 10, dv_updated_at = 50\<rparr>"

definition demo_db :: "Command list \<Rightarrow> database" where
  "demo_db cs = empty_database\<lparr>t_devices := [demo_device], t_commands := cs\<rparr>"

definition demo_world :: "(nat \<Rightarrow> fault) \<Rightarrow> database \<Rightarrow> world" where
  "demo_world faults db =
     \<lparr>w_clock = (\<lambda>_. 1000, 0), w_dbclock = (\<lambda>_. 1000, 0), w_uuids = (demo_uuid, 0),
      w_faults = (faults, 0), w_ctx = (\<lambda>_. None, 0), w_rand = (\<lambda>_. 0, 0),
      w_net = (\<lambda>_ _. Inl (DrvOther ''no route''), 0), w_sent = [], w_pg = demo_pg, w_db = db,
      w_metrics = (\<lambda>_. 0), w_hub = \<lparr>h_chans = [], h_subs = [], h_panic = False\<rparr>,
      w_token = zeroToken\<rparr>"

abbreviation calm :: "database \<Rightarrow> world" where
  "calm db \<equiv> demo_world (\<lambda>_. NoFault) db"

definition demo_command :: "string \<Rightarrow> CommandState \<Rightarrow> Command" where
  "demo_command uid st = \<lparr>c_ID = uid, c_DeviceID = ''d1'', c_Type = CommandGetStatus, c_Payload = ''{}'',
     c_IdempotencyKey = uid, c_State = st, c_ResultMessage = Str [], c_CreatedAt = 100,
     c_DeliveredAt = (if st = CommandPending then None else Some 200),
     c_CompletedAt = (if terminal_state st then Some 300 else None), c_ExpiresAt = 5000\<rparr>"

definition demo_event :: "string \<Rightarrow> HazardEvent" where
  "demo_event key = \<lparr>e_ID = [], e_DedupKey = key, e_DeviceID = ''d1'', e_Source = ProviderGuardianEdge,
     e_Type = HazardFire, e_Confidence = 1 / 2, e_FirstSeenAt = 400, e_ConfirmedAt = 500,
     e_ReceivedAt = 600\<rparr>"

lemmas demo_defs = demo_world_def demo_db_def demo_pg_def demo_uuid_def demo_device_def
  demo_command_def demo_event_def empty_database_def

lemmas run_defs = exec_sql_def environment_defs Let_def with_uuid_def

lemmas poll_run_defs = FetchPendingCommands_def fetchPending_sql_def clamp_poll_limit_def
  claim_ids_def claimable_def run_defs

lemmas create_run_defs = CreateCommand_def withCommandID_def insertCommand_sql_def idem_key_def
  create_payload_def afterInsertCommand_def GetCommand_def getCommand_sql_def scanRow_def
  select_one_def new_command_row_def run_defs

lemma demo_healthy [simp]: "healthy (calm db)"
  by (simp add: healthy_def demo_world_def)

lemma demo_world_simps [simp]:
  "w_db (demo_world f db) = db" "w_pg (demo_world f db) = demo_pg"
  "w_metrics (demo_world f db) = (\<lambda>_. 0)" "w_token (demo_world f db) = zeroToken"
  "w_hub (demo_world f db) = \<lparr>h_chans = [], h_subs = [], h_panic = False\<rparr>"
  by (simp_all add: demo_world_def)

lemma demo_db_simps [simp]:
  "t_commands (demo_db cs) = cs" "t_devices (demo_db cs) = [demo_device]" "t_hazards (demo_db cs) = []"
  "t_telemetry (demo_db cs) = []" "t_deliveries (demo_db cs) = []" "t_dead (demo_db cs) = []"
  by (simp_all add: demo_db_def empty_database_def)

lemma demo_pg_simps [simp]:
  "pg_time demo_pg t = t" "pg_uuid demo_pg s = (if s = [] then None else Some s)"
  "pg_jsonb demo_pg s = Some s"
  by (simp_all add: demo_pg_def)

lemma demo_command_simps [simp]:
  "c_ID (demo_command uid st) = uid" "c_DeviceID (demo_command uid st) = ''d1''"
  "c_State (demo_command uid st) = st" "c_IdempotencyKey (demo_command uid st) = uid"
  "c_Type (demo_command uid st) = CommandGetStatus" "c_ExpiresAt (demo_command uid st) = 5000"
  by (simp_all add: demo_command_def)

lemma demo_inv_commands:
  "distinct (map c_ID cs) \<Longrightarrow> distinct (idem_keys cs) \<Longrightarrow>
   (\<And>c. c \<in> set cs \<Longrightarrow> c_DeviceID c = ''d1'' \<and> command_wf c) \<Longrightarrow> db_inv (demo_db cs)"
  by (auto simp: db_inv_def inv_defs idem_keys_def device_ids_def demo_device_def)

lemma demo_inv [simp]: "db_inv (demo_db [])" "db_inv (demo_db [demo_command ''c1'' CommandPending])"
  by (auto intro!: demo_inv_commands
      simp: idem_keys_def demo_command_def command_wf_def terminal_state_def idem_key_def)

end
