(* ===== verification/StorageContracts.thy ===== *)
theory StorageContracts
  imports Gates Demo
begin

text \<open>
  What the answers of \<^verbatim>\<open>storage.Store\<close>'s methods mean: facts that hold under every fault script
  (an event, a delivery or a command key is admitted once, a command is handed to one poll
  only), and the exact result of each method in a run without driver faults.
\<close>

section \<open>Errors of a statement are not sentinels of the program\<close>

lemma exec_sql_error_is:
  assumes "exec_sql stmt w = (Inl e, w')" "errIs e s" "s \<noteq> Canceled" "s \<noteq> DeadlineExceeded"
  shows "\<exists>now. stmt now (w_db w) = Inl e"
  using exec_sql_Inl [OF assms(1)] assms(2-4) by auto

lemma write_errors_not_sentinel:
  "insertHazard_sql pg e now db = Inl err \<Longrightarrow> \<not> errIs err s"
  "recordDelivery_sql p key now db = Inl err \<Longrightarrow> \<not> errIs err s"
  "upsertDevice_sql pg uid d now db = Inl err \<Longrightarrow> \<not> errIs err s"
  "insertCommand_sql pg c doc now db = Inl err \<Longrightarrow> \<not> errIs err s"
  "transition_sql pg uid to msg from now db = Inl err \<Longrightarrow> \<not> errIs err s"
  "fetchPending_sql pg dev limit now db = Inl err \<Longrightarrow> \<not> errIs err s"
  by (auto simp: stmt_defs pg_errors split: option.splits if_splits)

section \<open>Admission\<close>

lemma withEventID_simps:
  assumes "withEventID e w = (e1, w1)"
  shows "hazard_key e1 = hazard_key e" "w_db w1 = w_db w" "w_pg w1 = w_pg w"
    "e1 = e\<lparr>e_ID := e_ID e1\<rparr>" "e_ID e \<noteq> [] \<Longrightarrow> e1 = e"
  using assms by (auto simp: withEventID_def hazard_key_def uuidNew_def split: if_splits)

lemma withCommandID_simps:
  assumes "withCommandID c w = (c1, w1)"
  shows "w_db w1 = w_db w" "w_pg w1 = w_pg w" "c1 = c\<lparr>c_ID := c_ID c1\<rparr>" "c_ID c \<noteq> [] \<Longrightarrow> c1 = c"
  using assms by (auto simp: withCommandID_def uuidNew_def split: if_splits)

lemma InsertHazardEvent_Inr:
  assumes "InsertHazardEvent e w = (Inr a, w')"
  obtains now db' where "hazard_gate (w_pg w) (a, now) (w_db w) = Inr (Suc 0, db')" "w_db w' = db'"
    "hazard_key a = hazard_key e" "a = e\<lparr>e_ID := e_ID a\<rparr>"
proof -
  obtain e1 w1 where u: "withEventID e w = (e1, w1)" by fastforce
  note s = withEventID_simps [OF u]
  obtain n where n: "exec_sql (insertHazard_sql (w_pg w1) e1) w1 = (Inr n, w')" "n \<noteq> 0" "a = e1"
    using assms by (auto simp: InsertHazardEvent_def u split: prod.splits sum.splits if_splits)
  from exec_sql_Inr [OF n(1)] obtain now where
    x: "insertHazard_sql (w_pg w) a now (w_db w) = Inr (n, w_db w')"
    using s n(3) by auto
  moreover from x have "n = Suc 0" using n(2) by (cases rule: hazard_gate_cases) auto
  ultimately show ?thesis using that s n(3) by (auto simp: hazard_gate_def)
qed

lemma InsertHazardEvent_duplicate:
  assumes "InsertHazardEvent e w = (Inl err, w')" "errIs err ErrDuplicate"
  shows "err = Sentinel ErrDuplicate \<and> hazard_key e \<in> hazard_keys (w_db w) \<and> w_db w' = w_db w"
proof -
  obtain e1 w1 where u: "withEventID e w = (e1, w1)" by fastforce
  note s = withEventID_simps [OF u]
  obtain r where r: "exec_sql (insertHazard_sql (w_pg w1) e1) w1 = (r, w')"
    and err: "\<And>e0. r = Inl e0 \<Longrightarrow> errIs e0 ErrDuplicate" "\<And>n. r = Inr n \<Longrightarrow> n = 0 \<and> err = Sentinel ErrDuplicate"
    using assms by (auto simp: InsertHazardEvent_def u split: prod.splits sum.splits if_splits)
  show ?thesis
  proof (cases r)
    case (Inl e0)
    with r err(1) have "\<exists>now. insertHazard_sql (w_pg w1) e1 now (w_db w1) = Inl e0"
      by (intro exec_sql_error_is) auto
    with err(1) Inl show ?thesis using write_errors_not_sentinel(1) by blast
  next
    case (Inr n)
    from err(2) [OF Inr] r Inr have "exec_sql (insertHazard_sql (w_pg w1) e1) w1 = (Inr 0, w')" by simp
    from exec_sql_Inr [OF this] obtain now
      where "insertHazard_sql (w_pg w) e1 now (w_db w) = Inr (0, w_db w')"
      using s(2,3) by auto
    then have "hazard_key e \<in> hazard_keys (w_db w) \<and> w_db w' = w_db w"
      by (cases rule: hazard_gate_cases) (simp_all add: s(1))
    then show ?thesis using err(2) [OF Inr] by simp
  qed
qed

text \<open>A hazard event is stored once. After a call of InsertHazardEvent has stored an event
  under a source and dedup key, no later call with that key stores one, whatever any number of
  concurrent statements did in between and whichever statements failed in the driver.\<close>

theorem event_stored_once:
  assumes "InsertHazardEvent e w = (Inr a, w1)" "db_steps (w_db w1) (w_db w2)"
    "e_Source e' = e_Source e" "e_DedupKey e' = e_DedupKey e"
  shows "\<exists>err. fst (InsertHazardEvent e' w2) = Inl err"
proof (rule ccontr)
  assume "\<nexists>err. fst (InsertHazardEvent e' w2) = Inl err"
  then obtain b w3 where "InsertHazardEvent e' w2 = (Inr b, w3)"
    by (metis old.sum.exhaust prod.collapse)
  then obtain now' where second: "hazard_gate (w_pg w2) (b, now') (w_db w2) = Inr (Suc 0, w_db w3)"
      "hazard_key b = hazard_key e'" by (rule InsertHazardEvent_Inr) auto
  from assms(1) obtain now where first: "hazard_gate (w_pg w) (a, now) (w_db w) = Inr (Suc 0, w_db w1)"
      "hazard_key a = hazard_key e" by (rule InsertHazardEvent_Inr) auto
  have "hazard_key e \<in> hazard_keys (w_db w2)"
    using hazards.holds_key [OF first(1)] hazards.steps_keep [OF assms(2)] first(2) by auto
  then show False
    using hazards.admitted [OF second(1)] second(2) assms(3,4) by (auto simp: hazard_key_def)
qed

lemma event_stored_once_witness:
  "let w1 = snd (InsertHazardEvent (demo_event ''k'') (calm (demo_db [])))
   in \<exists>err. fst (InsertHazardEvent ((demo_event ''k'')\<lparr>e_Type := HazardSmoke\<rparr>) w1) = Inl err"
  unfolding Let_def
proof (rule event_stored_once)
  show "InsertHazardEvent (demo_event ''k'') (calm (demo_db [])) =
      (Inr ((demo_event ''k'')\<lparr>e_ID := ''u''\<rparr>),
       snd (InsertHazardEvent (demo_event ''k'') (calm (demo_db []))))"
    by (simp add: InsertHazardEvent_def withEventID_def run_defs insertHazard_sql_def demo_defs
        device_ids_def)
qed (simp_all add: demo_event_def)

lemma RecordWebhookDelivery_Inr:
  assumes "RecordWebhookDelivery p key w = (Inr u, w')"
  obtains now where "delivery_gate ((p, key), now) (w_db w) = Inr (Suc 0, w_db w')"
proof -
  obtain n where n: "exec_sql (recordDelivery_sql p key) w = (Inr n, w')" "n \<noteq> 0"
    using assms by (auto simp: RecordWebhookDelivery_def split: prod.splits sum.splits if_splits)
  from exec_sql_Inr [OF n(1)] obtain now where
    "recordDelivery_sql p key now (w_db w) = Inr (n, w_db w')" by auto
  with n(2) that show ?thesis
    by (auto simp: delivery_gate_def recordDelivery_sql_def split: if_splits)
qed

lemma RecordWebhookDelivery_duplicate:
  assumes "RecordWebhookDelivery p key w = (Inl err, w')" "errIs err ErrDuplicate"
  shows "err = Sentinel ErrDuplicate \<and> (p, key) \<in> delivery_keys (w_db w) \<and> w_db w' = w_db w"
proof (cases "exec_sql (recordDelivery_sql p key) w")
  case (Pair r w1)
  show ?thesis
  proof (cases r)
    case (Inl e0)
    with Pair assms have "e0 = err" by (simp add: RecordWebhookDelivery_def)
    with exec_sql_error_is [of "recordDelivery_sql p key" w e0 w1 ErrDuplicate] Inl Pair assms(2)
    show ?thesis using write_errors_not_sentinel(2) by (metis sentinel.simps)
  next
    case (Inr n)
    with Pair assms have n: "n = 0" "w1 = w'" "err = Sentinel ErrDuplicate"
      by (auto simp: RecordWebhookDelivery_def split: if_splits)
    with Pair Inr obtain now where "recordDelivery_sql p key now (w_db w) = Inr (0, w_db w')"
      using exec_sql_Inr [of "recordDelivery_sql p key" w n w'] by auto
    with n show ?thesis by (auto simp: recordDelivery_sql_def delivery_keys_def split: if_splits)
  qed
qed

text \<open>A webhook delivery is admitted once. After RecordWebhookDelivery has accepted a delivery
  identifier of a provider, every later call with it is refused, under any interleaving and any
  driver faults.\<close>

theorem delivery_admitted_once:
  assumes "RecordWebhookDelivery p key w = (Inr (), w1)" "db_steps (w_db w1) (w_db w2)"
  shows "\<exists>err. fst (RecordWebhookDelivery p key w2) = Inl err"
proof (rule ccontr)
  assume "\<nexists>err. fst (RecordWebhookDelivery p key w2) = Inl err"
  then obtain w3 where "RecordWebhookDelivery p key w2 = (Inr (), w3)"
    by (metis old.sum.exhaust old.unit.exhaust prod.collapse)
  then obtain now' where second: "delivery_gate ((p, key), now') (w_db w2) = Inr (Suc 0, w_db w3)"
    by (rule RecordWebhookDelivery_Inr)
  from assms(1) obtain now where first: "delivery_gate ((p, key), now) (w_db w) = Inr (Suc 0, w_db w1)"
    by (rule RecordWebhookDelivery_Inr)
  show False using deliveries.once [OF first _ assms(2) second] by simp
qed

lemma delivery_admitted_once_witness:
  "let w1 = snd (RecordWebhookDelivery ProviderBetaGrid ''d-1'' (calm (demo_db [])))
   in \<exists>err. fst (RecordWebhookDelivery ProviderBetaGrid ''d-1'' w1) = Inl err"
  unfolding Let_def
proof (rule delivery_admitted_once)
  show "RecordWebhookDelivery ProviderBetaGrid ''d-1'' (calm (demo_db [])) =
      (Inr (), snd (RecordWebhookDelivery ProviderBetaGrid ''d-1'' (calm (demo_db []))))"
    by (simp add: RecordWebhookDelivery_def run_defs recordDelivery_sql_def demo_defs)
qed simp

section \<open>Commands\<close>

lemma FetchPendingCommands_Inr:
  assumes "FetchPendingCommands dev limit w = (Inr cs, w')" "db_inv (w_db w)"
  obtains u now where "pg_uuid (w_pg w) dev = Some u"
    "cs = map (claim_row now) (filter (\<lambda>c. c_ID c \<in> set (claim_ids u (clamp_poll_limit limit) now
            (t_commands (w_db w)))) (t_commands (w_db w)))"
    "t_commands (w_db w') = update_where (\<lambda>c. c_ID c \<in> set (claim_ids u (clamp_poll_limit limit) now
            (t_commands (w_db w)))) (claim_row now) (t_commands (w_db w))"
    "\<And>c. c \<in> set (t_commands (w_db w)) \<Longrightarrow> c_ID c \<in> set (claim_ids u (clamp_poll_limit limit) now
            (t_commands (w_db w))) \<Longrightarrow> claimable u now c"
proof -
  have inv: "commands_inv (w_db w)" using assms(2) by (simp add: db_inv_def)
  from exec_sql_Inr [OF assms(1) [unfolded FetchPendingCommands_def]] obtain now where
    "fetchPending_sql (w_pg w) dev (clamp_poll_limit limit) now (w_db w) = Inr (cs, w_db w')"
    by blast
  then obtain u where u: "pg_uuid (w_pg w) dev = Some u"
    "cs = map (claim_row now) (filter (\<lambda>c. c_ID c \<in> set (claim_ids u (clamp_poll_limit limit) now
            (t_commands (w_db w)))) (t_commands (w_db w)))"
    "w_db w' = (w_db w)\<lparr>t_commands := update_where (\<lambda>c. c_ID c \<in> set (claim_ids u
            (clamp_poll_limit limit) now (t_commands (w_db w)))) (claim_row now) (t_commands (w_db w))\<rparr>"
    by (auto simp: fetchPending_sql_def with_uuid_def Let_def split: option.splits)
  show ?thesis
    by (rule that [OF u(1,2)]) (simp_all add: u(3) claim_ids_claimable [OF inv])
qed

text \<open>What a poll hands out was PENDING and is DELIVERED afterwards.\<close>

lemma FetchPendingCommands_lifecycle:
  assumes "FetchPendingCommands dev limit w = (Inr cs, w')" "db_inv (w_db w)" "c \<in> set cs"
  shows "lifecycle (w_db w) (c_ID c) = Some CommandPending"
    "lifecycle (w_db w') (c_ID c) = Some CommandDelivered"
proof -
  have inv: "commands_inv (w_db w)" "commands_inv (w_db w')"
    using assms(2) store_effect_inv [OF FetchPendingCommands_effect, of w dev limit] assms(1)
    by (simp_all add: db_inv_def)
  from assms(1,2) obtain u now where f: "cs = map (claim_row now) (filter (\<lambda>c. c_ID c \<in> set
        (claim_ids u (clamp_poll_limit limit) now (t_commands (w_db w)))) (t_commands (w_db w)))"
    "t_commands (w_db w') = update_where (\<lambda>c. c_ID c \<in> set (claim_ids u (clamp_poll_limit limit) now
        (t_commands (w_db w)))) (claim_row now) (t_commands (w_db w))"
    "\<And>c. c \<in> set (t_commands (w_db w)) \<Longrightarrow> c_ID c \<in> set (claim_ids u (clamp_poll_limit limit) now
        (t_commands (w_db w))) \<Longrightarrow> claimable u now c"
    by (rule FetchPendingCommands_Inr) blast
  from assms(3) f(1) obtain q where q: "q \<in> set (t_commands (w_db w))" "c = claim_row now q"
      "c_ID q \<in> set (claim_ids u (clamp_poll_limit limit) now (t_commands (w_db w)))" by auto
  with f(3) have "c_State q = CommandPending" by (auto simp: claimable_def)
  then show "lifecycle (w_db w) (c_ID c) = Some CommandPending"
    using q by (auto simp: lifecycle_Some_iff [OF inv(1)])
  have "claim_row now q \<in> set (t_commands (w_db w'))"
    using q unfolding f(2) by (auto simp: set_update_where)
  then show "lifecycle (w_db w') (c_ID c) = Some CommandDelivered"
    unfolding lifecycle_Some_iff [OF inv(2)] by (rule rev_bexI) (simp add: q(2))
qed

text \<open>A command is delivered to at most one poll. Two calls of FetchPendingCommands, for any
  devices and limits and with any statements of other handlers between them, never return the
  same command.\<close>

theorem command_delivered_once:
  assumes "db_inv (w_db w)" "FetchPendingCommands dev limit w = (Inr cs, w1)"
    "db_steps (w_db w1) (w_db w2)" "FetchPendingCommands dev' limit' w2 = (Inr cs', w3)"
  shows "c_ID ` set cs \<inter> c_ID ` set cs' = {}"
proof (rule ccontr)
  assume "c_ID ` set cs \<inter> c_ID ` set cs' \<noteq> {}"
  then obtain c c' where c: "c \<in> set cs" "c' \<in> set cs'" "c_ID c = c_ID c'" by auto
  have inv1: "db_inv (w_db w1)"
    using store_effect_inv [OF FetchPendingCommands_effect assms(1)] assms(2) by (metis snd_conv)
  then have inv2: "db_inv (w_db w2)" using assms(3) db_steps_inv by blast
  have "lifecycle (w_db w1) (c_ID c) = Some CommandDelivered"
    by (rule FetchPendingCommands_lifecycle [OF assms(2,1) c(1)])
  then obtain s where s: "lifecycle (w_db w2) (c_ID c) = Some s" "CanTransition\<^sup>*\<^sup>* CommandDelivered s"
    using db_steps_moves [OF assms(3) inv1] by blast
  have "lifecycle (w_db w2) (c_ID c) = Some CommandPending"
    using FetchPendingCommands_lifecycle(1) [OF assms(4) inv2 c(2)] c(3) by simp
  with s show False
    using CanTransition_star_rank [OF s(2)] by (simp add: state_rank_def)
qed

lemma command_delivered_once_witness:
  "let first = FetchPendingCommands ''d1'' 5 (calm (demo_db [demo_command ''c1'' CommandPending]))
   in fst first = Inr [claim_row 1000 (demo_command ''c1'' CommandPending)] \<and>
      fst (FetchPendingCommands ''d1'' 5 (snd first)) = Inr [] \<and>
      c_ID ` {claim_row 1000 (demo_command ''c1'' CommandPending)} \<inter> c_ID ` set [] = {}"
proof -
  let ?first = "FetchPendingCommands ''d1'' 5 (calm (demo_db [demo_command ''c1'' CommandPending]))"
  let ?second = "FetchPendingCommands ''d1'' 5 (snd ?first)"
  have a: "fst ?first = Inr [claim_row 1000 (demo_command ''c1'' CommandPending)]"
    by (simp add: poll_run_defs demo_defs)
  have b: "fst ?second = Inr []"
    by (simp add: poll_run_defs demo_defs claim_row_def)
  from command_delivered_once [of "calm (demo_db [demo_command ''c1'' CommandPending])" "''d1''" 5
      "[claim_row 1000 (demo_command ''c1'' CommandPending)]" "snd ?first" "snd ?first" "''d1''" 5
      "[]" "snd ?second"]
  show ?thesis using a b by (simp add: prod_eq_iff)
qed

text \<open>The answer of TransitionCommand, in a run without driver faults, is decided by the state
  machine: it depends on the row and on \<open>CanTransition\<close> only.\<close>

definition transition_answer :: "CommandState \<Rightarrow> message \<Rightarrow> Time \<Rightarrow> Command option \<Rightarrow> Command res" where
  "transition_answer to msg now row =
     (case row of
        None \<Rightarrow> Inl (Sentinel (if transition_sources to = None then ErrInvalidTransition else ErrNotFound))
      | Some c \<Rightarrow> if CanTransition (c_State c) to then Inr (transition_row to msg now c)
                  else Inl (Sentinel ErrInvalidTransition))"

lemma CanTransition_sources: "CanTransition s to \<Longrightarrow> transition_sources to \<noteq> None"
  by (auto simp: CanTransition_def transition_sources_def split: if_splits)

lemma GetCommand_healthy:
  assumes "healthy w" "pg_uuid (w_pg w) uid = Some u"
  shows "GetCommand uid w = (case List.find (\<lambda>c. c_ID c = u) (t_commands (w_db w)) of
      None \<Rightarrow> Inl (Sentinel ErrNotFound) | Some c \<Rightarrow> Inr c, sql_done w)"
  using assms by (cases "List.find (\<lambda>c. c_ID c = u) (t_commands (w_db w))")
    (simp_all add: GetCommand_def getCommand_sql_def scanRow_def exec_sql_healthy with_uuid_def
      select_one_def rowErr_def sql_done_def)

lemma move_hit:
  assumes "commands_inv db" "List.find (\<lambda>c. c_ID c = u) (t_commands db) = Some c"
  shows "count_where (\<lambda>c. c_ID c = u \<and> c_State c \<in> S) (t_commands db) = 0 \<longleftrightarrow> c_State c \<notin> S"
proof -
  have "c \<in> set (t_commands db)" "c_ID c = u" using find_SomeD [OF assms(2)] by auto
  then show ?thesis
    using assms(1) by (auto simp: count_where_zero commands_inv_def dest: distinct_map_eqD)
qed

lemma TransitionCommand_answer:
  assumes w: "healthy w" "db_inv (w_db w)" "pg_uuid (w_pg w) uid = Some u"
  shows "fst (TransitionCommand uid to msg w) =
    transition_answer to msg (sql_time w) (List.find (\<lambda>c. c_ID c = u) (t_commands (w_db w)))"
proof (cases "transition_sources to")
  case None
  then show ?thesis
    by (auto simp: TransitionCommand_def transition_answer_def dest: CanTransition_sources
        split: option.split)
next
  case (Some "from")
  have inv: "commands_inv (w_db w)" using w(2) by (simp add: db_inv_def)
  define hit where "hit = (\<lambda>c::Command. c_ID c = u \<and> c_State c \<in> set from)"
  define t' where "t' = update_where hit (transition_row to msg (sql_time w)) (t_commands (w_db w))"
  define w1 where "w1 = (sql_done w)\<lparr>w_db := (w_db w)\<lparr>t_commands := t'\<rparr>\<rparr>"
  have x: "exec_sql (transition_sql (w_pg w) uid to msg from) w =
      (Inr (count_where hit (t_commands (w_db w))), w1)"
    by (simp add: exec_sql_healthy [OF w(1)] transition_sql_def with_uuid_def w(3) Let_def
        hit_def t'_def w1_def)
  have get: "GetCommand uid w1 = (case List.find (\<lambda>c. c_ID c = u) t' of
      None \<Rightarrow> Inl (Sentinel ErrNotFound) | Some c \<Rightarrow> Inr c, sql_done w1)"
    using w by (subst GetCommand_healthy [of _ _ u]) (simp_all add: w1_def)
  show ?thesis
  proof (cases "List.find (\<lambda>c. c_ID c = u) (t_commands (w_db w))")
    case None
    then have "count_where hit (t_commands (w_db w)) = 0"
      by (auto simp: count_where_zero hit_def dest: find_NoneD)
    moreover have "List.find (\<lambda>c. c_ID c = u) t' = None"
      using None unfolding t'_def by (subst find_update_where) simp_all
    ultimately show ?thesis
      by (simp add: TransitionCommand_def Some x get transition_answer_def None)
  next
    case (Some c)
    have hits: "count_where hit (t_commands (w_db w)) = 0 \<longleftrightarrow> \<not> CanTransition (c_State c) to"
      unfolding hit_def move_hit [OF inv Some]
      by (simp add: transition_sources_iff [OF \<open>transition_sources to = Some from\<close>])
    have "hit c = CanTransition (c_State c) to"
      using find_SomeD [OF Some] transition_sources_iff [OF \<open>transition_sources to = Some from\<close>]
      by (simp add: hit_def)
    moreover have "List.find (\<lambda>c. c_ID c = u) t' =
        Some (if hit c then transition_row to msg (sql_time w) c else c)"
      unfolding t'_def by (subst find_update_where) (simp_all add: Some)
    ultimately show ?thesis
      using hits by (simp add: TransitionCommand_def \<open>transition_sources to = Some from\<close> x get Some
          transition_answer_def)
  qed
qed

end
