(* ===== verification/CommandResults.thy ===== *)
theory CommandResults
  imports StorageContracts
begin

text \<open>
  The command table seen through \<^verbatim>\<open>CreateCommand\<close>, \<^verbatim>\<open>TransitionCommand\<close> and
  \<^verbatim>\<open>ExpireCommands\<close>: the methods against the state machine of \<^verbatim>\<open>domain.CanTransition\<close> and
  against the idempotency key of a command.
\<close>

section \<open>Transitions\<close>

lemma TransitionCommand_table:
  assumes w: "healthy w" "pg_uuid (w_pg w) uid = Some u"
  shows "t_commands (w_db (snd (TransitionCommand uid to msg w))) =
    update_where (\<lambda>c. c_ID c = u \<and> CanTransition (c_State c) to)
      (transition_row to msg (sql_time w)) (t_commands (w_db w))"
proof (cases "transition_sources to")
  case None
  then have "\<not> CanTransition s to" for s by (auto dest: CanTransition_sources)
  then show ?thesis using None by (simp add: TransitionCommand_def update_where_none)
next
  case (Some "from")
  define hit where "hit = (\<lambda>c::Command. c_ID c = u \<and> c_State c \<in> set from)"
  define t' where "t' = update_where hit (transition_row to msg (sql_time w)) (t_commands (w_db w))"
  define w1 where "w1 = (sql_done w)\<lparr>w_db := (w_db w)\<lparr>t_commands := t'\<rparr>\<rparr>"
  have x: "exec_sql (transition_sql (w_pg w) uid to msg from) w =
      (Inr (count_where hit (t_commands (w_db w))), w1)"
    by (simp add: exec_sql_healthy [OF w(1)] transition_sql_def with_uuid_def w(2) Let_def
        hit_def t'_def w1_def)
  have "w_db (snd (GetCommand uid w1)) = w_db w1"
    using w by (subst GetCommand_healthy [of _ _ u]) (simp_all add: w1_def)
  then have "w_db (snd (TransitionCommand uid to msg w)) = w_db w1"
    by (auto simp: TransitionCommand_def Some x split: prod.splits sum.splits)
  moreover have "t' = update_where (\<lambda>c. c_ID c = u \<and> CanTransition (c_State c) to)
      (transition_row to msg (sql_time w)) (t_commands (w_db w))"
    unfolding t'_def hit_def by (simp add: transition_sources_iff [OF Some])
  ultimately show ?thesis by (simp add: w1_def)
qed



section \<open>Creation\<close>

text \<open>Rows keep their identifier, owner and idempotency key for ever.\<close>

definition command_tags :: "database \<Rightarrow> (string \<times> (string \<times> string) option) set" where
  "command_tags db = (\<lambda>c. (c_ID c, idem_key c)) ` set (t_commands db)"

lemma db_step_command_tags: "db_step db db' \<Longrightarrow> command_tags db \<subseteq> command_tags db'"
proof (induction rule: db_step.induct)
  case (create pg c payload now db n db')
  then show ?case by (auto simp: command_tags_def elim!: insertCommand_InrE)
next
  case (claim pg dev limit now db cs db')
  then show ?case
    by (auto simp: fetchPending_sql_def with_uuid_def Let_def command_tags_def update_where_image
        split: option.splits)
next
  case (move to "from" pg uid msg now db n db')
  then show ?case
    by (auto simp: transition_sql_def with_uuid_def Let_def command_tags_def update_where_image
        split: option.splits)
next
  case (expire now db n db')
  then show ?case by (auto simp: expire_sql_def command_tags_def update_where_image)
qed (auto simp: stmt_defs command_tags_def split: option.splits if_splits)

lemma db_steps_command_tags: "db_steps db db' \<Longrightarrow> command_tags db \<subseteq> command_tags db'"
  by (induction rule: rtranclp_induct) (auto dest: db_step_command_tags)

lemma idem_key_unique:
  assumes "commands_inv db" "c \<in> set (t_commands db)" "q \<in> set (t_commands db)"
    "idem_key c = Some k" "idem_key q = Some k"
  shows "c = q"
proof -
  have "distinct (map idem_key (filter (\<lambda>c. idem_key c \<noteq> None) (t_commands db)))"
    using assms(1) by (simp add: commands_inv_def idem_keys_def)
  then show ?thesis
    by (rule distinct_map_eqD) (use assms in auto)
qed

lemma GetCommand_Inr:
  assumes "GetCommand uid w = (Inr c, w')"
  shows "w_db w' = w_db w \<and> pg_uuid (w_pg w) uid = Some (c_ID c) \<and> c \<in> set (t_commands (w_db w))"
proof -
  obtain now where "getCommand_sql (w_pg w) uid now (w_db w) = Inr (c, w_db w')"
    using assms exec_sql_Inr [of "getCommand_sql (w_pg w) uid" w c w']
    by (auto simp: GetCommand_def scanRow_def split: prod.splits sum.splits)
  then show ?thesis
    by (auto simp: getCommand_sql_def with_uuid_def select_one_def dest!: find_SomeD split: option.splits)
qed

lemma findCommandByIdemKey_Inr:
  assumes "findCommandByIdemKey dev key w = (Inr c, w')"
  shows "w_db w' = w_db w \<and> pg_uuid (w_pg w) dev = Some (c_DeviceID c) \<and> c_IdempotencyKey c = key \<and>
    c \<in> set (t_commands (w_db w))"
proof -
  obtain now where "findByIdemKey_sql (w_pg w) dev key now (w_db w) = Inr (c, w_db w')"
    using assms exec_sql_Inr [of "findByIdemKey_sql (w_pg w) dev key" w c w']
    by (auto simp: findCommandByIdemKey_def scanRow_def split: prod.splits sum.splits)
  then show ?thesis
    by (auto simp: findByIdemKey_sql_def with_uuid_def select_one_def dest!: find_SomeD
        split: option.splits)
qed

text \<open>The two successful outcomes of CreateCommand.\<close>

lemma CreateCommand_created:
  assumes "CreateCommand c w = (CmdCreated x, w')"
  obtains u dev doc now c1 where "pg_uuid (w_pg w) (c_DeviceID c) = Some dev"
    "pg_jsonb (w_pg w) (create_payload c) = Some doc"
    "c1 = c\<lparr>c_ID := c_ID c1, c_State := CommandPending\<rparr>" "pg_uuid (w_pg w) (c_ID c1) = Some u"
    "u \<notin> c_ID ` set (t_commands (w_db w))" "dev \<in> device_ids (w_db w)"
    "t_commands (w_db w') = t_commands (w_db w) @ [new_command_row (w_pg w) c1 u dev doc now]"
    "command_gate (w_pg w) ((c1, create_payload c), now) (w_db w) = Inr (Suc 0, w_db w')"
    "c_ID x = u" "x \<in> set (t_commands (w_db w'))"
proof -
  obtain c0 w1 where u: "withCommandID c w = (c0, w1)" by fastforce
  note s = withCommandID_simps [OF u]
  define c1 where "c1 = c0\<lparr>c_State := CommandPending\<rparr>"
  have c1: "c1 = c\<lparr>c_ID := c_ID c1, c_State := CommandPending\<rparr>" "create_payload c = create_payload c1"
    using s(3) by (simp_all add: c1_def create_payload_def)
      (metis Command.select_convs(4) Command.surjective Command.update_convs(1))
  obtain r w2 where x: "exec_sql (insertCommand_sql (w_pg w1) c1 (create_payload c1)) w1 = (r, w2)"
    by fastforce
  have "CreateCommand c w = afterInsertCommand c1 r w2"
    using x by (simp add: CreateCommand_def u Let_def flip: c1_def)
  with assms obtain n where n: "r = Inr n" "n \<noteq> 0" "GetCommand (c_ID c1) w2 = (Inr x, w')"
    by (auto simp: afterInsertCommand_def split: sum.splits prod.splits if_splits)
  note get = GetCommand_Inr [OF n(3)]
  from exec_sql_Inr [OF x [unfolded n(1)]] obtain now
    where i: "insertCommand_sql (w_pg w) c1 (create_payload c1) now (w_db w) = Inr (n, w_db w2)"
    using s(1,2) by auto
  have pg: "w_pg w2 = w_pg w"
    using store_effectD(2) [OF write_effects(7) [of w1 "w_pg w1" c1 "create_payload c1"]] x s(2)
    by simp
  show ?thesis using i
  proof (cases rule: insertCommand_InrE)
    case conflict
    with n(2) show ?thesis by simp
  next
    case (enqueued u dev doc)
    have dev: "c_DeviceID c1 = c_DeviceID c" by (subst c1(1)) simp
    have got: "c_ID x = u" "w_db w' = w_db w2" "x \<in> set (t_commands (w_db w'))"
      using get pg enqueued(2) by auto
    show ?thesis
    proof (rule that)
      show "pg_uuid (w_pg w) (c_DeviceID c) = Some dev" using enqueued(3) dev by simp
      show "pg_jsonb (w_pg w) (create_payload c) = Some doc" using enqueued(4) c1(2) by simp
      show "t_commands (w_db w') = t_commands (w_db w) @ [new_command_row (w_pg w) c1 u dev doc now]"
        using enqueued(5) got(2) by simp
      show "command_gate (w_pg w) ((c1, create_payload c), now) (w_db w) = Inr (Suc 0, w_db w')"
        using i enqueued(1) got(2) c1(2) by (simp add: command_gate_def)
    qed (fact c1 enqueued(2,6,7) got)+
  qed
qed

lemma CreateCommand_existing:
  assumes "CreateCommand c w = (CmdExisting y, w')" "pg_uuid (w_pg w) (c_DeviceID c) = Some dev" "c_IdempotencyKey c \<noteq> []"
  shows "y \<in> set (t_commands (w_db w))" "idem_key y = Some (dev, c_IdempotencyKey c)"
proof -
  obtain c0 w1 where u: "withCommandID c w = (c0, w1)" by fastforce
  note s = withCommandID_simps [OF u]
  define c2 where "c2 = c0\<lparr>c_State := CommandPending\<rparr>"
  have c2: "c_DeviceID c2 = c_DeviceID c" "c_IdempotencyKey c2 = c_IdempotencyKey c"
    unfolding c2_def by (subst s(3), simp)+
  obtain r w2 where i: "exec_sql (insertCommand_sql (w_pg w1) c2 (create_payload c2)) w1 = (r, w2)"
    by fastforce
  have "CreateCommand c w = afterInsertCommand c2 r w2"
    using i by (simp add: CreateCommand_def u Let_def flip: c2_def)
  with assms(1) have f: "findCommandByIdemKey (c_DeviceID c) (c_IdempotencyKey c) w2 = (Inr y, w')" and r: "r = Inr 0"
    by (auto simp: afterInsertCommand_def c2 split: sum.splits prod.splits if_splits)
  have pg: "w_pg w2 = w_pg w"
    using store_effectD(2) [OF write_effects(7) [of w1 "w_pg w1" c2 "create_payload c2"]] i s(2) by simp
  from exec_sql_Inr [OF i [unfolded r]] have "w_db w2 = w_db w1"
    by (auto elim!: insertCommand_InrE)
  then show "y \<in> set (t_commands (w_db w))" "idem_key y = Some (dev, c_IdempotencyKey c)"
    using findCommandByIdemKey_Inr [OF f] pg s(1) assms(2,3) by (auto simp: idem_key_def)
qed

lemma create_key_once:
  assumes "db_inv (w_db w)" "CreateCommand c w = (CmdCreated x, w1)" "c_IdempotencyKey c \<noteq> []"
    "db_steps (w_db w1) (w_db w2)" "w_pg w2 = w_pg w"
    "c_DeviceID c' = c_DeviceID c" "c_IdempotencyKey c' = c_IdempotencyKey c"
  shows "case fst (CreateCommand c' w2) of
      CmdCreated y \<Rightarrow> False | CmdExisting y \<Rightarrow> c_ID y = c_ID x | CmdError e \<Rightarrow> True"
proof (cases "CreateCommand c' w2")
  case (Pair r w3)
  from assms(2) obtain u dev doc now c1 where x: "pg_uuid (w_pg w) (c_DeviceID c) = Some dev"
    "c1 = c\<lparr>c_ID := c_ID c1, c_State := CommandPending\<rparr>" "dev \<in> device_ids (w_db w)" "c_ID x = u"
    "t_commands (w_db w1) = t_commands (w_db w) @ [new_command_row (w_pg w) c1 u dev doc now]"
    "command_gate (w_pg w) ((c1, create_payload c), now) (w_db w) = Inr (Suc 0, w_db w1)"
    by (rule CreateCommand_created)
  have c1: "c_DeviceID c1 = c_DeviceID c" "c_IdempotencyKey c1 = c_IdempotencyKey c"
    by (subst x(2), simp)+
  have key: "command_gate_key (w_pg w) ((c1, create_payload c), now) = Some (dev, c_IdempotencyKey c)"
    using assms(3) x(1) by (simp add: command_gate_key_def c1)
  have "(u, Some (dev, c_IdempotencyKey c)) \<in> command_tags (w_db w1)"
    using assms(3) by (simp add: command_tags_def x(5) idem_key_def c1)
  then have tag: "(u, Some (dev, c_IdempotencyKey c)) \<in> command_tags (w_db w2)"
    using db_steps_command_tags [OF assms(4)] by blast
  have "db_inv (w_db w1)"
    using store_effect_inv [OF CreateCommand_effect assms(1)] assms(2) by (metis snd_conv)
  then have inv2: "commands_inv (w_db w2)"
    using db_steps_inv [OF assms(4)] by (simp add: db_inv_def)
  show ?thesis
  proof (cases r)
    case (CmdCreated y)
    with Pair obtain dev' now' c1' where y: "pg_uuid (w_pg w2) (c_DeviceID c') = Some dev'"
      "c1' = c'\<lparr>c_ID := c_ID c1', c_State := CommandPending\<rparr>"
      "command_gate (w_pg w2) ((c1', create_payload c'), now') (w_db w2) = Inr (Suc 0, w_db w3)"
      by (auto elim: CreateCommand_created)
    have c1': "c_DeviceID c1' = c_DeviceID c" "c_IdempotencyKey c1' = c_IdempotencyKey c"
      by (subst y(2), simp add: assms(6,7))+
    then have "command_gate_key (w_pg w) ((c1', create_payload c'), now') = Some (dev, c_IdempotencyKey c)"
      using assms(3) x(1) by (simp add: command_gate_key_def)
    from commands.once [OF x(6) key assms(4) y(3) [unfolded assms(5)] this] show ?thesis by simp
  next
    case (CmdExisting y)
    have "y \<in> set (t_commands (w_db w2))" "idem_key y = Some (dev, c_IdempotencyKey c)"
      using CreateCommand_existing [OF Pair [unfolded CmdExisting], of dev] x(1) assms(3,5-7) by simp_all
    moreover from tag obtain q where "q \<in> set (t_commands (w_db w2))" "c_ID q = u"
        "idem_key q = Some (dev, c_IdempotencyKey c)" by (auto simp: command_tags_def)
    ultimately have "c_ID y = u" using idem_key_unique [OF inv2] by blast
    then show ?thesis using Pair CmdExisting x(4) by simp
  qed (simp add: Pair)
qed

text \<open>An idempotency key creates one command. After CreateCommand has created a command under a
  nonempty key of a device, a later call with that device and key never creates another one; when
  it answers with an existing command, it is the one created first, whatever happened to it in
  between.\<close>

theorem command_created_once:
  assumes "db_inv (w_db w)" "CreateCommand c w = (CmdCreated x, w1)" "c_IdempotencyKey c \<noteq> []"
    "db_steps (w_db w1) (w_db w2)" "w_pg w2 = w_pg w"
    "c_DeviceID c' = c_DeviceID c" "c_IdempotencyKey c' = c_IdempotencyKey c"
  shows "case fst (CreateCommand c' w2) of
      CmdCreated y \<Rightarrow> False | CmdExisting y \<Rightarrow> c_ID y = c_ID x | CmdError e \<Rightarrow> True"
  by (rule create_key_once [OF assms])

lemma command_created_once_witness:
  "let c = zeroCommand\<lparr>c_DeviceID := ''d1'', c_Type := CommandGetStatus, c_IdempotencyKey := ''k''\<rparr>;
       first = CreateCommand c (calm (demo_db []))
   in case fst (CreateCommand c (snd first)) of
        CmdCreated y \<Rightarrow> False | CmdExisting y \<Rightarrow> c_ID y = ''u'' | CmdError e \<Rightarrow> True"
proof -
  let ?c = "zeroCommand\<lparr>c_DeviceID := ''d1'', c_Type := CommandGetStatus, c_IdempotencyKey := ''k''\<rparr>"
  let ?first = "CreateCommand ?c (calm (demo_db []))"
  have "case fst ?first of CmdCreated x \<Rightarrow> c_ID x = ''u'' | _ \<Rightarrow> False"
    by (simp add: create_run_defs demo_defs zeroCommand_def device_ids_def)
  then obtain x where x: "?first = (CmdCreated x, snd ?first)" "c_ID x = ''u''"
    by (cases "fst ?first") (auto simp: prod_eq_iff)
  have "w_pg (snd ?first) = demo_pg"
    using store_effectD(2) [OF CreateCommand_effect, of ?c "calm (demo_db [])"] by simp
  with command_created_once [OF _ x(1), of "snd ?first" ?c] x(2) show ?thesis
    unfolding Let_def by (auto split: create_outcome.splits)
qed

section \<open>Expiry\<close>

text \<open>One run of the reaper's statement fails exactly the unfinished commands that are past
  their expiry at one instant, reports how many there were, keeps every other command as it is,
  and leaves none behind that is overdue at that instant.\<close>

theorem ExpireCommands_correct:
  assumes "ExpireCommands w = (Inr n, w')"
  shows "\<exists>now. t_commands (w_db w') = update_where (overdue now) (expire_row now) (t_commands (w_db w)) \<and>
    n = count_where (overdue now) (t_commands (w_db w)) \<and>
    (\<forall>c. c \<in> set (t_commands (w_db w')) \<longrightarrow> \<not> overdue now c)"
proof -
  from exec_sql_Inr [OF assms [unfolded ExpireCommands_def]] obtain now
    where "expire_sql now (w_db w) = Inr (n, w_db w')" by blast
  then have "w_db w' = (w_db w)\<lparr>t_commands := update_where (overdue now) (expire_row now) (t_commands (w_db w))\<rparr>"
    "n = count_where (overdue now) (t_commands (w_db w))" by (simp_all add: expire_sql_def)
  then have "t_commands (w_db w') = update_where (overdue now) (expire_row now) (t_commands (w_db w))"
    "n = count_where (overdue now) (t_commands (w_db w))" by simp_all
  moreover have "\<not> overdue now c" if "c \<in> set (t_commands (w_db w'))" for c
    using that unfolding calculation(1)
    by (auto elim!: in_update_whereE simp: overdue_def expire_row_def)
  ultimately show ?thesis by blast
qed

lemma ExpireCommands_correct_witness:
  "let w = calm (demo_db [(demo_command ''c1'' CommandPending)\<lparr>c_ExpiresAt := 900\<rparr>]);
       w' = snd (ExpireCommands w)
   in \<exists>now. t_commands (w_db w') = update_where (overdue now) (expire_row now) (t_commands (w_db w)) \<and>
        1 = count_where (overdue now) (t_commands (w_db w)) \<and>
        (\<forall>c. c \<in> set (t_commands (w_db w')) \<longrightarrow> \<not> overdue now c)"
  unfolding Let_def
proof (rule ExpireCommands_correct)
  let ?w = "calm (demo_db [(demo_command ''c1'' CommandPending)\<lparr>c_ExpiresAt := 900\<rparr>])"
  show "ExpireCommands ?w = (Inr 1, snd (ExpireCommands ?w))"
    by (simp add: ExpireCommands_def expire_sql_def run_defs demo_defs overdue_def count_where_def)
qed

section \<open>The command table as a refinement of the lifecycle machine\<close>

text \<open>Every database the connector can reach from an empty one, by any interleaving of its
  statements, satisfies the integrity invariant, and its command table is a state the abstract
  lifecycle machine reaches.\<close>

theorem reachable_database_correct:
  assumes "db_steps empty_database db"
  shows "db_inv db \<and> life_step\<^sup>*\<^sup>* (\<lambda>_. None) (lifecycle db)"
proof
  show "db_inv db" by (rule db_steps_inv [OF assms db_inv_empty])
  have "lifecycle empty_database = (\<lambda>_. None)"
    by (simp add: lifecycle_def empty_database_def fun_eq_iff)
  then show "life_step\<^sup>*\<^sup>* (\<lambda>_. None) (lifecycle db)"
    using db_steps_life [OF assms db_inv_empty] by simp
qed

lemma reachable_database_correct_witness:
  "let w = snd (UpsertDevice (zeroDevice\<lparr>d_ExternalID := ''x''\<rparr>) (calm empty_database))
   in db_inv (w_db w) \<and> life_step\<^sup>*\<^sup>* (\<lambda>_. None) (lifecycle (w_db w))"
  unfolding Let_def
  by (rule reachable_database_correct)
    (use store_effectD(1) [OF UpsertDevice_effect, of "calm empty_database"]
      in simp)

text \<open>A finished command stays finished. Once a command is ACKNOWLEDGED or FAILED, no
  interleaving of statements, the reaper's included, changes its state.\<close>

theorem finished_command_stays:
  assumes "db_inv db" "lifecycle db k = Some s" "terminal_state s" "db_steps db db'"
  shows "lifecycle db' k = Some s"
  using db_steps_moves [OF assms(4,1,2)] CanTransition_star_terminal assms(3) by blast

lemma finished_command_stays_witness:
  "let w = calm (demo_db [demo_command ''c1'' CommandFailed])
   in lifecycle (w_db (snd (TransitionCommand ''c1'' CommandAcknowledged (Str []) w))) ''c1'' = Some CommandFailed"
  unfolding Let_def
proof (rule finished_command_stays)
  let ?w = "calm (demo_db [demo_command ''c1'' CommandFailed])"
  show "db_inv (w_db ?w)"
    by (auto intro!: demo_inv_commands simp: idem_keys_def command_wf_def terminal_state_def
        demo_command_def)
  show "lifecycle (w_db ?w) ''c1'' = Some CommandFailed" by (simp add: lifecycle_def)
  show "db_steps (w_db ?w) (w_db (snd (TransitionCommand ''c1'' CommandAcknowledged (Str []) ?w)))"
    by (rule store_effectD(1) [OF TransitionCommand_effect])
qed (simp add: terminal_state_def)

end
