(* ===== verification/DeviceResults.thy ===== *)
theory DeviceResults
  imports StorageContracts
begin

text \<open>
  The device registry: what an upsert does to a known and to an unknown device.
\<close>

definition seen_before :: "Time option \<Rightarrow> Time option \<Rightarrow> bool" where
  "seen_before a b \<longleftrightarrow> (case a of None \<Rightarrow> True | Some x \<Rightarrow> (case b of None \<Rightarrow> False | Some y \<Rightarrow> x \<le> y))"

text \<open>A device row after a report \<open>d\<close> of its provider, as the documentation of the method promises it.\<close>

definition refreshed :: "Device \<Rightarrow> device_row \<Rightarrow> device_row \<Rightarrow> bool" where
  "refreshed d r r' \<longleftrightarrow>
     dv_id r' = dv_id r \<and> device_key r' = device_key r \<and> dv_created_at r' = dv_created_at r \<and>
     dv_name r' = (if d_Name d = [] then dv_name r else d_Name d) \<and>
     dv_status r' = (if d_Status d = DeviceUnknown then dv_status r else d_Status d) \<and>
     dv_app_version r' = (if d_AppVersion d = [] then dv_app_version r else d_AppVersion d) \<and>
     seen_before (dv_last_seen_at r) (dv_last_seen_at r')"

lemma upsert_row_refreshed: "refreshed d r (upsert_device_row d seen now r)"
  by (auto simp: refreshed_def upsert_device_row_def device_key_def sql_nullif_def sql_coalesce_def
      sql_greatest_def seen_before_def split: option.splits)

lemma UpsertDevice_Inr:
  assumes "UpsertDevice d w = (Inr got, w')"
  obtains uid now where "upsertDevice_sql (w_pg w) uid d now (w_db w) = Inr (got, w_db w')"
proof -
  obtain uid w1 where u: "uuidNew w = (uid, w1)" by fastforce
  then have "exec_sql (upsertDevice_sql (w_pg w) uid d) w1 = (Inr got, w')"
    using assms by (auto simp: UpsertDevice_def uuidNew_def split: prod.splits sum.splits)
  from exec_sql_Inr [OF this] u that show ?thesis by (auto simp: uuidNew_def)
qed

lemma upsertDevice_Inr_cases:
  assumes "upsertDevice_sql pg uid d now db = Inr (got, db')"
  obtains (known) r seen where "r \<in> set (t_devices db)" "device_key r = (d_Provider d, d_ExternalID d)"
      "got = dv_id r"
      "t_devices db' = update_where (\<lambda>r. device_key r = (d_Provider d, d_ExternalID d))
         (upsert_device_row d seen now) (t_devices db)"
  | (unknown) seen where "(d_Provider d, d_ExternalID d) \<notin> device_key ` set (t_devices db)"
      "got \<notin> device_ids db" "t_devices db' = t_devices db @ [new_device_row got d seen now]"
proof (cases "List.find (\<lambda>r. device_key r = (d_Provider d, d_ExternalID d)) (t_devices db)")
  case None
  then have "(d_Provider d, d_ExternalID d) \<notin> device_key ` set (t_devices db)"
    by (auto dest: find_NoneD)
  then show ?thesis
    using unknown assms None
    by (auto simp: upsertDevice_sql_def with_uuid_def Let_def split: option.splits if_splits)
next
  case (Some r)
  with find_SomeD [OF Some] known assms show ?thesis
    by (auto simp: upsertDevice_sql_def with_uuid_def Let_def split: option.splits)
qed

text \<open>Reporting a device never loses what is known about it. An upsert of a known device keeps
  its identifier and creation time, keeps its name, version and status where the report has none,
  never moves its last contact back, and leaves every other device as it is; an upsert of an unknown
  device adds one row under a fresh identifier. Either way the identifier returned names the row of
  that provider and external id.\<close>

theorem UpsertDevice_correct:
  assumes "UpsertDevice d w = (Inr got, w')" "db_inv (w_db w)"
  shows "if (d_Provider d, d_ExternalID d) \<in> device_key ` set (t_devices (w_db w))
    then list_all2 (\<lambda>r r'. if dv_id r = got then device_key r = (d_Provider d, d_ExternalID d) \<and> refreshed d r r'
                            else r' = r)
           (t_devices (w_db w)) (t_devices (w_db w')) \<and> got \<in> device_ids (w_db w)
    else \<exists>r. t_devices (w_db w') = t_devices (w_db w) @ [r] \<and> dv_id r = got \<and>
           got \<notin> device_ids (w_db w) \<and> device_key r = (d_Provider d, d_ExternalID d)"
proof -
  have inv: "distinct (map dv_id (t_devices (w_db w)))" "distinct (map device_key (t_devices (w_db w)))"
    using assms(2) by (simp_all add: db_inv_def devices_inv_def)
  from assms(1) obtain uid now where
    "upsertDevice_sql (w_pg w) uid d now (w_db w) = Inr (got, w_db w')" by (rule UpsertDevice_Inr)
  then show ?thesis
  proof (cases rule: upsertDevice_Inr_cases)
    case (known r seen)
    have same: "device_key q = (d_Provider d, d_ExternalID d) \<longleftrightarrow> dv_id q = got"
      if "q \<in> set (t_devices (w_db w))" for q
      using that known(1-3) distinct_map_eqD [OF inv(1)] distinct_map_eqD [OF inv(2)] by metis
    have "list_all2 (\<lambda>r r'. if dv_id r = got then device_key r = (d_Provider d, d_ExternalID d) \<and> refreshed d r r'
        else r' = r) (t_devices (w_db w)) (t_devices (w_db w'))"
      unfolding known(4) update_where_def list_all2_map2
      by (rule list.rel_refl_strong) (simp add: same upsert_row_refreshed)
    moreover have "got \<in> device_ids (w_db w)" using known by (simp add: device_ids_def)
    moreover have "(d_Provider d, d_ExternalID d) \<in> device_key ` set (t_devices (w_db w))"
      using known(1,2) by (metis imageI)
    ultimately show ?thesis by simp
  next
    case (unknown seen)
    then show ?thesis by (auto simp: new_device_row_def device_key_def)
  qed
qed

lemma UpsertDevice_correct_witness:
  "let d = zeroDevice\<lparr>d_ExternalID := ''x1'', d_Provider := ProviderGuardianEdge, d_Status := DeviceUnknown\<rparr>;
       w' = snd (UpsertDevice d (calm (demo_db [])))
   in list_all2 (\<lambda>r r'. if dv_id r = ''d1'' then device_key r = (d_Provider d, d_ExternalID d) \<and> refreshed d r r'
                         else r' = r) [demo_device] (t_devices (w_db w'))"
proof -
  let ?d = "zeroDevice\<lparr>d_ExternalID := ''x1'', d_Provider := ProviderGuardianEdge, d_Status := DeviceUnknown\<rparr>"
  let ?w = "calm (demo_db [])"
  have up: "UpsertDevice ?d ?w = (Inr ''d1'', snd (UpsertDevice ?d ?w))"
    by (simp add: UpsertDevice_def run_defs upsertDevice_sql_def demo_defs zeroDevice_def device_key_def)
  have key: "(d_Provider ?d, d_ExternalID ?d) \<in> device_key ` set (t_devices (w_db ?w))"
    by (simp add: device_key_def demo_device_def)
  have "db_inv (w_db ?w)" by simp
  from UpsertDevice_correct [OF up this, unfolded if_P [OF key]] show ?thesis
    unfolding Let_def by (simp only: demo_world_simps demo_db_simps)
qed

end
