(* ===== verification/Json.thy ===== *)
theory Json
  imports GoErrors
begin

text \<open>
  What the program uses of Go's \<^verbatim>\<open>encoding/json\<close>, on byte strings: the syntax checker behind
  \<^verbatim>\<open>json.Valid\<close>, unquoting with UTF-8 repair, and the rules by which \<^verbatim>\<open>json.Unmarshal\<close>
  fills a struct (names matched without regard to case, the last occurrence wins, null leaves
  a field alone, a value of the wrong kind is an error that does not stop the decoding).
\<close>

section \<open>Syntax\<close>

datatype json =
    JNull | JBool bool | JNum string | JStr string
  | JArr "json list" | JObj "(string \<times> json) list"

definition byte :: "char \<Rightarrow> nat" where "byte c = of_char c"

definition isSpace :: "char \<Rightarrow> bool" where "isSpace c \<longleftrightarrow> byte c \<in> {32, 9, 13, 10}"

definition isDigit :: "char \<Rightarrow> bool" where "isDigit c \<longleftrightarrow> 48 \<le> byte c \<and> byte c \<le> 57"

definition digitVal :: "char \<Rightarrow> nat" where "digitVal c = byte c - 48"

definition hexVal :: "char \<Rightarrow> nat option" where
  "hexVal c =
     (let b = byte c
      in if 48 \<le> b \<and> b \<le> 57 then Some (b - 48)
         else if 97 \<le> b \<and> b \<le> 102 then Some (b - 87)
         else if 65 \<le> b \<and> b \<le> 70 then Some (b - 55)
         else None)"

fun getu4 :: "string \<Rightarrow> (nat \<times> string) option" where
  "getu4 (a # b # c # d # rest) =
     (case (hexVal a, hexVal b, hexVal c, hexVal d) of
        (Some w, Some x, Some y, Some z) \<Rightarrow> Some (((w * 16 + x) * 16 + y) * 16 + z, rest)
      | _ \<Rightarrow> None)"
| "getu4 _ = None"

definition skipWs :: "string \<Rightarrow> string" where "skipWs = dropWhile isSpace"

text \<open>The bytes between two quotes, escapes checked and not yet replaced, and what follows.\<close>

fun scanString :: "string \<Rightarrow> (string \<times> string) option" where
  "scanString [] = None"
| "scanString (c # cs) =
     (if byte c = 34 then Some ([], cs)
      else if byte c = 92 then
        (case cs of
           [] \<Rightarrow> None
         | e # r \<Rightarrow>
             if byte e \<in> {34, 92, 47, 98, 102, 110, 114, 116}
             then map_option (\<lambda>(s, t). (c # e # s, t)) (scanString r)
             else if byte e = 117 \<and> getu4 r \<noteq> None
             then map_option (\<lambda>(s, t). (c # e # s, t)) (scanString r)
             else None)
      else if byte c < 32 then None
      else map_option (\<lambda>(s, t). (c # s, t)) (scanString cs))"

text \<open>A number literal: sign, integer part without leading zeros, fraction, exponent.\<close>

definition scanDigits :: "string \<Rightarrow> (string \<times> string) option" where
  "scanDigits s = (if takeWhile isDigit s = [] then None else Some (takeWhile isDigit s, dropWhile isDigit s))"

definition scanInt :: "string \<Rightarrow> (string \<times> string) option" where
  "scanInt s =
     (case s of
        [] \<Rightarrow> None
      | c # cs \<Rightarrow> if byte c = 48 then Some ([c], cs) else scanDigits s)"

definition scanFrac :: "string \<Rightarrow> (string \<times> string) option" where
  "scanFrac s =
     (case s of
        c # cs \<Rightarrow> if byte c = 46 then map_option (\<lambda>(d, r). (c # d, r)) (scanDigits cs) else Some ([], s)
      | [] \<Rightarrow> Some ([], []))"

definition scanExp :: "string \<Rightarrow> (string \<times> string) option" where
  "scanExp s =
     (case s of
        c # cs \<Rightarrow>
          if byte c = 101 \<or> byte c = 69 then
            (case cs of
               g # r \<Rightarrow> if byte g = 43 \<or> byte g = 45 then map_option (\<lambda>(d, t). (c # g # d, t)) (scanDigits r)
                        else map_option (\<lambda>(d, t). (c # d, t)) (scanDigits cs)
             | [] \<Rightarrow> None)
          else Some ([], s)
      | [] \<Rightarrow> Some ([], []))"

definition scanNumber :: "string \<Rightarrow> (string \<times> string) option" where
  "scanNumber s =
     (let (sign, s1) = (case s of c # cs \<Rightarrow> if byte c = 45 then ([c], cs) else ([], s) | [] \<Rightarrow> ([], s))
      in case scanInt s1 of
           None \<Rightarrow> None
         | Some (i, s2) \<Rightarrow>
             (case scanFrac s2 of
                None \<Rightarrow> None
              | Some (f, s3) \<Rightarrow>
                  (case scanExp s3 of
                     None \<Rightarrow> None
                   | Some (x, s4) \<Rightarrow> Some (sign @ i @ f @ x, s4))))"

section \<open>Unquoting\<close>

definition bytesOf :: "nat list \<Rightarrow> string" where "bytesOf = map char_of"

definition encodeRune :: "nat \<Rightarrow> string" where
  "encodeRune r = bytesOf
     (if r < 128 then [r]
      else if r < 2048 then [192 + r div 64, 128 + r mod 64]
      else if r < 65536 then [224 + r div 4096, 128 + r div 64 mod 64, 128 + r mod 64]
      else [240 + r div 262144, 128 + r div 4096 mod 64, 128 + r div 64 mod 64, 128 + r mod 64])"

definition replacementRune :: nat where "replacementRune = 65533"

definition isSurrogate :: "nat \<Rightarrow> bool" where "isSurrogate r \<longleftrightarrow> 55296 \<le> r \<and> r \<le> 57343"

text \<open>The number of bytes of the well-formed UTF-8 sequence a string starts with; 0 for none.\<close>

definition cont :: "nat \<Rightarrow> bool" where "cont b \<longleftrightarrow> 128 \<le> b \<and> b \<le> 191"

definition utf8Len :: "string \<Rightarrow> nat" where
  "utf8Len s =
     (case map byte (take 4 s) of
        [] \<Rightarrow> 0
      | b0 # bs \<Rightarrow>
          if b0 < 128 then 1
          else if 194 \<le> b0 \<and> b0 \<le> 223 then
            (case bs of b1 # _ \<Rightarrow> if cont b1 then 2 else 0 | _ \<Rightarrow> 0)
          else if 224 \<le> b0 \<and> b0 \<le> 239 then
            (case bs of
               b1 # b2 # _ \<Rightarrow>
                 if cont b1 \<and> cont b2 \<and> (b0 = 224 \<longrightarrow> 160 \<le> b1) \<and> (b0 = 237 \<longrightarrow> b1 \<le> 159) then 3 else 0
             | _ \<Rightarrow> 0)
          else if 240 \<le> b0 \<and> b0 \<le> 244 then
            (case bs of
               [b1, b2, b3] \<Rightarrow>
                 if cont b1 \<and> cont b2 \<and> cont b3 \<and> (b0 = 240 \<longrightarrow> 144 \<le> b1) \<and> (b0 = 244 \<longrightarrow> b1 \<le> 143)
                 then 4 else 0
             | _ \<Rightarrow> 0)
          else 0)"

definition simpleEscape :: "nat \<Rightarrow> nat" where
  "simpleEscape e =
     (if e = 98 then 8 else if e = 102 then 12 else if e = 110 then 10
      else if e = 114 then 13 else if e = 116 then 9 else e)"

text \<open>
  One \<^verbatim>\<open>\uXXXX\<close>: a surrogate takes the second half of its pair with it when there is one
  and is replaced by U+FFFD otherwise.
\<close>

definition unquoteU :: "nat \<Rightarrow> string \<Rightarrow> nat \<times> string" where
  "unquoteU r rest =
     (if \<not> isSurrogate r then (r, rest)
      else case rest of
             b # u # r1 \<Rightarrow>
               if byte b = 92 \<and> byte u = 117 then
                 (case getu4 r1 of
                    Some (lo, r2) \<Rightarrow>
                      if r \<le> 56319 \<and> 56320 \<le> lo \<and> lo \<le> 57343
                      then ((r - 55296) * 1024 + (lo - 56320) + 65536, r2)
                      else (replacementRune, rest)
                  | None \<Rightarrow> (replacementRune, rest))
               else (replacementRune, rest)
           | _ \<Rightarrow> (replacementRune, rest))"

lemma getu4_length: "getu4 s = Some (r, t) \<Longrightarrow> length s = length t + 4"
  by (cases s rule: getu4.cases) (auto split: option.splits)

lemma unquoteU_length: "length (snd (unquoteU r rest)) \<le> length rest"
  by (auto simp: unquoteU_def split: list.splits option.splits dest: getu4_length)

function unquote :: "string \<Rightarrow> string" where
  "unquote [] = []"
| "unquote (c # cs) =
     (if byte c = 92 then
        (case cs of
           [] \<Rightarrow> []
         | e # r \<Rightarrow>
             if byte e = 117 then
               (case getu4 r of
                  None \<Rightarrow> []
                | Some (u, r1) \<Rightarrow>
                    encodeRune (fst (unquoteU u r1)) @ unquote (snd (unquoteU u r1)))
             else char_of (simpleEscape (byte e)) # unquote r)
      else case utf8Len (c # cs) of
             0 \<Rightarrow> encodeRune replacementRune @ unquote cs
           | Suc n \<Rightarrow> (c # take n cs) @ unquote (drop n cs))"
  by pat_completeness auto
termination
proof (relation "measure length", goal_cases)
  case (2 c cs e r p u r1)
  then show ?case using getu4_length unquoteU_length [of u r1] by fastforce
qed auto

section \<open>Values\<close>

definition maxNestingDepth :: nat where "maxNestingDepth = 10000"

definition stripPrefix :: "string \<Rightarrow> string \<Rightarrow> string option" where
  "stripPrefix p s = (if take (length p) s = p then Some (drop (length p) s) else None)"

text \<open>
  \<open>parseValue d s\<close> reads one value at nesting depth \<open>d\<close> from a string without leading
  space. The length tests only make the recursion visibly well founded: what a reader leaves is
  always shorter than what it was given (\<open>parse_shorter\<close>).
\<close>

function (sequential)
    parseValue :: "nat \<Rightarrow> string \<Rightarrow> (json \<times> string) option"
  and parseElems :: "nat \<Rightarrow> string \<Rightarrow> (json list \<times> string) option"
  and parseMembers :: "nat \<Rightarrow> string \<Rightarrow> ((string \<times> json) list \<times> string) option"
where
  "parseValue d [] = None"
| "parseValue d (c # cs) =
     (if byte c = 123 then
        (if maxNestingDepth \<le> d then None
         else case skipWs cs of
                [] \<Rightarrow> None
              | e # r \<Rightarrow> if byte e = 125 then Some (JObj [], r)
                         else if length (skipWs cs) \<le> length cs
                         then map_option (\<lambda>(ms, t). (JObj ms, t)) (parseMembers (Suc d) (skipWs cs))
                         else None)
      else if byte c = 91 then
        (if maxNestingDepth \<le> d then None
         else case skipWs cs of
                [] \<Rightarrow> None
              | e # r \<Rightarrow> if byte e = 93 then Some (JArr [], r)
                         else if length (skipWs cs) \<le> length cs
                         then map_option (\<lambda>(vs, t). (JArr vs, t)) (parseElems (Suc d) (skipWs cs))
                         else None)
      else if byte c = 34 then map_option (\<lambda>(raw, r). (JStr (unquote raw), r)) (scanString cs)
      else if byte c = 45 \<or> isDigit c then map_option (\<lambda>(l, r). (JNum l, r)) (scanNumber (c # cs))
      else case stripPrefix ''true'' (c # cs) of
             Some r \<Rightarrow> Some (JBool True, r)
           | None \<Rightarrow>
               (case stripPrefix ''false'' (c # cs) of
                  Some r \<Rightarrow> Some (JBool False, r)
                | None \<Rightarrow> map_option (\<lambda>r. (JNull, r)) (stripPrefix ''null'' (c # cs))))"
| "parseElems d s =
     (case parseValue d s of
        None \<Rightarrow> None
      | Some (v, t) \<Rightarrow>
          (case skipWs t of
             [] \<Rightarrow> None
           | e # r \<Rightarrow>
               if byte e = 93 then Some ([v], r)
               else if byte e = 44 \<and> length (skipWs r) < length s
               then map_option (\<lambda>(vs, u). (v # vs, u)) (parseElems d (skipWs r))
               else None))"
| "parseMembers d s =
     (case s of
        [] \<Rightarrow> None
      | q # s1 \<Rightarrow>
          if byte q \<noteq> 34 then None
          else case scanString s1 of
                 None \<Rightarrow> None
               | Some (key, s2) \<Rightarrow>
                   (case skipWs s2 of
                      [] \<Rightarrow> None
                    | k # s3 \<Rightarrow>
                        if byte k \<noteq> 58 \<or> length s \<le> length (skipWs s3) then None
                        else case parseValue d (skipWs s3) of
                               None \<Rightarrow> None
                             | Some (v, t) \<Rightarrow>
                                 (case skipWs t of
                                    [] \<Rightarrow> None
                                  | e # r \<Rightarrow>
                                      if byte e = 125 then Some ([(unquote key, v)], r)
                                      else if byte e = 44 \<and> length (skipWs r) < length s
                                      then map_option (\<lambda>(ms, u). ((unquote key, v) # ms, u))
                                             (parseMembers d (skipWs r))
                                      else None)))"
  by pat_completeness auto
termination
  by (relation "measure (\<lambda>x. case x of Inl (d, s) \<Rightarrow> 2 * length s
      | Inr (Inl (d, s)) \<Rightarrow> 2 * length s + 1 | Inr (Inr (d, s)) \<Rightarrow> 2 * length s + 1)") auto

definition parseJson :: "string \<Rightarrow> json option" where
  "parseJson s =
     (case parseValue 0 (skipWs s) of
        None \<Rightarrow> None
      | Some (v, r) \<Rightarrow> if skipWs r = [] then Some v else None)"

definition json_Valid :: "string \<Rightarrow> bool" where
  "json_Valid s \<longleftrightarrow> parseJson s \<noteq> None"

section \<open>The readers consume what they read\<close>

lemma skipWs_length: "length (skipWs s) \<le> length s"
  by (simp add: skipWs_def length_dropWhile_le)

lemma scanString_length: "scanString s = Some (a, r) \<Longrightarrow> length r < length s"
  by (induction s arbitrary: a rule: scanString.induct)
    (fastforce split: if_splits list.splits)+

lemma scanDigits_length: "scanDigits s = Some (a, r) \<Longrightarrow> length r < length s"
  by (cases s) (auto simp: scanDigits_def split: if_splits intro: le_imp_less_Suc length_dropWhile_le)

lemma scanInt_length: "scanInt s = Some (a, r) \<Longrightarrow> length r < length s"
  by (auto simp: scanInt_def dest: scanDigits_length split: list.splits if_splits)

lemma scanFrac_length: "scanFrac s = Some (a, r) \<Longrightarrow> length r \<le> length s"
  by (auto simp: scanFrac_def dest: scanDigits_length split: list.splits if_splits)

lemma scanExp_length: "scanExp s = Some (a, r) \<Longrightarrow> length r \<le> length s"
  by (auto simp: scanExp_def dest: scanDigits_length split: list.splits if_splits)

lemma scanNumber_length: "scanNumber s = Some (a, r) \<Longrightarrow> length r < length s"
  by (auto simp: scanNumber_def Let_def split: list.splits if_splits option.splits
      dest!: scanInt_length scanFrac_length scanExp_length)

lemma stripPrefix_length: "stripPrefix p s = Some r \<Longrightarrow> p \<noteq> [] \<Longrightarrow> length r < length s"
  by (cases s) (auto simp: stripPrefix_def split: if_splits)

lemma parse_shorter:
  "parseValue d s = Some (v, r) \<Longrightarrow> length r < length s"
  "parseElems d s = Some (vs, r) \<Longrightarrow> length r < length s"
  "parseMembers d s = Some (ms, r) \<Longrightarrow> length r < length s"
proof (induction d s and d s and d s arbitrary: v r and vs r and ms r
    rule: parseValue_parseElems_parseMembers.induct)
  case (1 d)
  then show ?case by simp
next
  case (2 d c cs)
  have ws: "skipWs cs = e # t \<Longrightarrow> length t < length cs" for e t
    using skipWs_length [of cs] by simp
  show ?case
    using 2 ws skipWs_length [of cs]
    by (auto split: if_splits list.splits option.splits simp del: parseElems.simps parseMembers.simps
        dest: scanString_length scanNumber_length stripPrefix_length intro: less_SucI)
      (metis Suc_mono less_trans)+
next
  case (3 d s)
  from "3.prems" obtain v t e r1 where x: "parseValue d s = Some (v, t)" "skipWs t = e # r1"
    by (auto split: option.splits list.splits)
  then have t: "length r1 < length s"
    using "3.IH"(1) [OF x(1)] skipWs_length [of t] by simp
  show ?case
  proof (cases "byte e = 93")
    case True
    with "3.prems" x t show ?thesis by simp
  next
    case False
    with "3.prems" x obtain ws where y: "byte e = 44 \<and> length (skipWs r1) < length s"
      "parseElems d (skipWs r1) = Some (ws, r)"
      by (auto split: if_splits simp del: parseElems.simps simp: parseElems.simps [of d s])
    with "3.IH"(2) [OF x(1) refl x(2) False y] show ?thesis by simp
  qed
next
  case (4 d s)
  from "4.prems" obtain q s1 key s2 k s3 v t e r1 where x: "s = q # s1" "\<not> byte q \<noteq> 34"
      "scanString s1 = Some (key, s2)" "skipWs s2 = k # s3"
      "\<not> (byte k \<noteq> 58 \<or> length s \<le> length (skipWs s3))"
      "parseValue d (skipWs s3) = Some (v, t)" "skipWs t = e # r1"
    by (auto split: option.splits list.splits if_splits)
  then have t: "length r1 < length s"
    using "4.IH"(1) [OF x(1-3) refl x(4,5,6)] skipWs_length [of t] by simp
  show ?case
  proof (cases "byte e = 125")
    case True
    with "4.prems" x t show ?thesis by simp
  next
    case False
    with "4.prems" x obtain ws where y: "byte e = 44 \<and> length (skipWs r1) < length s"
      "parseMembers d (skipWs r1) = Some (ws, r)"
      by (auto split: if_splits simp del: parseMembers.simps simp: parseMembers.simps [of d "q # s1"])
    with "4.IH"(2) [OF x(1-3) refl x(4,5,6) refl x(7) False y] show ?thesis by simp
  qed
qed

end
