(* ===== verification/Metrics.thy ===== *)
theory Metrics
  imports World Json
begin

text \<open>
  The Prometheus counters of \<^verbatim>\<open>internal/observability/observability.go\<close>: every series is a
  name and the values of its labels, the registry is a count per series. Logs are not modelled:
  they are written and never read back.
\<close>

definition EventsReceived :: "string \<Rightarrow> metric" where
  "EventsReceived src = (''events_received_total'', [src])"
definition EventsProcessed :: "string \<Rightarrow> metric" where
  "EventsProcessed src = (''events_processed_total'', [src])"
definition EventsFailed :: "string \<Rightarrow> string \<Rightarrow> metric" where
  "EventsFailed src reason = (''events_failed_total'', [src, reason])"
definition EventsDuplicate :: "string \<Rightarrow> metric" where
  "EventsDuplicate src = (''events_duplicate_total'', [src])"
definition TelemetryReceived :: metric where
  "TelemetryReceived = (''telemetry_received_total'', [])"
definition ProviderRequests :: "string \<Rightarrow> string \<Rightarrow> metric" where
  "ProviderRequests p op = (''provider_requests_total'', [p, op])"
definition ProviderRequestErrors :: "string \<Rightarrow> string \<Rightarrow> string \<Rightarrow> metric" where
  "ProviderRequestErrors p op kind = (''provider_request_errors_total'', [p, op, kind])"
definition OAuthRefreshes :: "string \<Rightarrow> string \<Rightarrow> metric" where
  "OAuthRefreshes p outcome = (''oauth_token_refresh_total'', [p, outcome])"
definition WebhookDuplicates :: "string \<Rightarrow> metric" where
  "WebhookDuplicates p = (''webhook_duplicates_total'', [p])"
definition WebhookRejected :: "string \<Rightarrow> string \<Rightarrow> metric" where
  "WebhookRejected p reason = (''webhook_rejected_total'', [p, reason])"
definition CommandsCreated :: "string \<Rightarrow> metric" where
  "CommandsCreated typ = (''command_delivery_total'', [typ])"
definition CommandTransitions :: "string \<Rightarrow> metric" where
  "CommandTransitions to = (''command_transitions_total'', [to])"
definition CommandFailures :: metric where
  "CommandFailures = (''command_delivery_failures_total'', [])"
definition HTTPDuration :: "string \<Rightarrow> string \<Rightarrow> string \<Rightarrow> metric" where
  "HTTPDuration route verb code = (''http_request_duration_seconds'', [route, verb, code])"

lemmas metric_defs = EventsReceived_def EventsProcessed_def EventsFailed_def EventsDuplicate_def
  TelemetryReceived_def ProviderRequests_def ProviderRequestErrors_def OAuthRefreshes_def WebhookDuplicates_def
  WebhookRejected_def CommandsCreated_def CommandTransitions_def CommandFailures_def HTTPDuration_def

text \<open>How often a series was counted between two states.\<close>

definition counted :: "metric \<Rightarrow> world \<Rightarrow> world \<Rightarrow> int" where
  "counted m w w' = int (w_metrics w' m) - int (w_metrics w m)"

lemma counted_trans: "counted m w w'' = counted m w w' + counted m w' w''"
  by (simp add: counted_def)

lemma counted_refl [simp]: "counted m w w = 0"
  by (simp add: counted_def)

lemma counted_same: "w_metrics w' = w_metrics w \<Longrightarrow> counted m w w' = 0"
  by (simp add: counted_def)

lemma counted_inc: "counted m w (metricInc m' w) = (if m = m' then 1 else 0)"
  by (simp add: counted_def Inc_def)

section \<open>The registry\<close>

text \<open>
  A registry holds series by name with the names of their labels; registering a name twice panics.
  \<^verbatim>\<open>WithLabelValues\<close> panics unless it is given one value for each label and every value is valid
  UTF-8. None is the panic.
\<close>

type_synonym registry = "(string \<times> string list) list"

definition registerSeries :: "string \<times> string list \<Rightarrow> registry \<Rightarrow> registry option" where
  "registerSeries s reg = (if fst s \<in> fst ` set reg then None else Some (reg @ [s]))"

fun registerAll :: "(string \<times> string list) list \<Rightarrow> registry \<Rightarrow> registry option" where
  "registerAll [] reg = Some reg"
| "registerAll (s # ss) reg =
     (case registerSeries s reg of None \<Rightarrow> None | Some reg' \<Rightarrow> registerAll ss reg')"

text \<open>The series of the connector, in the order of the source; those of the Go runtime have names of their own.\<close>

definition connectorSeries :: "(string \<times> string list) list" where
  "connectorSeries =
     [(''events_received_total'', [''source'']),
      (''events_processed_total'', [''source'']),
      (''events_failed_total'', [''source'', ''reason'']),
      (''events_duplicate_total'', [''source'']),
      (''telemetry_received_total'', []),
      (''provider_requests_total'', [''provider'', ''operation'']),
      (''provider_request_errors_total'', [''provider'', ''operation'', ''kind'']),
      (''oauth_token_refresh_total'', [''provider'', ''outcome'']),
      (''webhook_duplicates_total'', [''provider'']),
      (''webhook_rejected_total'', [''provider'', ''reason'']),
      (''command_delivery_total'', [''type'']),
      (''command_transitions_total'', [''to_state'']),
      (''command_delivery_failures_total'', []),
      (''http_request_duration_seconds'', [''route'', ''method'', ''code''])]"

definition NewMetrics :: "registry option" where
  "NewMetrics = registerAll connectorSeries []"

function utf8Valid :: "string \<Rightarrow> bool" where
  "utf8Valid [] = True"
| "utf8Valid (c # cs) =
     (case utf8Len (c # cs) of 0 \<Rightarrow> False | Suc n \<Rightarrow> utf8Valid (drop n cs))"
  by pat_completeness auto
termination by (relation "measure length") auto

declare utf8Valid.simps(2) [simp del]

definition WithLabelValues :: "registry \<Rightarrow> string \<Rightarrow> string list \<Rightarrow> metric option" where
  "WithLabelValues reg name values =
     (case map_of reg name of
        None \<Rightarrow> None
      | Some labels \<Rightarrow>
          if length values = length labels \<and> list_all utf8Valid values then Some (name, values) else None)"

section \<open>Series that can be counted\<close>

lemma utf8Valid_ascii [simp]: "list_all (\<lambda>c. byte c < 128) s \<Longrightarrow> utf8Valid s"
  by (induction s) (simp_all add: utf8Valid.simps(2) utf8Len_def)

lemma NewMetrics_ok: "NewMetrics = Some connectorSeries"
  by (simp add: NewMetrics_def connectorSeries_def registerSeries_def)

text \<open>A series the connector may count: one that \<^verbatim>\<open>WithLabelValues\<close> accepts; nobody counts token refreshes.\<close>

definition admissible :: "metric \<Rightarrow> bool" where
  "admissible m \<longleftrightarrow> WithLabelValues connectorSeries (fst m) (snd m) = Some m \<and> fst m \<noteq> ''oauth_token_refresh_total''"

lemma admissible_simps [simp]:
  "admissible (EventsReceived src) = utf8Valid src" "admissible (EventsProcessed src) = utf8Valid src"
  "admissible (EventsFailed src reason) = (utf8Valid src \<and> utf8Valid reason)"
  "admissible (EventsDuplicate src) = utf8Valid src" "admissible TelemetryReceived"
  "admissible (ProviderRequests p op) = (utf8Valid p \<and> utf8Valid op)"
  "admissible (ProviderRequestErrors p op kind) = (utf8Valid p \<and> utf8Valid op \<and> utf8Valid kind)"
  "\<not> admissible (OAuthRefreshes p outcome)"
  "admissible (WebhookDuplicates p) = utf8Valid p"
  "admissible (WebhookRejected p reason) = (utf8Valid p \<and> utf8Valid reason)"
  "admissible (CommandsCreated typ) = utf8Valid typ" "admissible (CommandTransitions to) = utf8Valid to"
  "admissible CommandFailures"
  "admissible (HTTPDuration route verb code) = (utf8Valid route \<and> utf8Valid verb \<and> utf8Valid code)"
  by (auto simp: admissible_def WithLabelValues_def connectorSeries_def metric_defs)

end
