(* ===== verification/Events.thy ===== *)
theory Events
  imports CommandResults Metrics "HOL-Library.Sublist"
begin

text \<open>
  The event pipeline (\<^verbatim>\<open>internal/events/events.go\<close>): validation, idempotent persistence,
  fan-out and counting. The Go interface \<^verbatim>\<open>events.Store\<close> is a record of operations; the
  contract the service needs from it is the locale \<open>event_store_contract\<close>, which the methods
  of \<^verbatim>\<open>storage.Store\<close> satisfy.
\<close>

section \<open>The fan-out hub\<close>

text \<open>
  A subscriber channel holds at most 16 events. A subscription is the number of its channel.
  Sending on a closed channel, or closing one twice, is a panic in Go and sets \<open>h_panic\<close>.
\<close>

definition subscriberBuffer :: nat where "subscriberBuffer = 16"

definition empty_hub :: hub where
  "empty_hub = \<lparr>h_chans = [], h_subs = [], h_panic = False\<rparr>"

definition hubSubscribe :: "hub \<Rightarrow> nat \<times> hub" where
  "hubSubscribe h =
     (length (h_chans h),
      h\<lparr>h_chans := h_chans h @ [\<lparr>ch_buf = [], ch_closed = False\<rparr>],
        h_subs := h_subs h @ [length (h_chans h)]\<rparr>)"

definition closeChan :: "nat \<Rightarrow> hub \<Rightarrow> hub" where
  "closeChan i h =
     (if ch_closed (h_chans h ! i) then h\<lparr>h_panic := True\<rparr>
      else h\<lparr>h_chans := (h_chans h)[i := (h_chans h ! i)\<lparr>ch_closed := True\<rparr>]\<rparr>)"

definition hubCancel :: "nat \<Rightarrow> hub \<Rightarrow> hub" where
  "hubCancel i h =
     (if i \<in> set (h_subs h) then closeChan i (h\<lparr>h_subs := filter (\<lambda>j. j \<noteq> i) (h_subs h)\<rparr>) else h)"

definition trySend :: "HazardEvent \<Rightarrow> nat \<Rightarrow> hub \<Rightarrow> hub" where
  "trySend e i h =
     (let c = h_chans h ! i
      in if ch_closed c then h\<lparr>h_panic := True\<rparr>
         else if length (ch_buf c) < subscriberBuffer
         then h\<lparr>h_chans := (h_chans h)[i := c\<lparr>ch_buf := ch_buf c @ [e]\<rparr>]\<rparr>
         else h)"

text \<open>\<^verbatim>\<open>range\<close> over a map visits the subscribers in some order; each send concerns one channel only.\<close>

definition hubPublish :: "HazardEvent \<Rightarrow> hub \<Rightarrow> hub" where
  "hubPublish e h = fold (trySend e) (h_subs h) h"

text \<open>The receiver's side: the oldest buffered event, or the end of a closed channel.\<close>

datatype recv = Received HazardEvent | ChanClosed | WouldBlock

definition hubReceive :: "nat \<Rightarrow> hub \<Rightarrow> recv \<times> hub" where
  "hubReceive i h =
     (case ch_buf (h_chans h ! i) of
        e # es \<Rightarrow> (Received e, h\<lparr>h_chans := (h_chans h)[i := (h_chans h ! i)\<lparr>ch_buf := es\<rparr>]\<rparr>)
      | [] \<Rightarrow> (if ch_closed (h_chans h ! i) then ChanClosed else WouldBlock, h))"

definition Subscribe :: "world \<Rightarrow> nat \<times> world" where
  "Subscribe w = (fst (hubSubscribe (w_hub w)), w\<lparr>w_hub := snd (hubSubscribe (w_hub w))\<rparr>)"

definition cancelSubscription :: "nat \<Rightarrow> world \<Rightarrow> world" where
  "cancelSubscription i w = w\<lparr>w_hub := hubCancel i (w_hub w)\<rparr>"

definition publish :: "HazardEvent \<Rightarrow> world \<Rightarrow> world" where
  "publish e w = w\<lparr>w_hub := hubPublish e (w_hub w)\<rparr>"

section \<open>The service\<close>

record event_store =
  es_InsertHazardEvent :: "HazardEvent \<Rightarrow> world \<Rightarrow> HazardEvent res \<times> world"
  es_UpsertDevice :: "Device \<Rightarrow> world \<Rightarrow> string res \<times> world"
  es_InsertDeadLetter :: "ProviderName \<Rightarrow> message \<Rightarrow> string \<Rightarrow> world \<Rightarrow> unit res \<times> world"

definition storage_event_store :: event_store where
  "storage_event_store = \<lparr>es_InsertHazardEvent = InsertHazardEvent, es_UpsertDevice = UpsertDevice,
     es_InsertDeadLetter = InsertDeadLetter\<rparr>"

definition Accept :: "event_store \<Rightarrow> HazardEvent \<Rightarrow> world \<Rightarrow> bool res \<times> world" where
  "Accept st e w =
     (let src = e_Source e;
          w1 = metricInc (EventsReceived src) w
      in case Validate e of
           Some err \<Rightarrow> (Inl (ErrRejected err), metricInc (EventsFailed src ''validation'') w1)
         | None \<Rightarrow>
             (case es_InsertHazardEvent st e w1 of
                (Inl err, w2) \<Rightarrow>
                  if errIs err ErrDuplicate then (Inr True, metricInc (EventsDuplicate src) w2)
                  else (Inl err, metricInc (EventsFailed src ''storage'') w2)
              | (Inr stored, w2) \<Rightarrow>
                  (Inr False, publish stored (metricInc (EventsProcessed src) w2))))"

record NormalizedEvent =
  ne_ExternalDeviceID :: string
  ne_Event :: HazardEvent

definition AcceptFromProvider :: "event_store \<Rightarrow> NormalizedEvent \<Rightarrow> world \<Rightarrow> bool res \<times> world" where
  "AcceptFromProvider st ne w =
     (case es_UpsertDevice st (zeroDevice\<lparr>d_ExternalID := ne_ExternalDeviceID ne,
          d_Provider := e_Source (ne_Event ne), d_Status := DeviceUnknown,
          d_LastSeenAt := e_ConfirmedAt (ne_Event ne)\<rparr>) w of
        (Inl err, w1) \<Rightarrow>
          (Inl (Wrapf ''resolving device %q: %w'' [AStr (ne_ExternalDeviceID ne)] err),
           metricInc (EventsFailed (e_Source (ne_Event ne)) ''device_resolution'') w1)
      | (Inr deviceID, w1) \<Rightarrow> Accept st ((ne_Event ne)\<lparr>e_DeviceID := deviceID\<rparr>) w1)"

definition DeadLetter :: "event_store \<Rightarrow> ProviderName \<Rightarrow> message \<Rightarrow> string \<Rightarrow> world \<Rightarrow> world" where
  "DeadLetter st source reason payload w =
     snd (es_InsertDeadLetter st source reason payload
            (metricInc (EventsFailed source ''dead_letter'') w))"

section \<open>Properties of the hub\<close>

definition hub_inv :: "hub \<Rightarrow> bool" where
  "hub_inv h \<longleftrightarrow>
     \<not> h_panic h \<and> distinct (h_subs h) \<and>
     (\<forall>i\<in>set (h_subs h). i < length (h_chans h) \<and> \<not> ch_closed (h_chans h ! i)) \<and>
     (\<forall>c\<in>set (h_chans h). length (ch_buf c) \<le> subscriberBuffer)"

lemma hub_inv_empty: "hub_inv empty_hub"
  by (simp add: hub_inv_def empty_hub_def)

lemma hubSubscribe_inv: "hub_inv h \<Longrightarrow> hub_inv (snd (hubSubscribe h))"
  by (auto simp: hub_inv_def hubSubscribe_def nth_append subscriberBuffer_def)

lemma hub_inv_chan:
  assumes "hub_inv h" "i < length (h_chans h)" "length (ch_buf c) \<le> subscriberBuffer"
    "i \<in> set (h_subs h) \<Longrightarrow> \<not> ch_closed c"
  shows "hub_inv (h\<lparr>h_chans := (h_chans h)[i := c]\<rparr>)"
  using assms by (auto simp: hub_inv_def nth_list_update dest!: set_update_subset_insert [THEN subsetD])

lemma hubCancel_inv: "hub_inv h \<Longrightarrow> hub_inv (hubCancel i h)"
proof (cases "i \<in> set (h_subs h)")
  case True
  assume inv: "hub_inv h"
  let ?h = "h\<lparr>h_subs := filter (\<lambda>j. j \<noteq> i) (h_subs h)\<rparr>"
  have "hub_inv ?h" "i < length (h_chans ?h)" "length (ch_buf (h_chans ?h ! i)) \<le> subscriberBuffer"
      "\<not> ch_closed (h_chans ?h ! i)"
    using inv True by (auto simp: hub_inv_def)
  then have "hub_inv (closeChan i ?h)"
    using hub_inv_chan [of ?h i "(h_chans h ! i)\<lparr>ch_closed := True\<rparr>"]
    by (simp add: closeChan_def)
  with True show ?thesis by (simp add: hubCancel_def)
qed (simp add: hubCancel_def)

lemma trySend_frame [simp]: "h_subs (trySend e i h) = h_subs h"
  "length (h_chans (trySend e i h)) = length (h_chans h)"
  by (simp_all add: trySend_def Let_def)

lemma trySend_inv: "hub_inv h \<Longrightarrow> i \<in> set (h_subs h) \<Longrightarrow> hub_inv (trySend e i h)"
proof -
  assume inv: "hub_inv h" "i \<in> set (h_subs h)"
  then have "i < length (h_chans h)" "\<not> ch_closed (h_chans h ! i)" by (auto simp: hub_inv_def)
  then show ?thesis
    using inv(1) hub_inv_chan [OF inv(1), of i "(h_chans h ! i)\<lparr>ch_buf := ch_buf (h_chans h ! i) @ [e]\<rparr>"]
    by (auto simp: trySend_def Let_def)
qed

lemma sends_inv: "hub_inv h \<Longrightarrow> set is \<subseteq> set (h_subs h) \<Longrightarrow> hub_inv (fold (trySend e) is h)"
  by (induction "is" arbitrary: h) (auto simp: trySend_inv)

lemma hubPublish_inv: "hub_inv h \<Longrightarrow> hub_inv (hubPublish e h)"
  unfolding hubPublish_def by (rule sends_inv) auto

lemma hubReceive_inv: "hub_inv h \<Longrightarrow> i < length (h_chans h) \<Longrightarrow> hub_inv (snd (hubReceive i h))"
proof (cases "ch_buf (h_chans h ! i)")
  case (Cons e es)
  assume inv: "hub_inv h" "i < length (h_chans h)"
  then have "length es \<le> subscriberBuffer" using Cons by (auto simp: hub_inv_def dest!: nth_mem)
  then show ?thesis
    using inv hub_inv_chan [OF inv, of "(h_chans h ! i)\<lparr>ch_buf := es\<rparr>"] Cons
    by (auto simp: hubReceive_def hub_inv_def)
qed (simp add: hubReceive_def)

section \<open>What a subscriber sees\<close>

text \<open>
  The hub with the history of published events. A move is one call of the service or of a
  stream; \<open>sees h past i\<close> says that what channel \<open>i\<close> holds was published, in that order.
\<close>

inductive hub_move :: "hub \<times> HazardEvent list \<Rightarrow> hub \<times> HazardEvent list \<Rightarrow> bool" where
  subscribe: "hub_move (h, past) (snd (hubSubscribe h), past)"
| cancel: "hub_move (h, past) (hubCancel i h, past)"
| publish: "hub_move (h, past) (hubPublish e h, past @ [e])"
| receive: "i < length (h_chans h) \<Longrightarrow> hub_move (h, past) (snd (hubReceive i h), past)"

definition buffers_seen :: "hub \<Rightarrow> HazardEvent list \<Rightarrow> bool" where
  "buffers_seen h past \<longleftrightarrow> (\<forall>c\<in>set (h_chans h). subseq (ch_buf c) past)"

lemma buffers_seen_update:
  "buffers_seen h past \<Longrightarrow> subseq (ch_buf c) past \<Longrightarrow>
   buffers_seen (h\<lparr>h_chans := (h_chans h)[i := c]\<rparr>) past"
  by (auto simp: buffers_seen_def dest!: set_update_subset_insert [THEN subsetD])

text \<open>
  While \<open>e\<close> is being sent, a channel has seen the past, or the past and \<open>e\<close> when it was its turn.
\<close>

lemma sends_other: "i \<notin> set is \<Longrightarrow> h_chans (fold (trySend e) is h) ! i = h_chans h ! i"
  by (induction "is" arbitrary: h) (auto simp: trySend_def Let_def)

lemma trySend_chan:
  assumes "\<not> ch_closed (h_chans h ! i)" "i < length (h_chans h)"
  shows "h_chans (trySend e i h) ! i =
    (if length (ch_buf (h_chans h ! i)) < subscriberBuffer
     then (h_chans h ! i)\<lparr>ch_buf := ch_buf (h_chans h ! i) @ [e]\<rparr> else h_chans h ! i)"
  using assms by (simp add: trySend_def Let_def)

lemma sends_length [simp]: "length (h_chans (fold (trySend e) is h)) = length (h_chans h)"
  by (induction "is" arbitrary: h) simp_all

lemma sends_chan:
  assumes "distinct is" "\<And>j. j \<in> set is \<Longrightarrow> j < length (h_chans h) \<and> \<not> ch_closed (h_chans h ! j)"
    "i < length (h_chans h)"
  shows "h_chans (fold (trySend e) is h) ! i =
    (if i \<in> set is \<and> length (ch_buf (h_chans h ! i)) < subscriberBuffer
     then (h_chans h ! i)\<lparr>ch_buf := ch_buf (h_chans h ! i) @ [e]\<rparr> else h_chans h ! i)"
  using assms
proof (induction "is" arbitrary: h)
  case (Cons j js)
  have other: "h_chans (trySend e j h) ! k = h_chans h ! k" if "k \<noteq> j" for k
    using sends_other [of k "[j]" e h] that by simp
  show ?case
  proof (cases "i = j")
    case True
    with Cons.prems have "h_chans (fold (trySend e) js (trySend e j h)) ! i = h_chans (trySend e i h) ! i"
      by (simp add: sends_other)
    then show ?thesis using True Cons.prems trySend_chan [of h j e] by simp
  next
    case False
    have "h_chans (fold (trySend e) js (trySend e j h)) ! i =
      (if i \<in> set js \<and> length (ch_buf (h_chans (trySend e j h) ! i)) < subscriberBuffer
       then (h_chans (trySend e j h) ! i)\<lparr>ch_buf := ch_buf (h_chans (trySend e j h) ! i) @ [e]\<rparr>
       else h_chans (trySend e j h) ! i)"
      by (rule Cons.IH) (use Cons.prems other in \<open>auto, metis\<close>)
    with False other show ?thesis by simp
  qed
qed simp

lemma hubPublish_chan:
  assumes "hub_inv h" "i < length (h_chans h)"
  shows "h_chans (hubPublish e h) ! i =
    (if i \<in> set (h_subs h) \<and> length (ch_buf (h_chans h ! i)) < subscriberBuffer
     then (h_chans h ! i)\<lparr>ch_buf := ch_buf (h_chans h ! i) @ [e]\<rparr> else h_chans h ! i)"
  unfolding hubPublish_def by (rule sends_chan) (use assms in \<open>auto simp: hub_inv_def\<close>)

lemma subseq_snoc: "subseq xs ys \<Longrightarrow> subseq (xs @ [x]) (ys @ [x])"
  by (simp add: list_emb_append_mono)

lemma buffers_seen_publish:
  assumes "hub_inv h" "buffers_seen h past"
  shows "buffers_seen (hubPublish e h) (past @ [e])"
  unfolding buffers_seen_def
proof
  fix c assume "c \<in> set (h_chans (hubPublish e h))"
  then obtain i where i: "i < length (h_chans h)" "c = h_chans (hubPublish e h) ! i"
    by (auto simp: in_set_conv_nth hubPublish_def)
  then have "subseq (ch_buf (h_chans h ! i)) past" using assms(2) by (simp add: buffers_seen_def)
  then show "subseq (ch_buf c) (past @ [e])"
    using i hubPublish_chan [OF assms(1) i(1), of e]
    by (auto simp: subseq_snoc intro: subseq_order.order_trans)
qed

lemma buffers_seen_receive:
  "buffers_seen h past \<Longrightarrow> i < length (h_chans h) \<Longrightarrow> buffers_seen (snd (hubReceive i h)) past"
proof (cases "ch_buf (h_chans h ! i)")
  case (Cons e es)
  assume seen: "buffers_seen h past" "i < length (h_chans h)"
  then have "subseq (ch_buf (h_chans h ! i)) past" by (simp add: buffers_seen_def)
  then have "subseq es past" unfolding Cons by (rule subseq_Cons')
  then show ?thesis
    using buffers_seen_update [OF seen(1), of "(h_chans h ! i)\<lparr>ch_buf := es\<rparr>" i] Cons
    by (simp add: hubReceive_def)
qed (simp add: hubReceive_def)

lemma hub_move_step:
  assumes "hub_move x y" "hub_inv (fst x)" "buffers_seen (fst x) (snd x)"
  shows "hub_inv (fst y) \<and> buffers_seen (fst y) (snd y)"
  using assms
proof (induction rule: hub_move.induct)
  case (cancel h past i)
  then show ?case
    by (auto simp: hubCancel_inv)
      (auto simp: hubCancel_def closeChan_def buffers_seen_def
        dest!: set_update_subset_insert [THEN subsetD], auto simp: hub_inv_def dest!: nth_mem)
qed (auto simp: hubSubscribe_inv hubPublish_inv hubReceive_inv buffers_seen_publish
    buffers_seen_receive, auto simp: hubSubscribe_def buffers_seen_def)

text \<open>The fan-out is safe. Whatever streams subscribe, read and cancel while events are
  published, in any order and with repeated cancels, the hub never sends on or closes a closed
  channel, no buffer exceeds its 16 places, and what a subscriber still has to read is a
  subsequence, in order, of what was published.\<close>

theorem hub_reachable_safe:
  assumes "hub_move\<^sup>*\<^sup>* (empty_hub, []) (h, past)"
  shows "\<not> h_panic h \<and>
    (\<forall>c. c \<in> set (h_chans h) \<longrightarrow> length (ch_buf c) \<le> 16 \<and> subseq (ch_buf c) past)"
proof -
  have "hub_inv (fst (h, past)) \<and> buffers_seen (fst (h, past)) (snd (h, past))"
    using assms
  proof (induction rule: rtranclp_induct)
    case base
    show ?case by (simp add: hub_inv_empty) (simp add: buffers_seen_def empty_hub_def)
  next
    case (step y z)
    then show ?case using hub_move_step by blast
  qed
  then show ?thesis by (auto simp: hub_inv_def buffers_seen_def subscriberBuffer_def)
qed

lemma hub_reachable_safe_witness:
  "let h = hubCancel 0 (hubPublish (demo_event ''k'') (snd (hubSubscribe empty_hub)))
   in \<not> h_panic h \<and>
     (\<forall>c. c \<in> set (h_chans h) \<longrightarrow> length (ch_buf c) \<le> 16 \<and> subseq (ch_buf c) [demo_event ''k''])"
  unfolding Let_def
proof (rule hub_reachable_safe)
  have "hub_move (empty_hub, []) (snd (hubSubscribe empty_hub), [])" by (rule subscribe)
  moreover have "hub_move (snd (hubSubscribe empty_hub), [])
      (hubPublish (demo_event ''k'') (snd (hubSubscribe empty_hub)), [demo_event ''k''])"
    using hub_move.publish [of "snd (hubSubscribe empty_hub)" "[]" "demo_event ''k''"] by simp
  moreover have "hub_move (hubPublish (demo_event ''k'') (snd (hubSubscribe empty_hub)), [demo_event ''k''])
      (hubCancel 0 (hubPublish (demo_event ''k'') (snd (hubSubscribe empty_hub))), [demo_event ''k''])"
    by (rule cancel)
  ultimately show "hub_move\<^sup>*\<^sup>* (empty_hub, [])
      (hubCancel 0 (hubPublish (demo_event ''k'') (snd (hubSubscribe empty_hub))), [demo_event ''k''])"
    by (meson converse_rtranclp_into_rtranclp rtranclp.rtrancl_refl)
qed

end
