(* ===== verification/EventPipeline.thy ===== *)
theory EventPipeline
  imports Events
begin

text \<open>
  The contract between the event service and its store, the lemmas of the service under that
  contract, and the properties of the pipeline on the methods of \<^verbatim>\<open>storage.Store\<close>.
\<close>

section \<open>The contract\<close>

locale event_store_contract =
  fixes st :: event_store
  assumes insert_effect: "store_effect w (snd (es_InsertHazardEvent st e w))"
    and insert_stored: "es_InsertHazardEvent st e w = (Inr a, w') \<Longrightarrow>
      a = e\<lparr>e_ID := e_ID a\<rparr> \<and> hazard_key e \<notin> hazard_keys (w_db w) \<and> hazard_key e \<in> hazard_keys (w_db w')"
    and insert_duplicate: "es_InsertHazardEvent st e w = (Inl err, w') \<Longrightarrow> errIs err ErrDuplicate \<Longrightarrow>
      hazard_key e \<in> hazard_keys (w_db w) \<and> w_db w' = w_db w"
    and upsert_effect: "store_effect w (snd (es_UpsertDevice st d w))"
    and dead_effect: "store_effect w (snd (es_InsertDeadLetter st p why body w))"
begin

lemma insert_frame:
  "es_InsertHazardEvent st e w = (r, w') \<Longrightarrow>
   w_metrics w' = w_metrics w \<and> w_hub w' = w_hub w \<and> db_steps (w_db w) (w_db w')"
  using store_effectD [OF insert_effect [of w e]] by simp

text \<open>The four ways a call of Accept ends.\<close>

lemma Accept_cases:
  assumes "Accept st e w = (r, w')"
  obtains (rejected) err where "\<not> valid_event e" "r = Inl (ErrRejected err)" "Validate e = Some err"
      "w' = metricInc (EventsFailed (e_Source e) ''validation'') (metricInc (EventsReceived (e_Source e)) w)"
  | (duplicate) w2 where "valid_event e" "r = Inr True" "hazard_key e \<in> hazard_keys (w_db w)"
      "w' = metricInc (EventsDuplicate (e_Source e)) w2" "w_db w2 = w_db w" "w_hub w2 = w_hub w"
      "w_metrics w2 = Inc (EventsReceived (e_Source e)) (w_metrics w)"
  | (failed) err w2 where "valid_event e" "r = Inl err" "\<not> errIs err ErrDuplicate"
      "w' = metricInc (EventsFailed (e_Source e) ''storage'') w2"
      "db_steps (w_db w) (w_db w2)" "w_hub w2 = w_hub w"
      "w_metrics w2 = Inc (EventsReceived (e_Source e)) (w_metrics w)"
  | (stored) a w2 where "valid_event e" "r = Inr False" "a = e\<lparr>e_ID := e_ID a\<rparr>"
      "hazard_key e \<notin> hazard_keys (w_db w)" "hazard_key e \<in> hazard_keys (w_db w2)"
      "w' = publish a (metricInc (EventsProcessed (e_Source e)) w2)"
      "db_steps (w_db w) (w_db w2)" "w_hub w2 = w_hub w"
      "w_metrics w2 = Inc (EventsReceived (e_Source e)) (w_metrics w)"
proof (cases "Validate e")
  case (Some err)
  with assms show ?thesis
    using rejected [of err] Validate_None_iff [of e] by (auto simp: Accept_def Let_def)
next
  case None
  then have valid: "valid_event e" by (simp add: Validate_None_iff)
  obtain x w2 where i: "es_InsertHazardEvent st e (metricInc (EventsReceived (e_Source e)) w) = (x, w2)"
    by fastforce
  note f = insert_frame [OF i]
  show ?thesis
  proof (cases x)
    case (Inl err)
    show ?thesis
    proof (cases "errIs err ErrDuplicate")
      case True
      with insert_duplicate [OF i [unfolded Inl]] assms f valid None i Inl show ?thesis
        by (intro duplicate [of w2]) (auto simp: Accept_def Let_def)
    next
      case False
      with assms f valid None i Inl show ?thesis
        by (intro failed [of err w2]) (auto simp: Accept_def Let_def)
    qed
  next
    case (Inr a)
    with insert_stored [OF i [unfolded Inr]] assms f valid None i show ?thesis
      by (intro stored [of a w2]) (auto simp: Accept_def Let_def)
  qed
qed

lemma publish_simps [simp]:
  "w_db (publish e w) = w_db w" "w_metrics (publish e w) = w_metrics w"
  "w_hub (publish e w) = hubPublish e (w_hub w)"
  by (simp_all add: publish_def)

lemma Accept_steps: "Accept st e w = (r, w') \<Longrightarrow> db_steps (w_db w) (w_db w')"
  by (erule Accept_cases) simp_all

lemma Accept_counts:
  assumes "Accept st e w = (r, w')"
  shows "counted (EventsReceived src) w w' = (if src = e_Source e then 1 else 0)"
    "counted (EventsProcessed src) w w' = (if src = e_Source e \<and> r = Inr False then 1 else 0)"
    "counted (EventsDuplicate src) w w' = (if src = e_Source e \<and> r = Inr True then 1 else 0)"
    "counted (EventsFailed src ''validation'') w w' + counted (EventsFailed src ''storage'') w w' =
      (if src = e_Source e \<and> isl r then 1 else 0)"
  using assms
  by (cases rule: Accept_cases; auto simp: counted_def Inc_def metric_defs)+

lemma Accept_hub:
  assumes "Accept st e w = (r, w')"
  shows "if r = Inr False then \<exists>uid. w_hub w' = hubPublish (e\<lparr>e_ID := uid\<rparr>) (w_hub w)
    else w_hub w' = w_hub w"
  using assms
proof (cases rule: Accept_cases)
  case (stored a w2)
  then have "w_hub w' = hubPublish (e\<lparr>e_ID := e_ID a\<rparr>) (w_hub w)" by simp
  then show ?thesis using stored(2) by auto
qed auto

lemma Accept_inv: "Accept st e w = (r, w') \<Longrightarrow> db_inv (w_db w) \<Longrightarrow> db_inv (w_db w')"
  using Accept_steps db_steps_inv by blast

end

interpretation storage: event_store_contract storage_event_store
proof unfold_locales
  fix w e a w'
  assume "es_InsertHazardEvent storage_event_store e w = (Inr a, w')"
  then have "InsertHazardEvent e w = (Inr a, w')" by (simp add: storage_event_store_def)
  then obtain now db' where g: "hazard_gate (w_pg w) (a, now) (w_db w) = Inr (Suc 0, db')" "w_db w' = db'"
    "hazard_key a = hazard_key e" "a = e\<lparr>e_ID := e_ID a\<rparr>" by (rule InsertHazardEvent_Inr)
  from hazards.admitted [OF g(1) _ refl] g
  show "a = e\<lparr>e_ID := e_ID a\<rparr> \<and> hazard_key e \<notin> hazard_keys (w_db w) \<and> hazard_key e \<in> hazard_keys (w_db w')"
    by simp
qed (auto simp: storage_event_store_def intro: steps_intros dest: InsertHazardEvent_duplicate)

section \<open>Runs of the pipeline\<close>

text \<open>
  A run of the pipeline: calls of Accept, with anything the statements of other handlers do in
  between. The trace lists the events offered and the answers given.
\<close>

inductive accept_run ::
  "event_store \<Rightarrow> world \<Rightarrow> (HazardEvent \<times> bool res) list \<Rightarrow> world \<Rightarrow> bool" for st w where
  start: "accept_run st w [] w"
| others: "accept_run st w t w1 \<Longrightarrow> db_steps (w_db w1) (w_db w2) \<Longrightarrow> accept_run st w t w2"
| call: "accept_run st w t w1 \<Longrightarrow> Accept st e w1 = (r, w2) \<Longrightarrow> accept_run st w (t @ [(e, r)]) w2"

definition accepted_new :: "ProviderName \<times> string \<Rightarrow> (HazardEvent \<times> bool res) list \<Rightarrow> nat" where
  "accepted_new k t = length (filter (\<lambda>(e, r). hazard_key e = k \<and> r = Inr False) t)"

definition acknowledged :: "ProviderName \<times> string \<Rightarrow> (HazardEvent \<times> bool res) list \<Rightarrow> bool" where
  "acknowledged k t \<longleftrightarrow> (\<exists>e b. (e, Inr b) \<in> set t \<and> hazard_key e = k)"

context event_store_contract
begin

lemma db_steps_hazard_keys: "db_steps db db' \<Longrightarrow> hazard_keys db \<subseteq> hazard_keys db'"
  by (rule hazards.steps_keep)

lemma Accept_answers:
  assumes "Accept st e w = (r, w')"
  shows "r = Inr False \<Longrightarrow> hazard_key e \<notin> hazard_keys (w_db w)"
    "r = Inr b \<Longrightarrow> hazard_key e \<in> hazard_keys (w_db w')"
  using assms by (cases rule: Accept_cases; auto)+

lemma Accept_known:
  assumes "Accept st e w = (r, w')"
  shows "r = Inr True \<Longrightarrow> hazard_key e \<in> hazard_keys (w_db w)"
  using assms by (cases rule: Accept_cases; auto)

lemma run_once:
  assumes "accept_run st w t w'"
  shows "hazard_keys (w_db w) \<subseteq> hazard_keys (w_db w') \<and>
    accepted_new k t + (if k \<in> hazard_keys (w_db w) then 1 else 0) \<le>
      (if k \<in> hazard_keys (w_db w') then 1 else 0) \<and>
    (acknowledged k t \<longrightarrow> k \<in> hazard_keys (w_db w'))"
  using assms
proof induction
  case start
  show ?case by (simp add: accepted_new_def acknowledged_def)
next
  case (others t w1 w2)
  then show ?case using db_steps_hazard_keys [OF others.hyps(2)] by (auto split: if_splits)
next
  case (call t w1 e r w2)
  have keys: "hazard_keys (w_db w1) \<subseteq> hazard_keys (w_db w2)"
    using db_steps_hazard_keys [OF Accept_steps [OF call.hyps(2)]] .
  have "accepted_new k (t @ [(e, r)]) =
      accepted_new k t + (if hazard_key e = k \<and> r = Inr False then 1 else 0)"
    by (simp add: accepted_new_def)
  moreover have "acknowledged k (t @ [(e, r)]) \<longleftrightarrow>
      acknowledged k t \<or> (\<exists>b. r = Inr b) \<and> hazard_key e = k"
    by (auto simp: acknowledged_def)
  ultimately show ?case
    using call.IH keys Accept_answers [OF call.hyps(2)] by (auto split: if_splits)
qed

end

text \<open>C19: the pipeline accepts an event exactly once. In any run of Accept calls, whatever other
  handlers' statements happen between them and whichever statements fail in the driver, at most one
  call per source and dedup key answers "new", none does if the event was stored before the run, and
  whenever a call has answered with success the event is in the database at the end.\<close>

theorem pipeline_exactly_once:
  assumes "accept_run storage_event_store w t w'"
  shows "accepted_new k t \<le> (if k \<in> hazard_keys (w_db w) then 0 else 1) \<and>
    (if acknowledged k t then k \<in> hazard_keys (w_db w') else True)"
  using storage.run_once [OF assms, of k] by (auto split: if_splits)

lemma pipeline_exactly_once_witness:
  "let (r1, w1) = Accept storage_event_store (demo_event ''k'') (calm (demo_db []));
       (r2, w2) = Accept storage_event_store (demo_event ''k'') w1;
       k = (ProviderGuardianEdge, ''k'')
   in accepted_new k [(demo_event ''k'', r1), (demo_event ''k'', r2)] \<le>
        (if k \<in> hazard_keys (demo_db []) then 0 else 1) \<and>
      (if acknowledged k [(demo_event ''k'', r1), (demo_event ''k'', r2)]
       then k \<in> hazard_keys (w_db w2) else True)"
proof -
  let ?e = "demo_event ''k''"
  obtain r1 w1 where a: "Accept storage_event_store ?e (calm (demo_db [])) = (r1, w1)" by fastforce
  obtain r2 w2 where b: "Accept storage_event_store ?e w1 = (r2, w2)" by fastforce
  have "accept_run storage_event_store (calm (demo_db [])) ([(?e, r1)] @ [(?e, r2)]) w2"
    using accept_run.call [OF accept_run.call [OF accept_run.start a, simplified] b] by simp
  from pipeline_exactly_once [OF this, of "(ProviderGuardianEdge, ''k'')"]
  show ?thesis by (simp add: a b)
qed

text \<open>The pipeline counts honestly. Every call of Accept counts its source once as received
  and exactly once among processed, duplicate, and failed (validation or storage), the one its
  answer says, and counts no other source.\<close>

theorem Accept_accounting:
  "case Accept storage_event_store e w of (r, w') \<Rightarrow>
     counted (EventsReceived src) w w' = (if src = e_Source e then 1 else 0) \<and>
     counted (EventsProcessed src) w w' = (if src = e_Source e \<and> r = Inr False then 1 else 0) \<and>
     counted (EventsDuplicate src) w w' = (if src = e_Source e \<and> r = Inr True then 1 else 0) \<and>
     counted (EventsFailed src ''validation'') w w' + counted (EventsFailed src ''storage'') w w' =
       (if src = e_Source e \<and> isl r then 1 else 0)"
  by (simp add: storage.Accept_counts split: prod.split)


end
