(* ===== verification/Commands.thy ===== *)
theory Commands
  imports CommandResults Metrics Json
begin

text \<open>
  The command service (\<^verbatim>\<open>internal/commands/commands.go\<close>): creation with validation and
  provider dispatch, polling, results and the reaper. The Go interface \<^verbatim>\<open>commands.Store\<close> is
  a record of operations; a \<^verbatim>\<open>provider.CommandSender\<close> is its \<^verbatim>\<open>SendCommand\<close> method.
\<close>

record command_store =
  cs_GetDevice :: "string \<Rightarrow> world \<Rightarrow> Device res \<times> world"
  cs_FindDeviceByExternalID :: "ProviderName \<Rightarrow> string \<Rightarrow> world \<Rightarrow> Device res \<times> world"
  cs_CreateCommand :: "Command \<Rightarrow> world \<Rightarrow> create_outcome \<times> world"
  cs_GetCommand :: "string \<Rightarrow> world \<Rightarrow> Command res \<times> world"
  cs_FetchPendingCommands :: "string \<Rightarrow> int \<Rightarrow> world \<Rightarrow> Command list res \<times> world"
  cs_TransitionCommand :: "string \<Rightarrow> CommandState \<Rightarrow> message \<Rightarrow> world \<Rightarrow> Command res \<times> world"
  cs_ExpireCommands :: "world \<Rightarrow> nat res \<times> world"

definition storage_command_store :: command_store where
  "storage_command_store = \<lparr>cs_GetDevice = GetDevice,
     cs_FindDeviceByExternalID = FindDeviceByExternalID, cs_CreateCommand = CreateCommand,
     cs_GetCommand = GetCommand, cs_FetchPendingCommands = FetchPendingCommands,
     cs_TransitionCommand = TransitionCommand, cs_ExpireCommands = ExpireCommands\<rparr>"

type_synonym command_sender =
  "string \<Rightarrow> Command \<Rightarrow> world \<Rightarrow> (CommandState \<times> message) res \<times> world"

record command_service =
  sv_store :: command_store
  sv_ttl :: Duration
  sv_senders :: "ProviderName \<Rightarrow> command_sender option"

text \<open>\<^verbatim>\<open>dispatch\<close>: the adapter's answer becomes the state of the command.\<close>

definition dispatch ::
  "command_service \<Rightarrow> command_sender \<Rightarrow> Device \<Rightarrow> Command \<Rightarrow> world \<Rightarrow> Command res \<times> world" where
  "dispatch s sender device cmd w =
     (case sender (d_ExternalID device) cmd w of
        (Inl err, w1) \<Rightarrow>
          (case cs_TransitionCommand (sv_store s) (c_ID cmd) CommandFailed (ErrText err) w1 of
             (Inl terr, w2) \<Rightarrow> (Inl terr, w2)
           | (Inr failed, w2) \<Rightarrow>
               (Inr failed, metricInc CommandFailures (metricInc (CommandTransitions CommandFailed) w2)))
      | (Inr (state, msg), w1) \<Rightarrow>
          (case cs_TransitionCommand (sv_store s) (c_ID cmd) state msg w1 of
             (Inl terr, w2) \<Rightarrow> (Inl terr, w2)
           | (Inr updated, w2) \<Rightarrow> (Inr updated, metricInc (CommandTransitions state) w2)))"

definition newCommand :: "string \<Rightarrow> CommandType \<Rightarrow> string \<Rightarrow> string \<Rightarrow> Time \<Rightarrow> Command" where
  "newCommand deviceID typ payload idemKey expires =
     zeroCommand\<lparr>c_DeviceID := deviceID, c_Type := typ, c_Payload := payload,
       c_IdempotencyKey := idemKey, c_ExpiresAt := expires\<rparr>"

text \<open>The second half of \<^verbatim>\<open>Create\<close>, for a device that can receive commands.\<close>

definition enqueue ::
  "command_service \<Rightarrow> command_sender option \<Rightarrow> Device \<Rightarrow> Command \<Rightarrow> world \<Rightarrow> Command res \<times> world" where
  "enqueue s sender device c w =
     (case cs_CreateCommand (sv_store s) c w of
        (CmdError e, w1) \<Rightarrow> if errIs e ErrDuplicate then (Inr zeroCommand, w1) else (Inl e, w1)
      | (CmdExisting cmd, w1) \<Rightarrow> (Inr cmd, w1)
      | (CmdCreated cmd, w1) \<Rightarrow>
          (let w2 = metricInc (CommandsCreated (c_Type c)) w1
           in case sender of
                Some send \<Rightarrow> dispatch s send device cmd w2
              | None \<Rightarrow> (Inr cmd, w2)))"

definition Create ::
  "command_service \<Rightarrow> string \<Rightarrow> CommandType \<Rightarrow> string \<Rightarrow> string \<Rightarrow> world \<Rightarrow> Command res \<times> world" where
  "Create s deviceID typ payload idemKey w =
     (if \<not> ValidCommandType typ
      then (Inl (Wrapf ''%w: unknown type %q'' [AStr typ] (Sentinel ErrValidation)), w)
      else if payload \<noteq> [] \<and> \<not> json_Valid payload
      then (Inl (Wrapf ''%w: payload is not valid JSON'' [] (Sentinel ErrValidation)), w)
      else case cs_GetDevice (sv_store s) deviceID w of
             (Inl e, w1) \<Rightarrow>
               if errIs e ErrNotFound
               then (Inl (Wrapf ''%w: unknown device %q'' [AStr deviceID] (Sentinel ErrValidation)), w1)
               else (Inl e, w1)
           | (Inr device, w1) \<Rightarrow>
               (let sender = sv_senders s (d_Provider device)
                in if d_Provider device \<noteq> ProviderGuardianEdge \<and> sender = None
                   then (Inl (Wrapf ''%w: provider %q does not accept commands''
                          [AStr (d_Provider device)] (Sentinel ErrValidation)), w1)
                   else let (now, w2) = timeNow w1
                        in enqueue s sender device
                             (newCommand deviceID typ payload idemKey (time_Add now (sv_ttl s))) w2))"

definition repeatInc :: "nat \<Rightarrow> metric \<Rightarrow> world \<Rightarrow> world" where
  "repeatInc n m w = (metricInc m ^^ n) w"

definition Poll :: "command_service \<Rightarrow> string \<Rightarrow> int \<Rightarrow> world \<Rightarrow> Command list res \<times> world" where
  "Poll s deviceID limit w =
     (case cs_FetchPendingCommands (sv_store s) deviceID limit w of
        (Inl e, w1) \<Rightarrow> (Inl e, w1)
      | (Inr cmds, w1) \<Rightarrow>
          (Inr cmds, repeatInc (length cmds) (CommandTransitions CommandDelivered) w1))"

definition ReportResult :: "command_service \<Rightarrow> string \<Rightarrow> bool \<Rightarrow> string \<Rightarrow> world \<Rightarrow> Command res \<times> world" where
  "ReportResult s commandID ok msg w =
     (let to = (if ok then CommandAcknowledged else CommandFailed)
      in case cs_TransitionCommand (sv_store s) commandID to (Str msg) w of
           (Inl e, w1) \<Rightarrow> (Inl e, w1)
         | (Inr cmd, w1) \<Rightarrow>
             (let w2 = metricInc (CommandTransitions to) w1
              in (Inr cmd, if ok then w2 else metricInc CommandFailures w2)))"

definition getCommand :: "command_service \<Rightarrow> string \<Rightarrow> world \<Rightarrow> Command res \<times> world" where
  "getCommand s uid w = cs_GetCommand (sv_store s) uid w"

text \<open>
  One tick of the reaper; \<^verbatim>\<open>RunReaper\<close> is as many ticks as arrive before the context is done.
  Errors are logged and the next tick tries again.
\<close>

definition reaperTick :: "command_service \<Rightarrow> world \<Rightarrow> world" where
  "reaperTick s w =
     (case cs_ExpireCommands (sv_store s) w of
        (Inl e, w1) \<Rightarrow> w1
      | (Inr n, w1) \<Rightarrow>
          ((\<lambda>v. metricInc CommandFailures (metricInc (CommandTransitions CommandFailed) v)) ^^ n) w1)"

definition RunReaper :: "command_service \<Rightarrow> nat \<Rightarrow> world \<Rightarrow> world" where
  "RunReaper s ticks w = (reaperTick s ^^ ticks) w"

section \<open>Counting\<close>

lemma metricInc_power [simp]:
  "w_db ((metricInc m ^^ n) w) = w_db w" "w_pg ((metricInc m ^^ n) w) = w_pg w"
  "w_hub ((metricInc m ^^ n) w) = w_hub w"
  by (induction n) simp_all

lemma counted_repeat: "counted m w (repeatInc n m' w) = (if m = m' then int n else 0)"
  unfolding repeatInc_def
proof (induction n)
  case (Suc n)
  then show ?case by (cases "m = m'") (auto simp: counted_def Inc_def)
qed (simp add: counted_def)

lemma counted_two: "m1 \<noteq> m2 \<Longrightarrow>
   counted m w (((\<lambda>v. metricInc m1 (metricInc m2 v)) ^^ n) w) = (if m = m1 \<or> m = m2 then int n else 0)"
proof (induction n)
  case (Suc n)
  then show ?case by (auto simp: counted_def Inc_def)
qed (simp add: counted_def)

lemma two_power_db [simp]: "w_db (((\<lambda>v. metricInc m1 (metricInc m2 v)) ^^ n) w) = w_db w"
  by (induction n) simp_all

text \<open>How many commands are in a state.\<close>

definition in_state :: "CommandState \<Rightarrow> database \<Rightarrow> nat" where
  "in_state s db = count_where (\<lambda>c. c_State c = s) (t_commands db)"

lemma count_where_simps [simp]:
  "count_where p [] = 0" "count_where p (r # t) = (if p r then Suc (count_where p t) else count_where p t)"
  by (simp_all add: count_where_def)

lemma count_update_where:
  assumes "\<And>c. hit c \<Longrightarrow> \<not> p c \<and> p (f c)"
  shows "count_where p (update_where hit f t) = count_where p t + count_where hit t"
  using assms by (induction t) auto

end
