(* ===== verification/CommandService.thy ===== *)
theory CommandService
  imports Commands
begin

text \<open>
  The contract between the command service and its store, and the properties of the service on
  the methods of \<^verbatim>\<open>storage.Store\<close>.
\<close>

section \<open>What the storage methods promise\<close>

text \<open>The sentinels a store method can return by itself.\<close>

definition store_sentinels :: "sentinel set" where
  "store_sentinels = {ErrNoRows, ErrNotFound, Canceled, DeadlineExceeded}"

lemma scanRow_Inl:
  "scanRow r = (Inl e, w') \<Longrightarrow> \<exists>e0. r = (Inl e0, w') \<and> e = rowErr e0"
  by (auto simp: scanRow_def split: prod.splits sum.splits)

lemma query_errors:
  "getDevice_sql pg uid now db = Inl e \<Longrightarrow> s \<noteq> ErrNoRows \<Longrightarrow> \<not> errIs e s"
  "getCommand_sql pg uid now db = Inl e \<Longrightarrow> s \<noteq> ErrNoRows \<Longrightarrow> \<not> errIs e s"
  "findByIdemKey_sql pg dev key now db = Inl e \<Longrightarrow> s \<noteq> ErrNoRows \<Longrightarrow> \<not> errIs e s"
  by (auto simp: getDevice_sql_def getCommand_sql_def findByIdemKey_sql_def with_uuid_def
      select_one_def pg_errors split: option.splits)

lemma exec_errors:
  "exec_sql stmt w = (Inl e, w') \<Longrightarrow> s \<notin> store_sentinels \<Longrightarrow>
   (\<And>now e. stmt now (w_db w) = Inl e \<Longrightarrow> \<not> errIs e s) \<Longrightarrow> \<not> errIs e s"
  using exec_sql_error_is [of stmt w e w' s] by (auto simp: store_sentinels_def)

lemma scanRow_errors:
  assumes "scanRow (exec_sql stmt w) = (Inl e, w')" "s \<notin> store_sentinels"
    "\<And>now e. stmt now (w_db w) = Inl e \<Longrightarrow> \<not> errIs e s"
  shows "\<not> errIs e s"
proof -
  from scanRow_Inl [OF assms(1)] obtain e0 where e0: "exec_sql stmt w = (Inl e0, w')" "e = rowErr e0"
    by blast
  from exec_errors [OF e0(1) assms(2,3)] e0(2) assms(2) show ?thesis
    by (auto simp: rowErr_def store_sentinels_def)
qed

lemma row_queries_errors:
  "GetDevice uid w = (Inl e, w') \<Longrightarrow> s \<notin> store_sentinels \<Longrightarrow> \<not> errIs e s"
  "GetCommand uid w = (Inl e, w') \<Longrightarrow> s \<notin> store_sentinels \<Longrightarrow> \<not> errIs e s"
  "findCommandByIdemKey dev key w = (Inl e, w') \<Longrightarrow> s \<notin> store_sentinels \<Longrightarrow> \<not> errIs e s"
  unfolding GetDevice_def GetCommand_def findCommandByIdemKey_def
  by (erule scanRow_errors; auto simp: store_sentinels_def dest: query_errors)+

lemma validation_not_store [simp]: "ErrValidation \<notin> store_sentinels" "ErrDuplicate \<notin> store_sentinels"
  by (simp_all add: store_sentinels_def)

lemma CreateCommand_errors:
  assumes "CreateCommand c w = (CmdError e, w')" "s \<notin> store_sentinels"
  shows "\<not> errIs e s"
proof -
  obtain c0 w1 where u: "withCommandID c w = (c0, w1)" by fastforce
  obtain r w2 where x: "exec_sql (insertCommand_sql (w_pg w1) (c0\<lparr>c_State := CommandPending\<rparr>)
      (create_payload (c0\<lparr>c_State := CommandPending\<rparr>))) w1 = (r, w2)" by fastforce
  have after: "afterInsertCommand (c0\<lparr>c_State := CommandPending\<rparr>) r w2 = (CmdError e, w')"
    using assms x by (simp add: CreateCommand_def u Let_def)
  show ?thesis
  proof (cases r)
    case (Inl e0)
    have "\<not> errIs e0 s"
      by (rule exec_errors [OF x [unfolded Inl] assms(2)]) (rule write_errors_not_sentinel(4))
    with after Inl show ?thesis by (auto simp: afterInsertCommand_def)
  next
    case (Inr n)
    with after assms(2) show ?thesis
      by (auto simp: afterInsertCommand_def split: if_splits prod.splits sum.splits
          dest: row_queries_errors)
  qed
qed

lemma TransitionCommand_errors:
  assumes "TransitionCommand uid to msg w = (Inl e, w')" "s \<notin> store_sentinels" "s \<noteq> ErrInvalidTransition"
  shows "\<not> errIs e s"
proof (cases "transition_sources to")
  case None
  with assms show ?thesis by (auto simp: TransitionCommand_def)
next
  case (Some "from")
  obtain r w1 where x: "exec_sql (transition_sql (w_pg w) uid to msg from) w = (r, w1)" by fastforce
  show ?thesis
  proof (cases r)
    case (Inl e0)
    have "\<not> errIs e0 s"
      by (rule exec_errors [OF x [unfolded Inl] assms(2)]) (rule write_errors_not_sentinel(5))
    with Inl x assms Some show ?thesis by (auto simp: TransitionCommand_def)
  next
    case (Inr n)
    with x assms Some show ?thesis
      by (auto simp: TransitionCommand_def store_sentinels_def split: if_splits prod.splits sum.splits
          dest: row_queries_errors)
  qed
qed

text \<open>A transition that answers with a command made the move the state machine allows.\<close>

lemma TransitionCommand_Inr:
  assumes "TransitionCommand uid to msg w = (Inr c, w')" "db_inv (w_db w)"
  shows "\<exists>s. lifecycle (w_db w) (c_ID c) = Some s \<and> CanTransition s to \<and> c_State c = to \<and>
    lifecycle (w_db w') (c_ID c) = Some to \<and> pg_uuid (w_pg w) uid = Some (c_ID c) \<and>
    (if textEmpty msg then True else c_ResultMessage c = msg)"
proof -
  obtain "from" where f: "transition_sources to = Some from"
    using assms(1) by (cases "transition_sources to") (auto simp: TransitionCommand_def)
  obtain r w1 where x: "exec_sql (transition_sql (w_pg w) uid to msg from) w = (r, w1)" by fastforce
  with assms(1) f obtain n where n: "r = Inr n" "n \<noteq> 0" "GetCommand uid w1 = (Inr c, w')"
    by (auto simp: TransitionCommand_def split: sum.splits prod.splits if_splits)
  have "w_pg w1 = w_pg w"
    using store_effectD(2) [OF write_effects(10) [OF f, of w "w_pg w" uid msg]] x by simp
  with GetCommand_Inr [OF n(3)] have g: "w_db w' = w_db w1" "pg_uuid (w_pg w) uid = Some (c_ID c)"
      "c \<in> set (t_commands (w_db w1))" by auto
  from exec_sql_Inr [OF x [unfolded n(1)]] obtain now where
    s: "transition_sql (w_pg w) uid to msg from now (w_db w) = Inr (n, w_db w1)" by blast
  let ?hit = "\<lambda>q. c_ID q = c_ID c \<and> c_State q \<in> set from"
  from s g(2) have t: "n = count_where ?hit (t_commands (w_db w))"
    "w_db w1 = (w_db w)\<lparr>t_commands := update_where ?hit (transition_row to msg now) (t_commands (w_db w))\<rparr>"
    by (simp_all add: transition_sql_def with_uuid_def Let_def)
  have inv: "commands_inv (w_db w)" using assms(2) by (simp add: db_inv_def)
  have "db_step (w_db w) (w_db w1)" using f s by (rule db_step.move)
  then have inv': "commands_inv (w_db w')"
    using db_step_inv assms(2) g(1) by (auto simp: db_inv_def)
  from n(2) t(1) obtain q where q: "q \<in> set (t_commands (w_db w))" "c_ID q = c_ID c" "c_State q \<in> set from"
    using count_where_pos [of ?hit] by auto
  have "transition_row to msg now q \<in> set (t_commands (w_db w'))"
    using q g(1) t(2) by (auto simp: set_update_where)
  moreover have "c \<in> set (t_commands (w_db w'))" using g by simp
  ultimately have "c = transition_row to msg now q"
    using inv' q(2) by (auto simp: commands_inv_def dest: distinct_map_eqD)
  then have "c_State c = to" "if textEmpty msg then True else c_ResultMessage c = msg"
    by (simp_all add: transition_row_def)
  with q g(2) inv inv' \<open>c \<in> set (t_commands (w_db w'))\<close> transition_sources_iff [OF f] show ?thesis
    by (auto simp: lifecycle_Some_iff)
qed

section \<open>The contract\<close>

locale command_store_contract =
  fixes st :: command_store
  assumes reads: "w_db (snd (cs_GetDevice st uid w)) = w_db w"
    and effects: "store_effect w (snd (cs_GetDevice st uid w))"
      "store_effect w (snd (cs_CreateCommand st c w))"
      "store_effect w (snd (cs_FetchPendingCommands st dev limit w))"
      "store_effect w (snd (cs_TransitionCommand st uid to msg w))"
      "store_effect w (snd (cs_ExpireCommands st w))"
    and not_validation: "cs_GetDevice st uid w = (Inl e, w') \<Longrightarrow> \<not> errIs e ErrValidation"
      "cs_CreateCommand st c w = (CmdError e, w') \<Longrightarrow> \<not> errIs e ErrValidation"
      "cs_TransitionCommand st uid to msg w = (Inl e, w') \<Longrightarrow> \<not> errIs e ErrValidation"
    and moves: "cs_TransitionCommand st uid to msg w = (Inr c, w') \<Longrightarrow> db_inv (w_db w) \<Longrightarrow>
      \<exists>s. lifecycle (w_db w) (c_ID c) = Some s \<and> CanTransition s to \<and> c_State c = to \<and>
        lifecycle (w_db w') (c_ID c) = Some to \<and>
        (if textEmpty msg then True else c_ResultMessage c = msg)"
begin

lemma dispatch_not_validation:
  assumes "sv_store s = st" "dispatch s send device cmd w = (Inl e, w')"
  shows "\<not> errIs e ErrValidation"
  using assms(2) unfolding dispatch_def assms(1)
  by (auto split: prod.splits sum.splits dest: not_validation(3))

lemma enqueue_not_validation:
  assumes "sv_store s = st" "enqueue s sender device c w = (Inl e, w')"
  shows "\<not> errIs e ErrValidation"
  using assms(2) unfolding enqueue_def assms(1) Let_def
  by (auto split: prod.splits create_outcome.splits option.splits if_splits
      dest: not_validation(2) dispatch_not_validation [OF assms(1)])

text \<open>A caller error leaves the database as it was.\<close>

lemma Create_validation:
  assumes "sv_store s = st" "Create s dev typ payload key w = (Inl e, w')" "errIs e ErrValidation"
  shows "w_db w' = w_db w"
proof -
  obtain r w1 where g: "cs_GetDevice st dev w = (r, w1)" by fastforce
  with reads [of dev w] have db: "w_db w1 = w_db w" by simp
  show ?thesis
  proof (cases r)
    case (Inl e0)
    with assms(2,3) g db not_validation(1) [of dev w e0 w1] show ?thesis
      unfolding Create_def assms(1) by (auto split: if_splits)
  next
    case (Inr device)
    with assms(2,3) g db show ?thesis
      unfolding Create_def assms(1) Let_def
      by (auto dest: enqueue_not_validation [OF assms(1)] split: if_splits prod.splits)
  qed
qed

end

interpretation storage_commands: command_store_contract storage_command_store
proof unfold_locales
  show "w_db (snd (cs_GetDevice storage_command_store uid w)) = w_db w" for uid w
    using exec_sql_db_cases [of "getDevice_sql (w_pg w) uid" w] query_stmts(1)
    by (auto simp: storage_command_store_def GetDevice_def)
  show "\<not> errIs e ErrValidation"
    if "cs_GetDevice storage_command_store uid w = (Inl e, w')" for uid w e w'
    using that row_queries_errors(1) by (simp add: storage_command_store_def)
  show "\<not> errIs e ErrValidation"
    if "cs_CreateCommand storage_command_store c w = (CmdError e, w')" for c w e w'
    using that CreateCommand_errors by (simp add: storage_command_store_def)
  show "\<not> errIs e ErrValidation"
    if "cs_TransitionCommand storage_command_store uid to msg w = (Inl e, w')" for uid to msg w e w'
    using that TransitionCommand_errors by (simp add: storage_command_store_def)
qed (auto simp: storage_command_store_def intro: steps_intros dest: TransitionCommand_Inr)

section \<open>The service on the storage methods\<close>

definition service :: "Duration \<Rightarrow> (ProviderName \<Rightarrow> command_sender option) \<Rightarrow> command_service" where
  "service ttl senders = \<lparr>sv_store = storage_command_store, sv_ttl = ttl, sv_senders = senders\<rparr>"

lemma service_simps [simp]:
  "sv_store (service ttl senders) = storage_command_store" "sv_ttl (service ttl senders) = ttl"
  "sv_senders (service ttl senders) = senders"
  by (simp_all add: service_def)

lemma store_methods [simp]:
  "cs_GetDevice storage_command_store = GetDevice"
  "cs_CreateCommand storage_command_store = CreateCommand"
  "cs_GetCommand storage_command_store = GetCommand"
  "cs_FetchPendingCommands storage_command_store = FetchPendingCommands"
  "cs_TransitionCommand storage_command_store = TransitionCommand"
  "cs_ExpireCommands storage_command_store = ExpireCommands"
  by (simp_all add: storage_command_store_def)

lemma Create_clean:
  "case Create (service ttl senders) dev ty payload key w of (r, w') \<Rightarrow>
     (if ValidCommandType ty \<and> (payload = [] \<or> json_Valid payload) then True
      else w' = w \<and> (\<exists>e. r = Inl e \<and> errIs e ErrValidation)) \<and>
     (if \<exists>e. r = Inl e \<and> errIs e ErrValidation then w_db w' = w_db w else True)"
proof (cases "Create (service ttl senders) dev ty payload key w")
  case (Pair r w')
  have "w_db w' = w_db w" if "r = Inl e" "errIs e ErrValidation" for e
    using storage_commands.Create_validation [of "service ttl senders"] Pair that by simp
  moreover have "w' = w \<and> (\<exists>e. r = Inl e \<and> errIs e ErrValidation)"
    if "\<not> (ValidCommandType ty \<and> (payload = [] \<or> json_Valid payload))"
    using that Pair by (auto simp: Create_def split: if_splits)
  ultimately show ?thesis using Pair by auto
qed

text \<open>A caller error is reported and leaves no trace. An unknown command type or a payload that
  is not JSON is refused before the store is touched, and whatever error of class ErrValidation
  Create returns (unknown device, a provider that takes no commands), the database is as it was.\<close>

theorem Create_rejects_cleanly:
  "case Create (service ttl senders) dev typ payload key w of (r, w') \<Rightarrow>
     (if ValidCommandType typ \<and> (payload = [] \<or> json_Valid payload) then True
      else w' = w \<and> (\<exists>e. r = Inl e \<and> errIs e ErrValidation)) \<and>
     (if \<exists>e. r = Inl e \<and> errIs e ErrValidation then w_db w' = w_db w else True)"
  by (rule Create_clean)

lemma GetDevice_Inr:
  assumes "GetDevice uid w = (Inr d, w')"
  shows "\<exists>r. r \<in> set (t_devices (w_db w)) \<and> pg_uuid (w_pg w) uid = Some (dv_id r) \<and> d = scan_device_row r"
proof -
  obtain now where "getDevice_sql (w_pg w) uid now (w_db w) = Inr (d, w_db w')"
    using assms exec_sql_Inr [of "getDevice_sql (w_pg w) uid" w d w']
    by (auto simp: GetDevice_def scanRow_def split: prod.splits sum.splits)
  then show ?thesis
    by (auto simp: getDevice_sql_def with_uuid_def select_one_def dest!: find_SomeD split: option.splits)
qed

text \<open>No command is accepted that nobody can deliver. When Create answers with a command, the
  device is registered and is either a Guardian edge device, which polls, or belongs to a provider
  with a command sender.\<close>

theorem Create_only_deliverable:
  assumes "Create (service ttl senders) dev typ payload key w = (Inr c, w')"
  shows "\<exists>r. r \<in> set (t_devices (w_db w)) \<and> pg_uuid (w_pg w) dev = Some (dv_id r) \<and>
    (dv_provider r = ProviderGuardianEdge \<or> (\<exists>send. senders (dv_provider r) = Some send))"
proof -
  obtain device w1 where g: "GetDevice dev w = (Inr device, w1)"
    using assms by (auto simp: Create_def split: if_splits prod.splits sum.splits)
  with assms have "d_Provider device = ProviderGuardianEdge \<or> (\<exists>send. senders (d_Provider device) = Some send)"
    by (auto simp: Create_def Let_def split: if_splits)
  with GetDevice_Inr [OF g] show ?thesis by (auto simp: scan_device_row_def)
qed

lemma Create_only_deliverable_witness:
  "\<exists>r. r \<in> set (t_devices (demo_db [])) \<and> pg_uuid demo_pg ''d1'' = Some (dv_id r) \<and>
    (dv_provider r = ProviderGuardianEdge \<or> (\<exists>send. (\<lambda>_. None :: command_sender option) (dv_provider r) = Some send))"
proof -
  let ?run = "Create (service Hour (\<lambda>_. None)) ''d1'' CommandGetStatus [] ''k'' (calm (demo_db []))"
  have "\<exists>c. fst ?run = Inr c"
    by (simp add: Create_def enqueue_def ValidCommandType_def GetDevice_def getDevice_sql_def newCommand_def
        create_run_defs demo_defs zeroCommand_def scan_device_row_def device_ids_def)
  then obtain c where "?run = (Inr c, snd ?run)" by (auto simp: prod_eq_iff)
  from Create_only_deliverable [OF this] show ?thesis by (simp only: demo_world_simps)
qed

text \<open>A push delivery ends in recorded state. When dispatch answers with a command, the state
  machine was moved to FAILED with the adapter's error as the reason if the adapter failed, and to
  the state the adapter reported otherwise, and the answer shows that state.\<close>

lemma dispatch_outcome:
  assumes "dispatch (service ttl senders) send device cmd w = (Inr c, w')"
    "db_inv (w_db (snd (send (d_ExternalID device) cmd w)))"
  shows "lifecycle (w_db w') (c_ID c) = Some (c_State c) \<and>
    (case fst (send (d_ExternalID device) cmd w) of
       Inl err \<Rightarrow> c_State c = CommandFailed \<and> (if errTextEmpty err then True else c_ResultMessage c = ErrText err)
     | Inr (state, msg) \<Rightarrow> c_State c = state \<and> (if textEmpty msg then True else c_ResultMessage c = msg))"
proof (cases "send (d_ExternalID device) cmd w")
  case (Pair r w1)
  show ?thesis
  proof (cases r)
    case (Inl err)
    with Pair assms(1) obtain w2 where t: "TransitionCommand (c_ID cmd) CommandFailed (ErrText err) w1 = (Inr c, w2)"
      "w_db w' = w_db w2"
      by (auto simp: dispatch_def split: prod.splits sum.splits)
    have "db_inv (w_db w1)" using assms(2) Pair by simp
    from TransitionCommand_Inr [OF t(1) this] show ?thesis using Pair Inl t(2) by auto
  next
    case (Inr p)
    obtain state msg where p: "p = (state, msg)" by fastforce
    with Inr Pair assms(1) obtain w2 where t: "TransitionCommand (c_ID cmd) state msg w1 = (Inr c, w2)"
      "w_db w' = w_db w2"
      by (auto simp: dispatch_def split: prod.splits sum.splits)
    have "db_inv (w_db w1)" using assms(2) Pair by simp
    from TransitionCommand_Inr [OF t(1) this] show ?thesis using Pair Inr p t(2) by auto
  qed
qed

section \<open>Replays and the reaper\<close>

text \<open>C35: replaying a command is harmless. Once a command was created under an idempotency key of a
  device, a later Create with that device and key that succeeds answers with that same command and
  contacts no provider: nothing is sent, no token is used, no counter moves.\<close>

theorem Create_replay_no_dispatch:
  assumes "db_inv (w_db w0)" "CreateCommand c w0 = (CmdCreated x, w1)" "c_IdempotencyKey c \<noteq> []"
    "db_steps (w_db w1) (w_db w)" "w_pg w = w_pg w0"
    "Create (service ttl senders) (c_DeviceID c) typ payload (c_IdempotencyKey c) w = (Inr y, w')"
  shows "c_ID y = c_ID x \<and> w_sent w' = w_sent w \<and> w_net w' = w_net w \<and> w_token w' = w_token w \<and>
    w_metrics w' = w_metrics w"
proof -
  obtain device v where g: "GetDevice (c_DeviceID c) w = (Inr device, v)"
    using assms(6) by (auto simp: Create_def split: if_splits prod.splits sum.splits)
  have ev: "store_effect w v" using query_effects(1) [of w "c_DeviceID c"] g by simp
  obtain now v1 where t: "timeNow v = (now, v1)" by fastforce
  have v1: "w_db v1 = w_db v" "w_pg v1 = w_pg v" "w_sent v1 = w_sent v" "w_net v1 = w_net v"
    "w_token v1 = w_token v" "w_metrics v1 = w_metrics v"
    using t by (auto simp: timeNow_def)
  let ?new = "newCommand (c_DeviceID c) typ payload (c_IdempotencyKey c) (time_Add now ttl)"
  have keys: "c_DeviceID ?new = c_DeviceID c" "c_IdempotencyKey ?new = c_IdempotencyKey c"
    by (simp_all add: newCommand_def)
  have en: "enqueue (service ttl senders) (senders (d_Provider device)) device ?new v1 = (Inr y, w')"
    using assms(6) g t by (auto simp: Create_def Let_def split: if_splits)
  have "db_steps (w_db w1) (w_db v1)"
    using assms(4) store_effectD(1) [OF ev] v1(1) by simp
  then have once: "case fst (CreateCommand ?new v1) of
      CmdCreated y \<Rightarrow> False | CmdExisting y \<Rightarrow> c_ID y = c_ID x | CmdError e \<Rightarrow> True"
    using create_key_once [OF assms(1-3) _ _ keys] store_effectD(2) [OF ev] v1(2) assms(5) by simp
  obtain r v2 where cr: "CreateCommand ?new v1 = (r, v2)" by fastforce
  have "r = CmdExisting y \<and> v2 = w'"
    using en once cr CreateCommand_errors [of ?new v1 _ v2 ErrDuplicate]
    by (cases r) (auto simp: enqueue_def split: if_splits)
  moreover have "store_effect v1 v2" using CreateCommand_effect [of v1 ?new] cr by simp
  ultimately show ?thesis
    using once cr v1 ev by (auto simp: store_effect_def db_only_def)
qed

lemma ExpireCommands_healthy:
  assumes "healthy w"
  shows "ExpireCommands w = (Inr (count_where (overdue (sql_time w)) (t_commands (w_db w))),
    (sql_done w)\<lparr>w_db := (w_db w)\<lparr>t_commands := update_where (overdue (sql_time w))
        (expire_row (sql_time w)) (t_commands (w_db w))\<rparr>\<rparr>)"
  by (simp add: ExpireCommands_def exec_sql_healthy [OF assms] expire_sql_def)

lemma two_power_healthy [simp]:
  "healthy (((\<lambda>v. metricInc m1 (metricInc m2 v)) ^^ n) w) = healthy w"
  by (induction n) (simp_all add: healthy_def metricInc_def)

lemma reaperTick_steps: "db_steps (w_db w) (w_db (reaperTick (service ttl senders) w))"
  using store_effectD(1) [OF ExpireCommands_effect [of w]]
  by (auto simp: reaperTick_def split: prod.split sum.split)

lemma reaper_steps: "db_steps (w_db w) (w_db (RunReaper (service ttl senders) n w))"
  by (induction n) (auto simp: RunReaper_def intro: rtranclp_trans reaperTick_steps)


lemma demo_sql_time: "sql_time (demo_world f db) = 1000"
  by (simp add: sql_time_def demo_world_def)


text \<open>The reaper counts what it did. A tick without driver faults counts, as transitions to FAILED
  and as command failures, exactly the growth of the number of FAILED commands in the table.\<close>

theorem reaper_counts:
  assumes "healthy w"
  shows "let w' = reaperTick (service ttl senders) w;
      grown = int (in_state CommandFailed (w_db w')) - int (in_state CommandFailed (w_db w))
    in counted CommandFailures w w' = grown \<and> counted (CommandTransitions CommandFailed) w w' = grown"
proof -
  let ?n = "count_where (overdue (sql_time w)) (t_commands (w_db w))"
  let ?w = "reaperTick (service ttl senders) w"
  obtain v where v: "w_metrics v = w_metrics w" "?w = ((\<lambda>v. metricInc CommandFailures
      (metricInc (CommandTransitions CommandFailed) v)) ^^ ?n) v"
    "w_db v = (w_db w)\<lparr>t_commands := update_where (overdue (sql_time w))
      (expire_row (sql_time w)) (t_commands (w_db w))\<rparr>"
    using that [of "(sql_done w)\<lparr>w_db := (w_db w)\<lparr>t_commands := update_where (overdue (sql_time w))
      (expire_row (sql_time w)) (t_commands (w_db w))\<rparr>\<rparr>"]
    by (simp add: reaperTick_def ExpireCommands_healthy [OF assms])
  have "in_state CommandFailed (w_db ?w) = in_state CommandFailed (w_db w) + ?n"
    unfolding v(2) two_power_db v(3) in_state_def
    by (simp, rule count_update_where) (auto simp: overdue_def)
  moreover have "counted m w ?w = counted m v ?w" for m by (simp add: counted_def v(1))
  moreover have "CommandFailures \<noteq> CommandTransitions CommandFailed" by (simp add: metric_defs)
  ultimately show ?thesis
    using counted_two [of CommandFailures "CommandTransitions CommandFailed" _ v ?n] v(2)
    by (simp add: Let_def)
qed

lemma reaper_counts_witness:
  "let w = calm (demo_db [(demo_command ''c1'' CommandPending)\<lparr>c_ExpiresAt := 900\<rparr>]);
      w' = reaperTick (service Hour (\<lambda>_. None)) w;
      grown = int (in_state CommandFailed (w_db w')) - int (in_state CommandFailed (w_db w))
    in counted CommandFailures w w' = grown \<and> counted (CommandTransitions CommandFailed) w w' = grown"
  using reaper_counts [of "calm (demo_db [(demo_command ''c1'' CommandPending)\<lparr>c_ExpiresAt := 900\<rparr>])" Hour
      "\<lambda>_. None"] by (simp add: Let_def)

lemma Create_replay_no_dispatch_witness:
  "let c = zeroCommand\<lparr>c_DeviceID := ''d1'', c_Type := CommandGetStatus, c_IdempotencyKey := ''k''\<rparr>;
       w = snd (CreateCommand c (calm (demo_db [])));
       (r, w') = Create (service Hour (\<lambda>_. None)) ''d1'' CommandGetStatus [] ''k'' w
   in \<exists>y. r = Inr y \<and> c_ID y = ''u'' \<and> w_sent w' = w_sent w \<and> w_metrics w' = w_metrics w"
proof -
  let ?c = "zeroCommand\<lparr>c_DeviceID := ''d1'', c_Type := CommandGetStatus, c_IdempotencyKey := ''k''\<rparr>"
  let ?w = "snd (CreateCommand ?c (calm (demo_db [])))"
  let ?run = "Create (service Hour (\<lambda>_. None)) ''d1'' CommandGetStatus [] ''k'' ?w"
  have "case fst (CreateCommand ?c (calm (demo_db []))) of CmdCreated x \<Rightarrow> c_ID x = ''u'' | _ \<Rightarrow> False"
    by (simp add: create_run_defs demo_defs zeroCommand_def device_ids_def)
  then obtain x where x: "CreateCommand ?c (calm (demo_db [])) = (CmdCreated x, ?w)" "c_ID x = ''u''"
    by (cases "fst (CreateCommand ?c (calm (demo_db [])))") (auto simp: prod_eq_iff)
  have "\<exists>y. fst ?run = Inr y"
    by (simp add: Create_def enqueue_def ValidCommandType_def GetDevice_def getDevice_sql_def newCommand_def
        create_run_defs findCommandByIdemKey_def findByIdemKey_sql_def demo_defs zeroCommand_def
        scan_device_row_def device_ids_def)
  then obtain y where y: "?run = (Inr y, snd ?run)" by (auto simp: prod_eq_iff)
  have pg: "w_pg ?w = demo_pg"
    using store_effectD(2) [OF CreateCommand_effect, of ?c "calm (demo_db [])"] by simp
  have y': "Create (service Hour (\<lambda>_. None)) (c_DeviceID ?c) CommandGetStatus [] (c_IdempotencyKey ?c) ?w =
      (Inr y, snd ?run)" using y by simp
  have "c_ID y = c_ID x \<and> w_sent (snd ?run) = w_sent ?w \<and> w_net (snd ?run) = w_net ?w \<and>
      w_token (snd ?run) = w_token ?w \<and> w_metrics (snd ?run) = w_metrics ?w"
    by (rule Create_replay_no_dispatch [OF _ x(1) _ _ _ y']) (simp_all add: pg)
  then show ?thesis unfolding Let_def by (subst y) (simp add: x(2))
qed

end
