(* ===== verification/Reliability.thy ===== *)
theory Reliability
  imports Demo
begin

text \<open>
  The retry policy (\<^verbatim>\<open>internal/reliability/retry.go\<close>). An operation is a function of the
  variables its closure captures and the world; it answers with nil (None) or an error. The
  readings of \<^verbatim>\<open>ctx.Err()\<close>, and the choice of \<^verbatim>\<open>select\<close> between the timer and \<^verbatim>\<open>ctx.Done()\<close>,
  come from the context source; \<^verbatim>\<open>rand.N\<close> draws from the random source and panics unless its
  bound is positive.
\<close>

record Policy =
  pl_Attempts :: int
  pl_Base :: Duration
  pl_Max :: Duration

definition DefaultPolicy :: Policy where
  "DefaultPolicy = \<lparr>pl_Attempts = 5, pl_Base = 200 * Millisecond, pl_Max = 5 * Second\<rparr>"

definition rand_N :: "int \<Rightarrow> world \<Rightarrow> int option \<times> world" where
  "rand_N n w =
     (if n \<le> 0 then (None, w)
      else let (r, w1) = randNext w in (Some (int r mod n), w1))"

definition backoff_ceil :: "Policy \<Rightarrow> nat \<Rightarrow> Duration" where
  "backoff_ceil p attempt =
     (let c = wrap64 (pl_Base p * 2 ^ attempt)
      in if pl_Max p < c \<or> c \<le> 0 then pl_Max p else c)"

definition backoff :: "Policy \<Rightarrow> nat \<Rightarrow> world \<Rightarrow> Duration option \<times> world" where
  "backoff p attempt w = rand_N (wrap64 (backoff_ceil p attempt + 1)) w"

datatype outcome = Returned "error option" | Panicked

type_synonym 's operation = "'s \<times> world \<Rightarrow> error option \<times> ('s \<times> world)"

definition final_error :: "error \<Rightarrow> bool" where
  "final_error e \<longleftrightarrow> IsPermanent e \<or> errIs e Canceled \<or> errIs e DeadlineExceeded"

text \<open>\<open>Do_loop p op attempt left\<close>: the loop from an attempt on, with \<open>left\<close> attempts after it.\<close>

fun Do_loop :: "Policy \<Rightarrow> int \<Rightarrow> 's operation \<Rightarrow> nat \<Rightarrow> nat \<Rightarrow> 's \<times> world \<Rightarrow> outcome \<times> ('s \<times> world)" where
  "Do_loop p tot op attempt left (s, w) =
     (case ctxErr w of
        (Some c, w1) \<Rightarrow> (Returned (Some (Sentinel c)), (s, w1))
      | (None, w1) \<Rightarrow>
          (case op (s, w1) of
             (None, sw) \<Rightarrow> (Returned None, sw)
           | (Some err, (s2, w2)) \<Rightarrow>
               if final_error err then (Returned (Some err), (s2, w2))
               else case left of
                      0 \<Rightarrow> (Returned (Some (Wrapf ''giving up after %d attempts: %w'' [AInt tot] err)), (s2, w2))
                    | Suc left' \<Rightarrow>
                        (case backoff p attempt w2 of
                           (None, w3) \<Rightarrow> (Panicked, (s2, w3))
                         | (Some d, w3) \<Rightarrow>
                             (case ctxErr w3 of
                                (Some c, w4) \<Rightarrow> (Returned (Some (Sentinel c)), (s2, w4))
                              | (None, w4) \<Rightarrow> Do_loop p tot op (Suc attempt) left' (s2, w4)))))"

declare Do_loop.simps [simp del]

text \<open>One unfolding of the loop, for the last attempt and for one with retries left.\<close>

lemmas Do_loop_last = Do_loop.simps [where left = 0]
lemmas Do_loop_more = Do_loop.simps [where left = "Suc left" for left]

definition Do :: "Policy \<Rightarrow> 's operation \<Rightarrow> 's \<times> world \<Rightarrow> outcome \<times> ('s \<times> world)" where
  "Do p op sw =
     (let attempts = max 1 (pl_Attempts p)
      in Do_loop p attempts op 0 (nat attempts - 1) sw)"

section \<open>Backoff\<close>

lemma wrap64_pos: "0 < wrap64 n \<Longrightarrow> 0 < n \<Longrightarrow> wrap64 n \<le> n"
proof -
  assume "0 < wrap64 n" "0 < n"
  show ?thesis
  proof (cases "n < 2 ^ 63")
    case True
    with \<open>0 < n\<close> show ?thesis by (simp add: wrap64_id)
  next
    case False
    then show ?thesis using wrap64_bounds(2) [of n] by (simp add: maxDuration_def)
  qed
qed

lemma wrap64_nonpos: "wrap64 n \<le> 0 \<Longrightarrow> 0 < n \<Longrightarrow> 2 ^ 63 \<le> n"
  using wrap64_id [of n] by fastforce

definition good_policy :: "Policy \<Rightarrow> bool" where
  "good_policy p \<longleftrightarrow> 0 < pl_Base p \<and> 0 \<le> pl_Max p \<and> pl_Max p < maxDuration"

lemma backoff_ceil_bounds:
  assumes "good_policy p"
  shows "0 \<le> backoff_ceil p a" "backoff_ceil p a \<le> pl_Max p" "backoff_ceil p a \<le> pl_Base p * 2 ^ a"
proof -
  have pos: "0 < pl_Base p * 2 ^ a" using assms by (simp add: good_policy_def)
  then show "0 \<le> backoff_ceil p a" "backoff_ceil p a \<le> pl_Max p"
    using assms by (auto simp: backoff_ceil_def Let_def good_policy_def)
  show "backoff_ceil p a \<le> pl_Base p * 2 ^ a"
    using wrap64_pos [OF _ pos] wrap64_nonpos [OF _ pos] assms
    by (auto simp: backoff_ceil_def Let_def good_policy_def maxDuration_def)
qed

lemma backoff_range:
  assumes "good_policy p" "backoff p a w = (r, w')"
  shows "\<exists>d. r = Some d \<and> 0 \<le> d \<and> d \<le> backoff_ceil p a"
proof -
  note b = backoff_ceil_bounds [OF assms(1), of a]
  then have "wrap64 (backoff_ceil p a + 1) = backoff_ceil p a + 1"
    using assms(1) by (intro wrap64_id) (auto simp: good_policy_def maxDuration_def)
  moreover have "int x mod (backoff_ceil p a + 1) \<le> backoff_ceil p a" for x
    using pos_mod_bound [of "backoff_ceil p a + 1" "int x"] b(1) by simp
  ultimately show ?thesis
    using assms(2) b(1) by (auto simp: backoff_def rand_N_def Let_def split: prod.splits)
qed

text \<open>C25: the backoff stays in its interval. For a policy with a positive base and a sensible cap, the
  delay before a retry is drawn without panic from between 0 and min(Base * 2^n, Max), although the
  shift that computes Base * 2^n can overflow.\<close>

theorem backoff_within_interval:
  assumes "0 < pl_Base p" "0 \<le> pl_Max p" "pl_Max p < maxDuration"
  shows "\<exists>d. fst (backoff p n w) = Some d \<and> 0 \<le> d \<and> d \<le> min (pl_Base p * 2 ^ n) (pl_Max p)"
proof -
  have good: "good_policy p" using assms by (simp add: good_policy_def)
  obtain r w' where b: "backoff p n w = (r, w')" by fastforce
  from backoff_range [OF good b] backoff_ceil_bounds [OF good, of n] show ?thesis using b by auto
qed

lemma backoff_within_interval_witness:
  "\<exists>d. fst (backoff DefaultPolicy 70 (calm (demo_db []))) = Some d \<and> 0 \<le> d \<and>
     d \<le> min (pl_Base DefaultPolicy * 2 ^ 70) (pl_Max DefaultPolicy)"
  by (rule backoff_within_interval) (simp_all add: DefaultPolicy_def duration_units maxDuration_def)

section \<open>The attempts\<close>

text \<open>The operation with a list of its answers, newest last.\<close>

definition traced :: "'s operation \<Rightarrow> (error option list \<times> 's) operation" where
  "traced op = (\<lambda>((rs, s), w). case op (s, w) of (r, (s', w')) \<Rightarrow> (r, ((rs @ [r], s'), w')))"

definition retried :: "error option \<Rightarrow> bool" where
  "retried r \<longleftrightarrow> (\<exists>e. r = Some e \<and> \<not> final_error e)"

lemma retried_simps [simp]: "\<not> retried None" "retried (Some e) \<longleftrightarrow> \<not> final_error e"
  by (simp_all add: retried_def)

text \<open>What the answers of the attempts say about the outcome.\<close>

definition explains :: "nat \<Rightarrow> error option list \<Rightarrow> outcome \<Rightarrow> bool" where
  "explains tot rs out \<longleftrightarrow>
     length rs \<le> tot \<and> list_all retried (butlast rs) \<and>
     (case out of
        Returned None \<Rightarrow> rs \<noteq> [] \<and> last rs = None
      | Returned (Some e) \<Rightarrow>
          (\<exists>c. e = Sentinel c \<and> list_all retried rs) \<or>
          rs \<noteq> [] \<and> last rs = Some e \<and> final_error e \<or>
          length rs = tot \<and> list_all retried rs \<and>
            (\<exists>l. last rs = Some l \<and> e = Wrapf ''giving up after %d attempts: %w'' [AInt (int tot)] l)
      | Panicked \<Rightarrow> False)"

text \<open>One round that is not the last one: it ends the loop as its answer explains, or the loop goes on with
  one more answer that asked for a retry.\<close>

lemma Do_loop_round:
  assumes "good_policy p" "list_all retried rs" "length rs + Suc (Suc left) = tot"
    "Do_loop p (int tot) (traced op) attempt (Suc left) ((rs, s), w) = (out, ((rs', s'), w'))"
  obtains "explains tot rs' out"
  | r s2 w2 where "retried r" "Do_loop p (int tot) (traced op) (Suc attempt) left ((rs @ [r], s2), w2) = (out, ((rs', s'), w'))"
proof -
  obtain c w1 where ctx: "ctxErr w = (c, w1)" by fastforce
  show thesis
  proof (cases c)
    case (Some e)
    with ctx assms(2-4) show thesis
      by (intro that(1)) (auto simp: explains_def Do_loop_more list_all_iff dest: in_set_butlastD)
  next
    case None
    obtain r s2 w2 where op: "op (s, w1) = (r, (s2, w2))" by (metis prod.collapse)
    show thesis
    proof (cases "retried r")
      case False
      with ctx None assms(2-4) op show thesis
        by (intro that(1), cases r) (auto simp: explains_def traced_def Do_loop_more split: if_splits)
    next
      case True
      then obtain e where e: "r = Some e" "\<not> final_error e" by (auto simp: retried_def)
      obtain b w3 where b: "backoff p attempt w2 = (b, w3)" by fastforce
      obtain d where d: "b = Some d" using backoff_range [OF assms(1) b] by blast
      obtain c' w4 where c': "ctxErr w3 = (c', w4)" by fastforce
      show thesis
      proof (cases c')
        case (Some x)
        with ctx None assms(2-4) op e b d c' True show thesis
          by (intro that(1)) (auto simp: explains_def traced_def Do_loop_more list_all_iff)
      next
        case None
        with ctx \<open>c = None\<close> assms(4) op e b d c' show thesis
          by (intro that(2) [OF True, of s2 w4]) (simp add: traced_def Do_loop_more)
      qed
    qed
  qed
qed

lemma Do_loop_explains:
  assumes "good_policy p" "list_all retried rs" "length rs + Suc left = tot"
    "Do_loop p (int tot) (traced op) attempt left ((rs, s), w) = (out, ((rs', s'), w'))"
  shows "explains tot rs' out"
  using assms(2-)
proof (induction left arbitrary: attempt rs s w)
  case 0
  show ?case
  proof (cases "ctxErr w")
    case (Pair c w1)
    show ?thesis
    proof (cases c)
      case (Some e)
      with Pair 0 show ?thesis by (auto simp: explains_def Do_loop_last list_all_iff dest: in_set_butlastD)
    next
      case None
      obtain r s2 w2 where op: "op (s, w1) = (r, (s2, w2))" by (metis prod.collapse)
      with Pair None 0 show ?thesis
        by (cases r) (auto simp: explains_def traced_def Do_loop_last split: if_splits)
    qed
  qed
next
  case (Suc left)
  from assms(1) Suc.prems show ?case
  proof (cases rule: Do_loop_round)
    case (2 r s2 w2)
    from Suc.IH [OF _ _ 2(2)] 2(1) Suc.prems(1,2) show ?thesis by simp
  qed
qed

text \<open>The trace does not change what the loop does.\<close>

lemma Do_loop_traced:
  "Do_loop p tot (traced op) attempt left ((rs, s), w) = (out, ((rs', s'), w')) \<Longrightarrow>
   Do_loop p tot op attempt left (s, w) = (out, (s', w'))"
proof (induction left arbitrary: attempt rs s w)
  case 0
  then show ?case
    by (auto simp: traced_def Do_loop_last split: prod.splits option.splits if_splits)
next
  case (Suc left)
  obtain c w1 where c: "ctxErr w = (c, w1)" by fastforce
  obtain r s2 w2 where op: "op (s, w1) = (r, (s2, w2))" by (metis prod.collapse)
  obtain b w3 where b: "backoff p attempt w2 = (b, w3)" by fastforce
  obtain c' w4 where c': "ctxErr w3 = (c', w4)" by fastforce
  show ?case
  proof (cases "c = None \<and> retried r \<and> b \<noteq> None \<and> c' = None")
    case True
    then obtain e where e: "r = Some e" "\<not> final_error e" by (auto simp: retried_def)
    with True c op b c' Suc.prems
    have "Do_loop p tot (traced op) (Suc attempt) left ((rs @ [r], s2), w4) = (out, ((rs', s'), w'))"
      by (auto simp: traced_def Do_loop_more)
    from Suc.IH [OF this] True e c op b c' show ?thesis by (auto simp: Do_loop_more)
  next
    case False
    with c op b c' Suc.prems show ?thesis
      by (auto simp: traced_def Do_loop_more split: option.splits if_splits)
  qed
qed

lemma Do_explains:
  assumes "good_policy p" "Do p (traced op) (([], s), w) = (out, ((answers, s'), w'))"
  shows "Do p op (s, w) = (out, (s', w')) \<and> explains (nat (max 1 (pl_Attempts p))) answers out"
proof -
  define n where "n = nat (max 1 (pl_Attempts p)) - 1"
  have n: "max 1 (pl_Attempts p) = int (Suc n)" unfolding n_def by simp
  have d: "Do_loop p (int (Suc n)) (traced op) 0 n (([], s), w) = (out, ((answers, s'), w'))"
    using assms(2) by (simp only: Do_def Let_def n nat_int diff_Suc_1)
  have "Do p op (s, w) = (out, (s', w'))"
    using Do_loop_traced [OF d] by (simp only: Do_def Let_def n nat_int diff_Suc_1)
  moreover have "explains (Suc n) answers out"
    by (rule Do_loop_explains [OF assms(1) _ _ d]) simp_all
  ultimately show ?thesis using n by (simp only: nat_int)
qed

lemma Do_no_panic:
  assumes "good_policy p" "Do p op (s, w) = (out, sw)"
  shows "out \<noteq> Panicked"
proof -
  obtain out' rs s' w' where d: "Do p (traced op) (([], s), w) = (out', ((rs, s'), w'))"
    by (metis prod.collapse)
  from Do_explains [OF assms(1) d] assms(2) show ?thesis by (auto simp: explains_def)
qed

text \<open>An answer of the first call that ends the loop.\<close>

lemma Do_first:
  assumes "ctxErr w = (None, w1)" "op (s, w1) = (r, sw)" "\<not> retried r"
  shows "Do p op (s, w) = (Returned r, sw)"
proof -
  have "Do_loop p tot op 0 left (s, w) = (Returned r, sw)" for tot left
    using assms by (cases r; cases left; cases sw) (auto simp: Do_loop_last Do_loop_more)
  then show ?thesis by (simp add: Do_def Let_def)
qed

text \<open>C24: a retried call does what its policy says. With a positive base and a sensible cap, Do ends
  after at most max 1 Attempts calls of the operation and without panic; every call but the last failed
  with a transient error; it answers nil exactly when the last call did, a permanent or context error
  of the last call as it is, a context error between attempts, and otherwise gives up after exactly
  that many calls with the last error wrapped. The list of answers of the calls is a trace of the
  same run.\<close>

theorem Do_correct:
  assumes "0 < pl_Base p" "0 \<le> pl_Max p" "pl_Max p < maxDuration"
  shows "case Do p (traced op) (([], s), w) of (out, ((answers, s'), w')) \<Rightarrow>
    Do p op (s, w) = (out, (s', w')) \<and> explains (nat (max 1 (pl_Attempts p))) answers out"
proof -
  obtain out answers s' w' where d: "Do p (traced op) (([], s), w) = (out, ((answers, s'), w'))"
    by (metis prod.collapse)
  have "good_policy p" using assms by (simp add: good_policy_def)
  from Do_explains [OF this d] show ?thesis by (simp only: d prod.case)
qed

lemma Do_correct_witness:
  "case Do DefaultPolicy (traced (\<lambda>sw. (Some (Errorf ''down'' []), sw))) (([], ()), calm (demo_db [])) of
     (out, ((answers, s'), w')) \<Rightarrow>
       Do DefaultPolicy (\<lambda>sw. (Some (Errorf ''down'' []), sw)) ((), calm (demo_db [])) = (out, (s', w')) \<and>
       explains (nat (max 1 (pl_Attempts DefaultPolicy))) answers out"
  by (rule Do_correct) (simp_all add: DefaultPolicy_def duration_units maxDuration_def)

text \<open>What the default policy waits. The pauses of DefaultPolicy, over all the retries it allows, add
  up to at most three seconds.\<close>

theorem default_policy_total_wait:
  "(\<Sum>a<nat (pl_Attempts DefaultPolicy) - 1. backoff_ceil DefaultPolicy a) = 3 * Second"
  by (simp add: DefaultPolicy_def backoff_ceil_def wrap64_def Let_def duration_units lessThan_nat_numeral
      lessThan_Suc numeral_eq_Suc)

end
