(* ===== verification/JsonDecode.thy ===== *)
theory JsonDecode
  imports Json GoTime
begin

text \<open>
  Decoding a parsed document into Go values, by the rules of \<^verbatim>\<open>json.Unmarshal\<close>. A decoder
  returns the new value and whether every occurrence of the field fitted its type: a misfit
  leaves the field alone, makes \<^verbatim>\<open>Unmarshal\<close> return an error in the end, and does not stop it.
\<close>

section \<open>Numbers\<close>

definition natOf :: "string \<Rightarrow> nat" where
  "natOf ds = foldl (\<lambda>n c. n * 10 + digitVal c) 0 ds"

text \<open>\<^verbatim>\<open>strconv.ParseInt(lit, 10, bits)\<close> on a JSON number literal.\<close>

definition parseIntLit :: "nat \<Rightarrow> string \<Rightarrow> int option" where
  "parseIntLit bits lit =
     (let neg = (case lit of c # _ \<Rightarrow> byte c = 45 | [] \<Rightarrow> False);
          ds = (if neg then tl lit else lit);
          n = (if neg then - int (natOf ds) else int (natOf ds))
      in if ds = [] \<or> \<not> list_all isDigit ds then None
         else if n < - (2 ^ (bits - 1)) \<or> 2 ^ (bits - 1) \<le> n then None
         else Some n)"

text \<open>
  The nearest binary64 value of a quotient, ties to even, subnormals included; None is
  overflow. \<open>bitLength\<close> locates the leading bit, \<open>scaledDiv\<close> is the quotient by a power of two.
\<close>

fun bitLength :: "nat \<Rightarrow> nat" where
  "bitLength n = (if n = 0 then 0 else Suc (bitLength (n div 2)))"

declare bitLength.simps [simp del]

definition leading :: "nat \<Rightarrow> nat \<Rightarrow> int" where
  "leading num den =
     (let f = int (bitLength num) - int (bitLength den)
      in if num * 2 ^ nat (- f) < den * 2 ^ nat f then f - 1 else f)"

definition roundHalfEven :: "nat \<Rightarrow> nat \<Rightarrow> nat" where
  "roundHalfEven a b =
     (let q = a div b; r = a mod b
      in if 2 * r < b \<or> 2 * r = b \<and> even q then q else Suc q)"

definition pow2 :: "int \<Rightarrow> rat" where
  "pow2 u = (if 0 \<le> u then 2 ^ nat u else 1 / 2 ^ nat (- u))"

definition roundPos :: "nat \<Rightarrow> nat \<Rightarrow> rat option" where
  "roundPos num den =
     (if num = 0 then Some 0
      else let u = max (leading num den - 52) (- 1074);
               m = roundHalfEven (num * 2 ^ nat (- u)) (den * 2 ^ nat u);
               x = of_nat m * pow2 u
           in if 2 ^ 1024 \<le> x then None else Some x)"

definition round64 :: "rat \<Rightarrow> rat option" where
  "round64 q =
     (let (n, d) = quotient_of q
      in if 0 \<le> n then roundPos (nat n) (nat d)
         else map_option uminus (roundPos (nat (- n)) (nat d)))"

text \<open>\<^verbatim>\<open>strconv.ParseFloat(lit, 64)\<close> on a JSON number literal.\<close>

definition parseFloatLit :: "string \<Rightarrow> rat option" where
  "parseFloatLit lit =
     (let neg = (case lit of c # _ \<Rightarrow> byte c = 45 | [] \<Rightarrow> False);
          s = (if neg then tl lit else lit);
          i = takeWhile isDigit s;
          s1 = dropWhile isDigit s;
          (f, s2) = (case s1 of
                       c # cs \<Rightarrow> if byte c = 46 then (takeWhile isDigit cs, dropWhile isDigit cs) else ([], s1)
                     | [] \<Rightarrow> ([], []));
          e = (case s2 of
                 [] \<Rightarrow> 0
               | _ # g # ds \<Rightarrow> if byte g = 45 then - int (natOf ds)
                               else if byte g = 43 then int (natOf ds) else int (natOf (g # ds))
               | _ \<Rightarrow> 0);
          k = e - int (length f);
          r = roundPos (natOf (i @ f) * 10 ^ nat k) (10 ^ nat (- k))
      in if neg then map_option uminus r else r)"

section \<open>Field names\<close>

definition upperByte :: "char \<Rightarrow> char" where
  "upperByte c = (if 97 \<le> byte c \<and> byte c \<le> 122 then ''ABCDEFGHIJKLMNOPQRSTUVWXYZ'' ! (byte c - 97) else c)"

text \<open>Two runes outside ASCII fold onto letters: U+212A onto K and U+017F onto S.\<close>

fun foldName :: "string \<Rightarrow> string" where
  "foldName [] = []"
| "foldName [a] = [upperByte a]"
| "foldName [a, b] = (if byte a = 197 \<and> byte b = 191 then ''S'' else [upperByte a, upperByte b])"
| "foldName (a # b # c # r) =
     (if byte a = 226 \<and> byte b = 132 \<and> byte c = 170 then CHR ''K'' # foldName r
      else if byte a = 197 \<and> byte b = 191 then CHR ''S'' # foldName (c # r)
      else upperByte a # foldName (b # c # r))"

type_synonym members = "(string \<times> json) list"

definition fieldValues :: "string \<Rightarrow> members \<Rightarrow> json list" where
  "fieldValues name ms = map snd (filter (\<lambda>(k, v). foldName k = foldName name) ms)"

section \<open>Decoders\<close>

text \<open>\<open>decodeField step\<close> applies the occurrences in order; \<open>step\<close> is None for a misfit.\<close>

definition decodeField :: "(json \<Rightarrow> 'a \<Rightarrow> 'a option) \<Rightarrow> string \<Rightarrow> members \<Rightarrow> 'a \<Rightarrow> 'a \<times> bool" where
  "decodeField step name ms a0 =
     foldl (\<lambda>(a, ok) v. case step v a of None \<Rightarrow> (a, False) | Some b \<Rightarrow> (b, ok))
       (a0, True) (fieldValues name ms)"

definition stringStep :: "json \<Rightarrow> string \<Rightarrow> string option" where
  "stringStep v a = (case v of JNull \<Rightarrow> Some a | JStr s \<Rightarrow> Some s | _ \<Rightarrow> None)"

definition intStep :: "nat \<Rightarrow> json \<Rightarrow> int \<Rightarrow> int option" where
  "intStep bits v a = (case v of JNull \<Rightarrow> Some a | JNum l \<Rightarrow> parseIntLit bits l | _ \<Rightarrow> None)"

definition floatStep :: "json \<Rightarrow> rat \<Rightarrow> rat option" where
  "floatStep v a = (case v of JNull \<Rightarrow> Some a | JNum l \<Rightarrow> parseFloatLit l | _ \<Rightarrow> None)"

definition boolStep :: "json \<Rightarrow> bool \<Rightarrow> bool option" where
  "boolStep v a = (case v of JNull \<Rightarrow> Some a | JBool b \<Rightarrow> Some b | _ \<Rightarrow> None)"

text \<open>A \<^verbatim>\<open>json.RawMessage\<close> keeps the document, null included.\<close>

definition rawStep :: "json \<Rightarrow> json option \<Rightarrow> json option option" where
  "rawStep v a = Some (Some v)"

lemmas decode_steps = stringStep_def intStep_def floatStep_def boolStep_def rawStep_def

text \<open>What a struct sees of a document: its members, or a misfit.\<close>

definition asObject :: "json \<Rightarrow> members \<times> bool" where
  "asObject v = (case v of JObj ms \<Rightarrow> (ms, True) | JNull \<Rightarrow> ([], True) | _ \<Rightarrow> ([], False))"

definition jsonError :: error where
  "jsonError = Errorf ''encoding/json'' []"

section \<open>Facts\<close>

lemma decodeField_absent:
  "(\<And>k v. (k, v) \<in> set ms \<Longrightarrow> foldName k \<noteq> foldName name) \<Longrightarrow> decodeField step name ms a = (a, True)"
proof -
  assume absent: "\<And>k v. (k, v) \<in> set ms \<Longrightarrow> foldName k \<noteq> foldName name"
  then have "filter (\<lambda>(k, v). foldName k = foldName name) ms = []"
    by (auto simp: filter_empty_conv)
  then show ?thesis by (simp add: decodeField_def fieldValues_def)
qed

lemma parseIntLit_bounds:
  "parseIntLit bits lit = Some n \<Longrightarrow> - (2 ^ (bits - 1)) \<le> n \<and> n < 2 ^ (bits - 1)"
  by (auto simp: parseIntLit_def Let_def split: if_splits)

lemma decode_fold_ok:
  assumes "\<And>v a b. step v a = Some b \<Longrightarrow> P a \<Longrightarrow> P b" "P a"
  shows "P (fst (foldl (\<lambda>(a, ok) v. case step v a of None \<Rightarrow> (a, False) | Some b \<Rightarrow> (b, ok)) (a, ok) vs))"
  using assms(2)
proof (induction vs arbitrary: a ok)
  case (Cons v vs)
  then show ?case by (cases "step v a") (auto dest: assms(1))
qed simp

lemma decodeField_keeps:
  assumes "\<And>v a b. step v a = Some b \<Longrightarrow> P a \<Longrightarrow> P b" "P a" "decodeField step name ms a = (b, ok)"
  shows "P b"
  using decode_fold_ok [of step P a True "fieldValues name ms"] assms by (simp add: decodeField_def)

lemma decode_int_bounds:
  assumes "decodeField (intStep bits) name ms 0 = (n, ok)" "1 \<le> bits"
  shows "- (2 ^ (bits - 1)) \<le> n \<and> n < 2 ^ (bits - 1)"
  by (rule decodeField_keeps [OF _ _ assms(1)])
    (auto simp: intStep_def dest: parseIntLit_bounds split: json.splits)

text \<open>Definitions to unfold when a concrete document is read.\<close>

lemmas json_run = parseJson_def skipWs_def isSpace_def byte_def isDigit_def scanNumber_def scanInt_def
  scanDigits_def scanFrac_def scanExp_def stripPrefix_def utf8Len_def maxNestingDepth_def

lemmas decode_run = decodeField_def fieldValues_def upperByte_def byte_def decode_steps parseIntLit_def
  isDigit_def digitVal_def natOf_def asObject_def

end
