(* ===== verification/HttpClient.thy ===== *)
theory HttpClient
  imports Reliability JsonDecode "HOL-Library.Char_ord" "HOL-Library.List_Lexorder"
begin

text \<open>
  The client side of HTTP as the adapters use it. A request is answered by the next handler of
  the network source and recorded in \<open>w_sent\<close>; a response body is what \<^verbatim>\<open>io.ReadAll\<close> got
  before the stream ended or broke. Which URLs \<^verbatim>\<open>http.NewRequest\<close> refuses is a parameter of
  the client. Escaping and form encoding follow \<^verbatim>\<open>net/url\<close>.
\<close>

record http_client =
  hc_badURL :: "string \<Rightarrow> bool"

definition http_do :: "http_request \<Rightarrow> world \<Rightarrow> (driver_error + http_response) \<times> world" where
  "http_do rq w =
     (fst (draw (w_net w)) rq, w\<lparr>w_net := snd (draw (w_net w)), w_sent := w_sent w @ [rq]\<rparr>)"

section \<open>Escaping\<close>

definition hexDigitUpper :: "nat \<Rightarrow> char" where
  "hexDigitUpper n = ''0123456789ABCDEF'' ! (n mod 16)"

definition percentByte :: "char \<Rightarrow> string" where
  "percentByte c = [CHR ''%'', hexDigitUpper (byte c div 16), hexDigitUpper (byte c mod 16)]"

definition isUnreserved :: "char \<Rightarrow> bool" where
  "isUnreserved c \<longleftrightarrow>
     (let b = byte c
      in 97 \<le> b \<and> b \<le> 122 \<or> 65 \<le> b \<and> b \<le> 90 \<or> 48 \<le> b \<and> b \<le> 57 \<or> b \<in> {45, 95, 46, 126})"

text \<open>\<^verbatim>\<open>url.QueryEscape\<close>.\<close>

definition queryEscape :: "string \<Rightarrow> string" where
  "queryEscape s = concat (map (\<lambda>c. if isUnreserved c then [c]
     else if byte c = 32 then ''+'' else percentByte c) s)"

text \<open>\<^verbatim>\<open>url.PathEscape\<close> keeps \<^verbatim>\<open>$ & + : = @\<close> as well.\<close>

definition pathEscape :: "string \<Rightarrow> string" where
  "pathEscape s = concat (map (\<lambda>c. if isUnreserved c \<or> byte c \<in> {36, 38, 43, 58, 61, 64} then [c]
     else percentByte c) s)"

text \<open>\<^verbatim>\<open>url.Values\<close> with one value per key; \<^verbatim>\<open>Set\<close> replaces, \<^verbatim>\<open>Encode\<close> sorts by key.\<close>

type_synonym form = "(string \<times> string) list"

definition formSet :: "string \<Rightarrow> string \<Rightarrow> form \<Rightarrow> form" where
  "formSet k v f = filter (\<lambda>p. fst p \<noteq> k) f @ [(k, v)]"

definition formEncode :: "form \<Rightarrow> string" where
  "formEncode f =
     (let pairs = map (\<lambda>(k, v). queryEscape k @ ''='' @ queryEscape v) (sort_key fst f)
      in case pairs of [] \<Rightarrow> [] | p # ps \<Rightarrow> p @ concat (map (\<lambda>q. CHR ''&'' # q) ps))"

section \<open>What a call leaves alone\<close>

text \<open>\<open>outbound w w'\<close>: only the network, the clocks and the random source were used.\<close>

definition outbound :: "world \<Rightarrow> world \<Rightarrow> bool" where
  "outbound w w' \<longleftrightarrow>
     w_db w' = w_db w \<and> w_pg w' = w_pg w \<and> w_metrics w' = w_metrics w \<and> w_hub w' = w_hub w \<and>
     w_faults w' = w_faults w \<and> w_dbclock w' = w_dbclock w \<and> w_uuids w' = w_uuids w \<and>
     (\<exists>rs. w_sent w' = w_sent w @ rs)"

lemma outbound_refl [simp]: "outbound w w"
  by (simp add: outbound_def)

lemma outbound_trans [trans]: "outbound w w' \<Longrightarrow> outbound w' w'' \<Longrightarrow> outbound w w''"
  by (auto simp: outbound_def)

lemma outbound_env [simp]:
  "outbound w (snd (timeNow w))" "outbound w (snd (ctxErr w))" "outbound w (snd (randNext w))"
  "outbound w (snd (http_do rq w))" "outbound w (w\<lparr>w_token := t\<rparr>)"
  by (simp_all add: outbound_def environment_defs http_do_def)

lemma outboundD:
  assumes "outbound w w'"
  shows "w_db w' = w_db w" "w_pg w' = w_pg w" "w_metrics w' = w_metrics w" "w_hub w' = w_hub w"
  using assms by (simp_all add: outbound_def)

text \<open>
  A relation between worlds that holds across the operation, the reading of the context and the
  random source holds across the retries.
\<close>

locale retry_frame =
  fixes R :: "world \<Rightarrow> world \<Rightarrow> bool"
  assumes R_refl: "R w w" and R_trans: "R w w' \<Longrightarrow> R w' w'' \<Longrightarrow> R w w''"
    and R_ctx: "R w (snd (ctxErr w))" and R_rand: "R w (snd (randNext w))"
begin

lemma R_ctx': "ctxErr w = (c, w') \<Longrightarrow> R w w'"
  using R_ctx [of w] by simp

lemma backoff_R: "backoff p a w = (r, w') \<Longrightarrow> R w w'"
  using R_rand [of w] R_refl [of w]
  by (auto simp: backoff_def rand_N_def Let_def split: if_splits prod.splits)

lemma Do_loop_R:
  assumes op: "\<And>s w r s' w'. op (s, w) = (r, (s', w')) \<Longrightarrow> R w w'"
    and "Do_loop p tot op a left (s, w) = (out, (s', w'))"
  shows "R w w'"
  using assms(2)
proof (induction left arbitrary: a s w)
  case 0
  obtain c w1 where c: "ctxErr w = (c, w1)" by fastforce
  obtain r s2 w2 where o: "op (s, w1) = (r, (s2, w2))" by (metis prod.collapse)
  from 0 c o have "w' = w1 \<or> w' = w2" by (auto simp: Do_loop_last split: option.splits if_splits)
  then show ?case using R_ctx' [OF c] op [OF o] R_trans by blast
next
  case (Suc left)
  obtain c w1 where c: "ctxErr w = (c, w1)" by fastforce
  obtain r s2 w2 where o: "op (s, w1) = (r, (s2, w2))" by (metis prod.collapse)
  obtain b w3 where b: "backoff p a w2 = (b, w3)" by fastforce
  obtain c' w4 where c': "ctxErr w3 = (c', w4)" by fastforce
  have chain: "R w w1" "R w w2" "R w w3" "R w w4"
    using R_ctx' [OF c] op [OF o] backoff_R [OF b] R_ctx' [OF c'] R_trans by blast+
  from Suc.prems c o b c' have "w' \<in> {w1, w2, w3, w4} \<or>
      Do_loop p tot op (Suc a) left (s2, w4) = (out, (s', w'))"
    by (auto simp: Do_loop_more split: option.splits if_splits)
  then show ?case using chain Suc.IH R_trans by blast
qed

lemma Do_R:
  "(\<And>s w r s' w'. op (s, w) = (r, (s', w')) \<Longrightarrow> R w w') \<Longrightarrow> Do p op (s, w) = (out, (s', w')) \<Longrightarrow> R w w'"
  unfolding Do_def Let_def by (rule Do_loop_R)

end

interpretation outbound: retry_frame outbound
  by unfold_locales (auto intro: outbound_trans)

end
