(* ===== verification/OAuth.thy ===== *)
theory OAuth
  imports HttpClient
begin

text \<open>
  The OAuth token manager (\<^verbatim>\<open>internal/oauth/oauth.go\<close>). The cached token is \<open>w_token\<close>; the
  mutex makes every call of the manager one step, network calls included.
\<close>

definition expirySkew :: Duration where "expirySkew = 30 * Second"

definition token_Valid :: "Token \<Rightarrow> Time \<Rightarrow> bool" where
  "token_Valid t now \<longleftrightarrow>
     tk_AccessToken t \<noteq> [] \<and> time_Before now (time_Add (tk_Expiry t) (- expirySkew))"

record oauth_config =
  oc_TokenURL :: string
  oc_ClientID :: string
  oc_ClientSecret :: string
  oc_client :: http_client

section \<open>One token request\<close>

record tokenResponse =
  tr_AccessToken :: string
  tr_RefreshToken :: string
  tr_ExpiresIn :: int
  tr_Error :: string

definition decodeTokenResponse :: "string \<Rightarrow> tokenResponse \<times> bool" where
  "decodeTokenResponse body =
     (case parseJson body of
        None \<Rightarrow> (\<lparr>tr_AccessToken = [], tr_RefreshToken = [], tr_ExpiresIn = 0, tr_Error = []\<rparr>, False)
      | Some v \<Rightarrow>
          (let (ms, ok0) = asObject v;
               (access, ok1) = decodeField stringStep ''access_token'' ms [];
               (refresh, ok2) = decodeField stringStep ''refresh_token'' ms [];
               (expires, ok3) = decodeField (intStep 64) ''expires_in'' ms 0;
               (err, ok4) = decodeField stringStep ''error'' ms []
           in (\<lparr>tr_AccessToken = access, tr_RefreshToken = refresh, tr_ExpiresIn = expires,
                tr_Error = err\<rparr>, ok0 \<and> ok1 \<and> ok2 \<and> ok3 \<and> ok4)))"

definition grantPolicy :: Policy where
  "grantPolicy = \<lparr>pl_Attempts = 3, pl_Base = 100 * Millisecond, pl_Max = Second\<rparr>"

definition tokenExpiry :: "Time \<Rightarrow> int \<Rightarrow> Time" where
  "tokenExpiry now expiresIn = time_Add now (wrap64 (expiresIn * Second))"

definition grantRequest :: "oauth_config \<Rightarrow> form \<Rightarrow> http_request" where
  "grantRequest cfg f = \<lparr>rq_method = ''POST'', rq_url = oc_TokenURL cfg, rq_token = [],
     rq_body = formEncode f\<rparr>"

text \<open>The closure \<^verbatim>\<open>grant\<close> hands to \<^verbatim>\<open>reliability.Do\<close>; the captured variable is \<^verbatim>\<open>tok\<close>.\<close>

definition grantOp :: "oauth_config \<Rightarrow> form \<Rightarrow> Token operation" where
  "grantOp cfg f = (\<lambda>(tok, w).
     if hc_badURL (oc_client cfg) (oc_TokenURL cfg)
     then (Some (Permanent (Errorf ''net/http: bad request'' [])), (tok, w))
     else case http_do (grantRequest cfg f) w of
            (Inl d, w1) \<Rightarrow> (Some (Wrapf ''token endpoint: %w'' [] (Driver d)), (tok, w1))
          | (Inr resp, w1) \<Rightarrow>
              (let (tr, ok) = decodeTokenResponse (take 65536 (rs_body resp)); code = rs_status resp
               in if code = 200 then
                    if \<not> ok then
                      (Some (Permanent (Wrapf ''malformed token response: %w'' [] jsonError)), (tok, w1))
                    else if tr_AccessToken tr = [] \<or> tr_ExpiresIn tr \<le> 0 then
                      (Some (Permanent (Errorf ''token response missing access_token/expires_in'' [])), (tok, w1))
                    else
                      (let (now, w2) = timeNow w1
                       in (None, (\<lparr>tk_AccessToken = tr_AccessToken tr, tk_RefreshToken = tr_RefreshToken tr,
                             tk_Expiry = tokenExpiry now (tr_ExpiresIn tr)\<rparr>, w2)))
                  else if 400 \<le> code \<and> code < 500 then
                    (Some (Permanent (Errorf ''token endpoint %d (%s)'' [AInt code, AStr (tr_Error tr)])), (tok, w1))
                  else (Some (Errorf ''token endpoint %d'' [AInt code]), (tok, w1))))"

text \<open>A panic of \<^verbatim>\<open>rand.N\<close> would end the process; with this policy there is none (\<open>grant_no_panic\<close>).\<close>

definition panicError :: error where "panicError = Errorf ''panic'' []"

definition grant :: "oauth_config \<Rightarrow> form \<Rightarrow> world \<Rightarrow> Token res \<times> world" where
  "grant cfg f w =
     (let f' = formSet ''client_secret'' (oc_ClientSecret cfg) (formSet ''client_id'' (oc_ClientID cfg) f)
      in case Do grantPolicy (grantOp cfg f') (zeroToken, w) of
           (Returned None, (tok, w1)) \<Rightarrow> (Inr tok, w1)
         | (Returned (Some e), (tok, w1)) \<Rightarrow> (Inl e, w1)
         | (Panicked, (tok, w1)) \<Rightarrow> (Inl panicError, w1))"

section \<open>The manager\<close>

definition credentialsForm :: form where
  "credentialsForm = [(''grant_type'', ''client_credentials'')]"

definition refreshForm :: "string \<Rightarrow> form" where
  "refreshForm rt = [(''grant_type'', ''refresh_token''), (''refresh_token'', rt)]"

definition obtainFresh :: "oauth_config \<Rightarrow> world \<Rightarrow> Token res \<times> world" where
  "obtainFresh cfg w =
     (case grant cfg credentialsForm w of
        (Inl e, w1) \<Rightarrow> (Inl (Wrapf ''obtaining token: %w'' [] e), w1)
      | (Inr tok, w1) \<Rightarrow> (Inr tok, w1))"

definition obtainLocked :: "oauth_config \<Rightarrow> world \<Rightarrow> Token res \<times> world" where
  "obtainLocked cfg w =
     (if tk_RefreshToken (w_token w) \<noteq> [] then
        (case grant cfg (refreshForm (tk_RefreshToken (w_token w))) w of
           (Inr tok, w1) \<Rightarrow> (Inr tok, w1)
         | (Inl e, w1) \<Rightarrow>
             if \<not> IsPermanent e then (Inl (Wrapf ''refreshing token: %w'' [] e), w1)
             else obtainFresh cfg w1)
      else obtainFresh cfg w)"

definition AccessToken :: "oauth_config \<Rightarrow> world \<Rightarrow> string res \<times> world" where
  "AccessToken cfg w =
     (let (now, w1) = timeNow w
      in if token_Valid (w_token w1) now then (Inr (tk_AccessToken (w_token w1)), w1)
         else case obtainLocked cfg w1 of
                (Inl e, w2) \<Rightarrow> (Inl e, w2)
              | (Inr tok, w2) \<Rightarrow> (Inr (tk_AccessToken tok), w2\<lparr>w_token := tok\<rparr>))"

definition Invalidate :: "world \<Rightarrow> world" where
  "Invalidate w = w\<lparr>w_token := zeroToken\<rparr>"

section \<open>Where a token request goes\<close>

text \<open>
  \<open>tokenTraffic cfg w w'\<close>: from \<open>w\<close> to \<open>w'\<close> only the token endpoint was contacted and the cached
  token was not touched.
\<close>

definition tokenTraffic :: "oauth_config \<Rightarrow> world \<Rightarrow> world \<Rightarrow> bool" where
  "tokenTraffic cfg w w' \<longleftrightarrow> outbound w w' \<and> w_token w' = w_token w \<and>
     (\<exists>rs. w_sent w' = w_sent w @ rs \<and> (\<forall>r\<in>set rs. rq_url r = oc_TokenURL cfg \<and> rq_token r = []))"

lemma tokenTraffic_refl [simp]: "tokenTraffic cfg w w"
  by (simp add: tokenTraffic_def)

lemma tokenTraffic_trans [trans]:
  assumes "tokenTraffic cfg w w'" "tokenTraffic cfg w' w''"
  shows "tokenTraffic cfg w w''"
proof -
  from assms obtain rs rs' where "w_sent w' = w_sent w @ rs" "w_sent w'' = w_sent w' @ rs'"
    "\<forall>r\<in>set rs. rq_url r = oc_TokenURL cfg \<and> rq_token r = []"
    "\<forall>r\<in>set rs'. rq_url r = oc_TokenURL cfg \<and> rq_token r = []" by (auto simp: tokenTraffic_def)
  then show ?thesis
    using assms outbound_trans [of w w' w'']
    by (auto simp: tokenTraffic_def intro!: exI [of _ "rs @ rs'"])
qed

interpretation token_traffic: retry_frame "tokenTraffic cfg" for cfg
  by unfold_locales
    (auto intro: tokenTraffic_trans simp: tokenTraffic_def environment_defs outbound_def)

lemma grantOp_traffic:
  assumes "grantOp cfg f (tok, w) = (r, (tok', w'))"
  shows "tokenTraffic cfg w w'"
proof -
  have "tokenTraffic cfg w (snd (http_do (grantRequest cfg f) w))"
    by (simp add: tokenTraffic_def) (simp add: http_do_def grantRequest_def)
  moreover have "timeNow v = (now, v') \<Longrightarrow> tokenTraffic cfg v v'" for v now v'
    by (auto simp: tokenTraffic_def timeNow_def outbound_def)
  ultimately show ?thesis
    using assms by (auto simp: grantOp_def Let_def split: if_splits prod.splits sum.splits
        intro: tokenTraffic_trans)
qed

lemma grant_traffic: "tokenTraffic cfg w (snd (grant cfg f w))"
proof -
  define f' where "f' = formSet ''client_secret'' (oc_ClientSecret cfg) (formSet ''client_id'' (oc_ClientID cfg) f)"
  obtain out tok w1 where d: "Do grantPolicy (grantOp cfg f') (zeroToken, w) = (out, (tok, w1))"
    by (metis prod.collapse)
  have "tokenTraffic cfg w w1" by (rule token_traffic.Do_R [OF grantOp_traffic d])
  moreover have "snd (grant cfg f w) = w1"
    unfolding grant_def Let_def f'_def [symmetric] d by (simp split: outcome.split option.split)
  ultimately show ?thesis by simp
qed

lemma obtainFresh_traffic: "tokenTraffic cfg w (snd (obtainFresh cfg w))"
  using grant_traffic [of cfg w credentialsForm] by (auto simp: obtainFresh_def split: prod.split sum.split)

lemma obtain_traffic: "tokenTraffic cfg w (snd (obtainLocked cfg w))"
proof (cases "grant cfg (refreshForm (tk_RefreshToken (w_token w))) w")
  case (Pair r w1)
  have "tokenTraffic cfg w w1"
    using grant_traffic [of cfg w "refreshForm (tk_RefreshToken (w_token w))"] Pair by simp
  then show ?thesis
    using Pair obtainFresh_traffic [of cfg w] tokenTraffic_trans [OF _ obtainFresh_traffic [of cfg w1]]
    by (auto simp: obtainLocked_def split: sum.split)
qed

section \<open>Outcomes of a token request\<close>

lemma grantPolicy_good: "good_policy grantPolicy"
  by (simp add: grantPolicy_def good_policy_def duration_units maxDuration_def)

text \<open>What a successful answer of the closure left in its captured variable.\<close>

definition issued :: "Token \<Rightarrow> bool" where
  "issued t \<longleftrightarrow> tk_AccessToken t \<noteq> [] \<and>
     (\<exists>now n. 0 < n \<and> n < 2 ^ 63 \<and> tk_Expiry t = tokenExpiry now n)"

lemma decodeTokenResponse_expires:
  "decodeTokenResponse body = (tr, ok) \<Longrightarrow> tr_ExpiresIn tr < 2 ^ 63"
  by (auto simp: decodeTokenResponse_def Let_def split: option.splits prod.splits
      dest!: decode_int_bounds)

lemma grantOp_None:
  assumes "grantOp cfg f (tok, w) = (None, (tok', w'))"
  shows "issued tok'"
proof -
  from assms obtain body tr now where "decodeTokenResponse body = (tr, True)"
    "tr_AccessToken tr \<noteq> []" "0 < tr_ExpiresIn tr"
    "tok' = \<lparr>tk_AccessToken = tr_AccessToken tr, tk_RefreshToken = tr_RefreshToken tr,
       tk_Expiry = tokenExpiry now (tr_ExpiresIn tr)\<rparr>"
    by (auto simp: grantOp_def Let_def split: if_splits prod.splits sum.splits)
  then show ?thesis
    using decodeTokenResponse_expires [of body tr True] by (auto simp: issued_def)
qed

lemma Do_loop_None:
  assumes "\<And>s w s' w'. op (s, w) = (None, (s', w')) \<Longrightarrow> P s'"
  shows "Do_loop p tot op a left (s, w) = (Returned None, (s', w')) \<Longrightarrow> P s'"
proof (induction left arbitrary: a s w)
  case 0
  then show ?case
    using assms by (auto simp: Do_loop_last split: prod.splits option.splits if_splits)
next
  case (Suc left)
  then show ?case
    using assms by (auto simp: Do_loop_more split: prod.splits option.splits if_splits)
qed

lemma grant_no_panic: "fst (Do grantPolicy (grantOp cfg f) (tok, w)) \<noteq> Panicked"
  using Do_no_panic [OF grantPolicy_good] by (metis prod.collapse)

lemma grant_Inr:
  assumes "grant cfg f w = (Inr tok, w')"
  shows "issued tok"
proof -
  define f' where "f' = formSet ''client_secret'' (oc_ClientSecret cfg) (formSet ''client_id'' (oc_ClientID cfg) f)"
  from assms have "Do grantPolicy (grantOp cfg f') (zeroToken, w) = (Returned None, (tok, w'))"
    by (auto simp: grant_def Let_def f'_def split: prod.splits outcome.splits option.splits)
  then show ?thesis
    unfolding Do_def Let_def by (rule Do_loop_None [rotated]) (rule grantOp_None)
qed

lemma obtain_Inr: "obtainLocked cfg w = (Inr tok, w') \<Longrightarrow> issued tok"
  by (auto simp: obtainLocked_def obtainFresh_def dest: grant_Inr split: if_splits prod.splits sum.splits)

lemma AccessToken_outcome:
  "case AccessToken cfg w of (r, w') \<Rightarrow>
     (if token_Valid (w_token w) (fst (timeNow w))
      then r = Inr (tk_AccessToken (w_token w)) \<and> w_sent w' = w_sent w else True) \<and>
     outbound w w' \<and>
     (\<exists>rs. w_sent w' = w_sent w @ rs \<and> list_all (\<lambda>q. rq_url q = oc_TokenURL cfg \<and> rq_token q = []) rs) \<and>
     (case r of
        Inr t \<Rightarrow> t \<noteq> [] \<and> t = tk_AccessToken (w_token w')
      | Inl e \<Rightarrow> w_token w' = w_token w)"
proof -
  obtain now w1 where t: "timeNow w = (now, w1)" by fastforce
  then have w1: "w_token w1 = w_token w" "w_sent w1 = w_sent w" "outbound w w1"
    using outbound_env(1) [of w] by (auto simp: timeNow_def)
  show ?thesis
  proof (cases "token_Valid (w_token w) now")
    case True
    then have "tk_AccessToken (w_token w) \<noteq> []" by (simp add: token_Valid_def)
    with True w1 t show ?thesis by (simp add: AccessToken_def)
  next
    case False
    obtain r w2 where o: "obtainLocked cfg w1 = (r, w2)" by fastforce
    have traffic: "tokenTraffic cfg w1 w2" using obtain_traffic [of cfg w1] o by simp
    then have "outbound w w2" using w1(3) outbound_trans by (auto simp: tokenTraffic_def)
    moreover from this have "outbound w (w2\<lparr>w_token := tok\<rparr>)" for tok
      by (rule outbound_trans) simp
    ultimately show ?thesis
      using False t w1 o traffic obtain_Inr [of cfg w1 _ w2]
      by (cases r) (auto simp: AccessToken_def tokenTraffic_def issued_def list_all_iff)
  qed
qed


definition grantForm :: "oauth_config \<Rightarrow> form \<Rightarrow> form" where
  "grantForm cfg f = formSet ''client_secret'' (oc_ClientSecret cfg) (formSet ''client_id'' (oc_ClientID cfg) f)"

text \<open>The next answer of the network, when nothing cancels the context.\<close>

definition answers_next :: "world \<Rightarrow> nat \<Rightarrow> http_response \<Rightarrow> bool" where
  "answers_next w k resp \<longleftrightarrow> (\<forall>rq. fst (w_net w) (snd (w_net w) + k) rq = Inr resp)"

definition never_cancelled :: "world \<Rightarrow> bool" where
  "never_cancelled w \<longleftrightarrow> (\<forall>n. fst (w_ctx w) n = None)"

lemma grant_refused:
  assumes "never_cancelled w" "\<not> hc_badURL (oc_client cfg) (oc_TokenURL cfg)"
    "answers_next w 0 resp" "400 \<le> rs_status resp" "rs_status resp < 500"
  shows "\<exists>e w1. grant cfg f w = (Inl e, w1) \<and> IsPermanent e \<and> never_cancelled w1 \<and>
    w_sent w1 = w_sent w @ [grantRequest cfg (grantForm cfg f)] \<and> w_token w1 = w_token w \<and>
    w_net w1 = (fst (w_net w), Suc (snd (w_net w)))"
proof -
  obtain w0 where c: "ctxErr w = (None, w0)" "w_net w0 = w_net w" "w_sent w0 = w_sent w"
    "w_token w0 = w_token w" "never_cancelled w0"
    using assms(1) by (auto simp: ctxErr_def never_cancelled_def)
  let ?w1 = "snd (http_do (grantRequest cfg (grantForm cfg f)) w0)"
  obtain tr ok where tr: "decodeTokenResponse (take 65536 (rs_body resp)) = (tr, ok)" by fastforce
  obtain e where op: "grantOp cfg (grantForm cfg f) (zeroToken, w0) = (Some (Permanent e), (zeroToken, ?w1))"
    using tr assms(2-5) c(2)
    by (auto simp: grantOp_def http_do_def answers_next_def Let_def)
  have "grant cfg f w = (Inl (Permanent e), ?w1)"
    using Do_first [of w w0 "grantOp cfg (grantForm cfg f)" zeroToken, OF c(1) op]
    by (simp add: grant_def final_error_def flip: grantForm_def)
  then show ?thesis using c by (auto simp: http_do_def never_cancelled_def)
qed

lemma grant_granted:
  assumes "never_cancelled w" "\<not> hc_badURL (oc_client cfg) (oc_TokenURL cfg)"
    "answers_next w 0 resp" "rs_status resp = 200"
    "decodeTokenResponse (take 65536 (rs_body resp)) = (tr, True)"
    "tr_AccessToken tr \<noteq> []" "0 < tr_ExpiresIn tr"
  shows "\<exists>tok w1. grant cfg f w = (Inr tok, w1) \<and> tk_AccessToken tok = tr_AccessToken tr \<and>
    w_sent w1 = w_sent w @ [grantRequest cfg (grantForm cfg f)] \<and> never_cancelled w1 \<and>
    w_net w1 = (fst (w_net w), Suc (snd (w_net w)))"
proof -
  obtain w0 where c: "ctxErr w = (None, w0)" "w_net w0 = w_net w" "w_sent w0 = w_sent w" "never_cancelled w0"
    using assms(1) by (auto simp: ctxErr_def never_cancelled_def)
  let ?w1 = "snd (http_do (grantRequest cfg (grantForm cfg f)) w0)"
  let ?tok = "\<lparr>tk_AccessToken = tr_AccessToken tr, tk_RefreshToken = tr_RefreshToken tr,
    tk_Expiry = tokenExpiry (fst (timeNow ?w1)) (tr_ExpiresIn tr)\<rparr>"
  have op: "grantOp cfg (grantForm cfg f) (zeroToken, w0) = (None, (?tok, snd (timeNow ?w1)))"
    using assms(2-7) c(2)
    by (auto simp: grantOp_def http_do_def answers_next_def Let_def split: prod.split)
  have "grant cfg f w = (Inr ?tok, snd (timeNow ?w1))"
    using Do_first [of w w0 "grantOp cfg (grantForm cfg f)" zeroToken, OF c(1) op] by (simp add: grant_def flip: grantForm_def)
  then show ?thesis using c by (simp add: http_do_def timeNow_def never_cancelled_def)
qed

text \<open>A rejected refresh token does not wedge the manager. When the cached token has expired, the
  token endpoint refuses the refresh token with a 4xx and then grants client credentials, one call of
  AccessToken sends exactly those two requests and returns the new token.\<close>

theorem revoked_refresh_recovers:
  assumes "\<not> token_Valid (w_token w) (fst (timeNow w))" "tk_RefreshToken (w_token w) \<noteq> []"
    "never_cancelled w" "\<not> hc_badURL (oc_client cfg) (oc_TokenURL cfg)"
    "answers_next w 0 no" "400 \<le> rs_status no" "rs_status no < 500"
    "answers_next w 1 yes" "rs_status yes = 200"
    "decodeTokenResponse (take 65536 (rs_body yes)) = (tr, True)"
    "tr_AccessToken tr \<noteq> []" "0 < tr_ExpiresIn tr"
  shows "fst (AccessToken cfg w) = Inr (tr_AccessToken tr) \<and>
    w_sent (snd (AccessToken cfg w)) = w_sent w @
      [grantRequest cfg (grantForm cfg (refreshForm (tk_RefreshToken (w_token w)))),
       grantRequest cfg (grantForm cfg credentialsForm)]"
proof -
  obtain now w0 where t: "timeNow w = (now, w0)" "w_token w0 = w_token w" "w_sent w0 = w_sent w"
    "never_cancelled w0" "answers_next w0 0 no" "answers_next w0 1 yes"
    using assms(3,5,8) by (auto simp: timeNow_def never_cancelled_def answers_next_def)
  from grant_refused [OF t(4) assms(4) t(5) assms(6,7), of "refreshForm (tk_RefreshToken (w_token w))"]
  obtain e w1 where g1: "grant cfg (refreshForm (tk_RefreshToken (w_token w))) w0 = (Inl e, w1)"
    "IsPermanent e" "never_cancelled w1" "w_net w1 = (fst (w_net w0), Suc (snd (w_net w0)))"
    "w_sent w1 = w_sent w @ [grantRequest cfg (grantForm cfg (refreshForm (tk_RefreshToken (w_token w))))]"
    using t(3) by auto
  have "answers_next w1 0 yes" using t(6) g1(4) by (simp add: answers_next_def)
  from grant_granted [OF g1(3) assms(4) this assms(9-12), of credentialsForm]
  show ?thesis
    using assms(1,2) t g1 by (auto simp: AccessToken_def obtainLocked_def obtainFresh_def)
qed

definition demo_oauth :: oauth_config where
  "demo_oauth = \<lparr>oc_TokenURL = ''http://sim/token'', oc_ClientID = ''c'', oc_ClientSecret = ''s'',
     oc_client = \<lparr>hc_badURL = (\<lambda>_. False)\<rparr>\<rparr>"

definition demo_grant_body :: string where
  "demo_grant_body = ''{\"access_token\":\"t2\",\"expires_in\":60}''"

lemma revoked_refresh_recovers_witness:
  "let w = (calm (demo_db []))\<lparr>
      w_net := (\<lambda>n rq. Inr (if n = 0 then \<lparr>rs_status = 400, rs_body = []\<rparr>
                             else \<lparr>rs_status = 200, rs_body = demo_grant_body\<rparr>), 0),
      w_token := \<lparr>tk_AccessToken = ''t1'', tk_RefreshToken = ''r1'', tk_Expiry = 0\<rparr>\<rparr>
   in fst (AccessToken demo_oauth w) = Inr ''t2'' \<and> length (w_sent (snd (AccessToken demo_oauth w))) = 2"
proof -
  let ?w = "(calm (demo_db []))\<lparr>
      w_net := (\<lambda>n rq. Inr (if n = 0 then \<lparr>rs_status = 400, rs_body = []\<rparr>
                             else \<lparr>rs_status = 200, rs_body = demo_grant_body\<rparr>), 0),
      w_token := \<lparr>tk_AccessToken = ''t1'', tk_RefreshToken = ''r1'', tk_Expiry = 0\<rparr>\<rparr>"
  have "take 65536 demo_grant_body = demo_grant_body"
    by (simp add: demo_grant_body_def)
  moreover have "decodeTokenResponse demo_grant_body =
      (\<lparr>tr_AccessToken = ''t2'', tr_RefreshToken = [], tr_ExpiresIn = 60, tr_Error = []\<rparr>, True)"
    by (simp add: decodeTokenResponse_def demo_grant_body_def json_run decode_run)
  ultimately show ?thesis
    using revoked_refresh_recovers [of ?w demo_oauth "\<lparr>rs_status = 400, rs_body = []\<rparr>"
        "\<lparr>rs_status = 200, rs_body = demo_grant_body\<rparr>"
        "\<lparr>tr_AccessToken = ''t2'', tr_RefreshToken = [], tr_ExpiresIn = 60, tr_Error = []\<rparr>"]
    by (simp add: Let_def token_Valid_def timeNow_def time_Before_def time_Add_def expirySkew_def
        duration_units never_cancelled_def answers_next_def demo_oauth_def demo_world_def)
qed

end
