(* ===== verification/HttpServer.thy ===== *)
theory HttpServer
  imports GoTime GoErrors World JsonDecode
begin

text \<open>
  The server side of \<^verbatim>\<open>net/http\<close> as the handlers use it. A request is its method, its path,
  the first value of each header (looked up in any case of its letters) and query parameter
  (empty when absent), the values of the path
  wildcards, and a body: the bytes that can be read and whether the read after the last of them
  fails. A reply is a status and either the plain text of \<^verbatim>\<open>http.Error\<close> or a JSON document.
\<close>

record http_in =
  in_method :: string
  in_path :: string
  in_header :: "string \<Rightarrow> string"
  in_query :: "string \<Rightarrow> string"
  in_pathValue :: "string \<Rightarrow> string"
  in_body :: string
  in_broken :: bool

datatype reply_body = PlainText message | JsonDoc json

record http_reply =
  rp_status :: int
  rp_body :: reply_body

type_synonym handler = "http_in \<Rightarrow> world \<Rightarrow> http_reply \<times> world"

definition StatusOK :: int where "StatusOK = 200"
definition StatusAccepted :: int where "StatusAccepted = 202"
definition StatusBadRequest :: int where "StatusBadRequest = 400"
definition StatusUnauthorized :: int where "StatusUnauthorized = 401"
definition StatusNotFound :: int where "StatusNotFound = 404"
definition StatusConflict :: int where "StatusConflict = 409"
definition StatusRequestEntityTooLarge :: int where "StatusRequestEntityTooLarge = 413"
definition StatusInternalServerError :: int where "StatusInternalServerError = 500"
definition StatusServiceUnavailable :: int where "StatusServiceUnavailable = 503"

lemmas status_codes [simp] = StatusOK_def StatusAccepted_def StatusBadRequest_def
  StatusUnauthorized_def StatusNotFound_def StatusConflict_def StatusRequestEntityTooLarge_def
  StatusInternalServerError_def StatusServiceUnavailable_def

definition httpError :: "message \<Rightarrow> int \<Rightarrow> http_reply" where
  "httpError msg status = \<lparr>rp_status = status, rp_body = PlainText msg\<rparr>"

definition jsonReply :: "int \<Rightarrow> json \<Rightarrow> http_reply" where
  "jsonReply status doc = \<lparr>rp_status = status, rp_body = JsonDoc doc\<rparr>"

lemma reply_status [simp]:
  "rp_status (httpError msg status) = status" "rp_status (jsonReply status doc) = status"
  by (simp_all add: httpError_def jsonReply_def)

section \<open>Bounded reads\<close>

text \<open>
  \<^verbatim>\<open>io.ReadAll(io.LimitReader(r.Body, n))\<close>: a limit that is not positive ends the stream at
  once, and a stream that breaks at or after the limit is not seen to break.
\<close>

definition readLimited :: "int \<Rightarrow> http_in \<Rightarrow> string option" where
  "readLimited n r =
     (if n \<le> 0 then Some []
      else if int (length (in_body r)) < n then (if in_broken r then None else Some (in_body r))
      else Some (take (nat n) (in_body r)))"

text \<open>
  The pattern of both HTTP handlers: read one byte more than is allowed and refuse what is
  longer. The sum is an \<^verbatim>\<open>int64\<close> and wraps.
\<close>

datatype bounded_body = BodyBroken | BodyTooLarge | BodyOk string

definition readBounded :: "int \<Rightarrow> http_in \<Rightarrow> bounded_body" where
  "readBounded maxBytes r =
     (case readLimited (wrap64 (maxBytes + 1)) r of
        None \<Rightarrow> BodyBroken
      | Some body \<Rightarrow> if maxBytes < int (length body) then BodyTooLarge else BodyOk body)"

text \<open>Below the largest \<^verbatim>\<open>int64\<close> the bound works: what is handled is the whole body, unbroken.\<close>

lemma readBounded_ok:
  assumes "0 \<le> m" "m < maxDuration"
  shows "readBounded m r =
    (if m < int (length (in_body r)) then BodyTooLarge
     else if in_broken r then BodyBroken else BodyOk (in_body r))"
  using assms by (auto simp: readBounded_def readLimited_def wrap64_id maxDuration_def)

text \<open>At the largest one the sum wraps, nothing is read and every body is empty.\<close>

lemma readBounded_overflow: "readBounded maxDuration r = BodyOk []"
  by (simp add: readBounded_def readLimited_def wrap64_def maxDuration_def)

lemma readBounded_small:
  assumes "readBounded m r = BodyOk body"
  shows "int (length body) \<le> m"
  using assms by (auto simp: readBounded_def split: option.splits if_splits)

end
