(* ===== verification/Hmac.thy ===== *)
theory Hmac
  imports JsonDecode "HOL-Library.Word"
begin

text \<open>
  SHA-256 and HMAC as \<^verbatim>\<open>crypto/sha256\<close> and \<^verbatim>\<open>crypto/hmac\<close> compute them, on byte strings,
  and hexadecimal encoding as in \<^verbatim>\<open>encoding/hex\<close>. The constants are those of
  FIPS 180-4, in decimal: the fractional bits of the square and cube roots of the first primes.
\<close>

unbundle bit_operations_syntax

section \<open>SHA-256\<close>

type_synonym u32 = "32 word"

definition sha_K :: "u32 list" where
  "sha_K =
    [1116352408, 1899447441, 3049323471, 3921009573, 961987163, 1508970993, 2453635748, 2870763221,
     3624381080, 310598401, 607225278, 1426881987, 1925078388, 2162078206, 2614888103, 3248222580,
     3835390401, 4022224774, 264347078, 604807628, 770255983, 1249150122, 1555081692, 1996064986,
     2554220882, 2821834349, 2952996808, 3210313671, 3336571891, 3584528711, 113926993, 338241895,
     666307205, 773529912, 1294757372, 1396182291, 1695183700, 1986661051, 2177026350, 2456956037,
     2730485921, 2820302411, 3259730800, 3345764771, 3516065817, 3600352804, 4094571909, 275423344,
     430227734, 506948616, 659060556, 883997877, 958139571, 1322822218, 1537002063, 1747873779,
     1955562222, 2024104815, 2227730452, 2361852424, 2428436474, 2756734187, 3204031479, 3329325298]"

record sha_state =
  sa :: u32
  sb :: u32
  sc :: u32
  sd :: u32
  se :: u32
  sf :: u32
  sg :: u32
  sh :: u32

definition sha_init :: sha_state where
  "sha_init = \<lparr>sa = 1779033703, sb = 3144134277, sc = 1013904242, sd = 2773480762,
     se = 1359893119, sf = 2600822924, sg = 528734635, sh = 1541459225\<rparr>"

definition big_sigma0 :: "u32 \<Rightarrow> u32" where
  "big_sigma0 x = word_rotr 2 x XOR word_rotr 13 x XOR word_rotr 22 x"
definition big_sigma1 :: "u32 \<Rightarrow> u32" where
  "big_sigma1 x = word_rotr 6 x XOR word_rotr 11 x XOR word_rotr 25 x"
definition small_sigma0 :: "u32 \<Rightarrow> u32" where
  "small_sigma0 x = word_rotr 7 x XOR word_rotr 18 x XOR drop_bit 3 x"
definition small_sigma1 :: "u32 \<Rightarrow> u32" where
  "small_sigma1 x = word_rotr 17 x XOR word_rotr 19 x XOR drop_bit 10 x"

definition sha_ch :: "u32 \<Rightarrow> u32 \<Rightarrow> u32 \<Rightarrow> u32" where
  "sha_ch x y z = (x AND y) XOR (NOT x AND z)"
definition sha_maj :: "u32 \<Rightarrow> u32 \<Rightarrow> u32 \<Rightarrow> u32" where
  "sha_maj x y z = (x AND y) XOR (x AND z) XOR (y AND z)"

text \<open>The schedule, newest word first: \<open>n\<close> further words after the sixteen of the block.\<close>

fun sha_extend :: "nat \<Rightarrow> u32 list \<Rightarrow> u32 list" where
  "sha_extend 0 ws = ws"
| "sha_extend (Suc n) ws =
     sha_extend n ((small_sigma1 (ws ! 1) + ws ! 6 + small_sigma0 (ws ! 14) + ws ! 15) # ws)"

definition sha_round :: "u32 \<times> u32 \<Rightarrow> sha_state \<Rightarrow> sha_state" where
  "sha_round kw s =
     (let t1 = sh s + big_sigma1 (se s) + sha_ch (se s) (sf s) (sg s) + fst kw + snd kw;
          t2 = big_sigma0 (sa s) + sha_maj (sa s) (sb s) (sc s)
      in \<lparr>sa = t1 + t2, sb = sa s, sc = sb s, sd = sc s, se = sd s + t1, sf = se s, sg = sf s, sh = sg s\<rparr>)"

definition sha_block :: "sha_state \<Rightarrow> u32 list \<Rightarrow> sha_state" where
  "sha_block s ws =
     (let r = fold sha_round (zip sha_K (rev (sha_extend 48 (rev ws)))) s
      in \<lparr>sa = sa s + sa r, sb = sb s + sb r, sc = sc s + sc r, sd = sd s + sd r,
          se = se s + se r, sf = sf s + sf r, sg = sg s + sg r, sh = sh s + sh r\<rparr>)"

definition be_word :: "string \<Rightarrow> u32" where
  "be_word bs = fold (\<lambda>c w. push_bit 8 w + of_nat (byte c)) bs 0"

definition word_be :: "u32 \<Rightarrow> string" where
  "word_be w = map (\<lambda>i. char_of (unat (drop_bit (8 * i) w) mod 256)) [3, 2, 1, 0]"

text \<open>Cutting a list into pieces of \<open>n\<close> elements.\<close>

function chunks :: "nat \<Rightarrow> 'a list \<Rightarrow> 'a list list" where
  "chunks n xs = (if n = 0 \<or> xs = [] then [] else take n xs # chunks n (drop n xs))"
  by pat_completeness auto
termination
  by (relation "measure (\<lambda>(n, xs). length xs)") auto

definition nat_be8 :: "nat \<Rightarrow> string" where
  "nat_be8 n = map (\<lambda>i. char_of (n div 256 ^ i mod 256)) [7, 6, 5, 4, 3, 2, 1, 0]"

definition sha_pad :: "string \<Rightarrow> string" where
  "sha_pad m = m @ [char_of (128 :: nat)] @
     replicate ((119 - length m mod 64) mod 64) (char_of (0 :: nat)) @ nat_be8 (8 * length m)"

definition sha256 :: "string \<Rightarrow> string" where
  "sha256 m =
     (let s = fold (\<lambda>b s. sha_block s (map be_word (chunks 4 b))) (chunks 64 (sha_pad m)) sha_init
      in concat (map word_be [sa s, sb s, sc s, sd s, se s, sf s, sg s, sh s]))"

section \<open>HMAC\<close>

definition xor_byte :: "nat \<Rightarrow> char \<Rightarrow> char" where
  "xor_byte k c = char_of ((byte c XOR k) mod 256)"

definition hmac_key :: "string \<Rightarrow> string" where
  "hmac_key key =
     (let k = (if 64 < length key then sha256 key else key)
      in k @ replicate (64 - length k) (char_of (0 :: nat)))"

definition hmac_sha256 :: "string \<Rightarrow> string \<Rightarrow> string" where
  "hmac_sha256 key msg =
     (let k = hmac_key key
      in sha256 (map (xor_byte 92) k @ sha256 (map (xor_byte 54) k @ msg)))"

section \<open>Hexadecimal\<close>

definition hexDigitLower :: "nat \<Rightarrow> char" where
  "hexDigitLower n = ''0123456789abcdef'' ! (n mod 16)"

definition hexEncode :: "string \<Rightarrow> string" where
  "hexEncode s = concat (map (\<lambda>c. [hexDigitLower (byte c div 16), hexDigitLower (byte c)]) s)"

fun hexDecode :: "string \<Rightarrow> string option" where
  "hexDecode [] = Some []"
| "hexDecode [c] = None"
| "hexDecode (a # b # s) =
     (case (hexVal a, hexVal b) of
        (Some x, Some y) \<Rightarrow> map_option (\<lambda>t. char_of (16 * x + y) # t) (hexDecode s)
      | _ \<Rightarrow> None)"

lemma byte_bound [simp]: "byte c < 256"
  by (simp add: byte_def)

lemma hexVal_lower: "n < 16 \<Longrightarrow> hexVal (hexDigitLower n) = Some n"
proof -
  assume "n < 16"
  then have "n \<in> {0, 1, 2, 3, 4, 5, 6, 7, 8, 9, 10, 11, 12, 13, 14, 15}" by (simp, presburger)
  then show ?thesis by (auto simp: hexVal_def hexDigitLower_def byte_def)
qed

lemma hexDigitLower_mod: "hexDigitLower (n mod 16) = hexDigitLower n"
  by (simp add: hexDigitLower_def)

lemma hexDecode_encode [simp]: "hexDecode (hexEncode s) = Some s"
proof (induction s)
  case Nil
  show ?case by (simp add: hexEncode_def)
next
  case (Cons c s)
  have hi: "hexVal (hexDigitLower (byte c div 16)) = Some (byte c div 16)"
    by (rule hexVal_lower) (use byte_bound [of c] in linarith)
  have lo: "hexVal (hexDigitLower (byte c)) = Some (byte c mod 16)"
    using hexVal_lower [of "byte c mod 16"] by (simp add: hexDigitLower_mod)
  have "char_of (16 * (byte c div 16) + byte c mod 16) = c"
    by (simp add: byte_def)
  with Cons hi lo show ?case by (simp add: hexEncode_def)
qed

lemma sha256_length: "length (sha256 m) = 32"
  by (simp add: sha256_def word_be_def Let_def)

lemma hmac_length: "length (hmac_sha256 key msg) = 32"
  by (simp add: hmac_sha256_def Let_def sha256_length)

lemma hexEncode_length: "length (hexEncode s) = 2 * length s"
  by (induction s) (simp_all add: hexEncode_def)

end
