(* ===== verification/BetaGrid.thy ===== *)
theory BetaGrid
  imports Hmac Events
begin

text \<open>
  The BetaGrid adapter (\<^verbatim>\<open>internal/provider/betagrid/betagrid.go\<close>): the signature of a
  delivery, its parsing and its normalization.
\<close>

section \<open>Signature\<close>

definition VerifySignature :: "string \<Rightarrow> string \<Rightarrow> string \<Rightarrow> bool" where
  "VerifySignature body headerValue secret =
     (if headerValue = [] \<or> secret = [] then False
      else let want = hmac_sha256 secret body
           in case hexDecode headerValue of
                None \<Rightarrow> False
              | Some got \<Rightarrow> want = got)"

definition Sign :: "string \<Rightarrow> string \<Rightarrow> string" where
  "Sign body secret = hexEncode (hmac_sha256 secret body)"

lemma hexDecode_hmac_nonempty: "hexDecode h = Some (hmac_sha256 secret body) \<Longrightarrow> h \<noteq> []"
  using hmac_length [of secret body] by (cases h) auto

lemma VerifySignature_iff:
  "VerifySignature body h secret \<longleftrightarrow> secret \<noteq> [] \<and> hexDecode h = Some (hmac_sha256 secret body)"
  using hexDecode_hmac_nonempty [of h secret body]
  by (auto simp: VerifySignature_def Let_def split: option.splits)

lemma Sign_decodes: "hexDecode (Sign body secret) = Some (hmac_sha256 secret body)"
  by (simp add: Sign_def)

lemma Sign_accepted: "secret \<noteq> [] \<Longrightarrow> VerifySignature body (Sign body secret) secret"
  by (simp add: VerifySignature_iff Sign_decodes)

text \<open>A signature is accepted exactly when it is the HMAC. VerifySignature accepts a header if and
  only if a secret is configured and the header decodes, as hexadecimal of either case, to the
  HMAC-SHA256 of the body under that secret; in particular what Sign computes is accepted.\<close>

theorem VerifySignature_correct:
  "(VerifySignature body h secret \<longleftrightarrow> secret \<noteq> [] \<and> hexDecode h = Some (hmac_sha256 secret body)) \<and>
   VerifySignature body (Sign body secret) secret = (secret \<noteq> [])"
  by (simp add: VerifySignature_iff Sign_decodes)

section \<open>The wire format\<close>

record wireDelivery =
  wd_MsgID :: string
  wd_SentAt :: int
  wd_Kind :: string
  wd_Data :: "json option"

record wireHazard =
  wz_Device :: string
  wz_Hazard :: string
  wz_Certainty :: string
  wz_Started :: int
  wz_Verified :: int

record wireHeartbeat =
  wb_Device :: string
  wb_State :: string

text \<open>\<^verbatim>\<open>json.Unmarshal\<close> into each struct; None is its error.\<close>

definition unmarshalDelivery :: "string \<Rightarrow> wireDelivery option" where
  "unmarshalDelivery body =
     (case parseJson body of
        None \<Rightarrow> None
      | Some v \<Rightarrow>
          (let (ms, ok0) = asObject v;
               (msg, ok1) = decodeField stringStep ''msg_id'' ms [];
               (sent, ok2) = decodeField (intStep 64) ''sent_at'' ms 0;
               (kind, ok3) = decodeField stringStep ''kind'' ms [];
               (dat, ok4) = decodeField rawStep ''data'' ms None
           in if ok0 \<and> ok1 \<and> ok2 \<and> ok3 \<and> ok4
              then Some \<lparr>wd_MsgID = msg, wd_SentAt = sent, wd_Kind = kind, wd_Data = dat\<rparr>
              else None))"

definition unmarshalHazard :: "json option \<Rightarrow> wireHazard option" where
  "unmarshalHazard d =
     (case d of
        None \<Rightarrow> None
      | Some v \<Rightarrow>
          (let (ms, ok0) = asObject v;
               (dev, ok1) = decodeField stringStep ''device'' ms [];
               (haz, ok2) = decodeField stringStep ''hazard'' ms [];
               (cert, ok3) = decodeField stringStep ''certainty'' ms [];
               (started, ok4) = decodeField (intStep 64) ''started'' ms 0;
               (verified, ok5) = decodeField (intStep 64) ''verified'' ms 0
           in if ok0 \<and> ok1 \<and> ok2 \<and> ok3 \<and> ok4 \<and> ok5
              then Some \<lparr>wz_Device = dev, wz_Hazard = haz, wz_Certainty = cert,
                         wz_Started = started, wz_Verified = verified\<rparr>
              else None))"

definition unmarshalHeartbeat :: "json option \<Rightarrow> wireHeartbeat option" where
  "unmarshalHeartbeat d =
     (case d of
        None \<Rightarrow> None
      | Some v \<Rightarrow>
          (let (ms, ok0) = asObject v;
               (dev, ok1) = decodeField stringStep ''device'' ms [];
               (state, ok2) = decodeField stringStep ''state'' ms []
           in if ok0 \<and> ok1 \<and> ok2 then Some \<lparr>wb_Device = dev, wb_State = state\<rparr> else None))"

section \<open>Parsing and normalization\<close>

record Heartbeat =
  hb_ExternalDeviceID :: string
  hb_Status :: DeviceStatus

record Delivery =
  del_MsgID :: string
  del_SentAt :: Time
  del_Event :: "NormalizedEvent option"
  del_Heartbeat :: "Heartbeat option"

text \<open>The constant \<^verbatim>\<open>0.90\<close> is the binary64 number nearest to it.\<close>

definition certaintyToConfidence :: "string \<Rightarrow> float64 res" where
  "certaintyToConfidence c =
     (if c = ''low'' then Inr (1 / 4)
      else if c = ''medium'' then Inr (1 / 2)
      else if c = ''high'' then Inr (8106479329266893 / 9007199254740992)
      else Inl (Errorf ''unknown certainty %q'' [AStr c]))"

definition hazardVocabulary :: "string \<Rightarrow> HazardType option" where
  "hazardVocabulary h =
     (if h = ''FLAME'' then Some HazardFire
      else if h = ''SMOKE_DETECTED'' then Some HazardSmoke
      else None)"

definition parseHazard :: "string \<Rightarrow> json option \<Rightarrow> Time \<Rightarrow> NormalizedEvent res" where
  "parseHazard msgID dat now =
     (case unmarshalHazard dat of
        None \<Rightarrow> Inl (Wrapf ''malformed hazard data: %w'' [] jsonError)
      | Some h \<Rightarrow>
          if wz_Device h = [] then Inl (Errorf ''hazard missing device'' [])
          else case hazardVocabulary (wz_Hazard h) of
                 None \<Rightarrow> Inl (Errorf ''unknown hazard %q'' [AStr (wz_Hazard h)])
               | Some typ \<Rightarrow>
                   (case certaintyToConfidence (wz_Certainty h) of
                      Inl e \<Rightarrow> Inl e
                    | Inr conf \<Rightarrow>
                        if wz_Verified h \<le> 0 then Inl (Errorf ''hazard missing verified timestamp'' [])
                        else
                          (let started = (if wz_Started h \<le> 0 then wz_Verified h else wz_Started h)
                           in Inr \<lparr>ne_ExternalDeviceID = wz_Device h,
                                ne_Event = zeroHazardEvent\<lparr>e_DedupKey := msgID,
                                  e_Source := ProviderBetaGrid, e_Type := typ, e_Confidence := conf,
                                  e_FirstSeenAt := time_Unix started,
                                  e_ConfirmedAt := time_Unix (wz_Verified h),
                                  e_ReceivedAt := now\<rparr>\<rparr>)))"

definition parseHeartbeat :: "json option \<Rightarrow> Heartbeat res" where
  "parseHeartbeat dat =
     (case unmarshalHeartbeat dat of
        None \<Rightarrow> Inl (Wrapf ''malformed heartbeat data: %w'' [] jsonError)
      | Some hb \<Rightarrow>
          if wb_Device hb = [] then Inl (Errorf ''heartbeat missing device'' [])
          else Inr \<lparr>hb_ExternalDeviceID = wb_Device hb,
                 hb_Status = (if wb_State hb = ''up'' then DeviceOnline
                              else if wb_State hb = ''down'' then DeviceOffline
                              else DeviceUnknown)\<rparr>)"

definition Parse :: "string \<Rightarrow> Time \<Rightarrow> Delivery res" where
  "Parse body now =
     (case unmarshalDelivery body of
        None \<Rightarrow> Inl (Wrapf ''malformed JSON: %w'' [] jsonError)
      | Some w \<Rightarrow>
          if wd_MsgID w = [] then Inl (Errorf ''missing msg_id'' [])
          else if wd_SentAt w \<le> 0 then Inl (Errorf ''missing sent_at'' [])
          else
            (let d = \<lparr>del_MsgID = wd_MsgID w, del_SentAt = time_Unix (wd_SentAt w),
                      del_Event = None, del_Heartbeat = None\<rparr>
             in if wd_Kind w = ''hazard'' then
                  (case parseHazard (wd_MsgID w) (wd_Data w) now of
                     Inl e \<Rightarrow> Inl e
                   | Inr ev \<Rightarrow> Inr (d\<lparr>del_Event := Some ev\<rparr>))
                else if wd_Kind w = ''heartbeat'' then
                  (case parseHeartbeat (wd_Data w) of
                     Inl e \<Rightarrow> Inl e
                   | Inr hb \<Rightarrow> Inr (d\<lparr>del_Heartbeat := Some hb\<rparr>))
                else Inl (Errorf ''unknown kind %q'' [AStr (wd_Kind w)])))"

section \<open>What normalization guarantees\<close>

lemma certaintyToConfidence_range:
  "certaintyToConfidence c = Inr x \<Longrightarrow> 0 \<le> x \<and> x \<le> 1"
  by (auto simp: certaintyToConfidence_def split: if_splits)

lemma hazardVocabulary_valid: "hazardVocabulary h = Some t \<Longrightarrow> ValidHazardType t"
  by (auto simp: hazardVocabulary_def ValidHazardType_def split: if_splits)

text \<open>
  The zero instant is the one instant that validation refuses, and the wrap-around of
  \<^verbatim>\<open>time.Unix\<close> reaches it from no positive number of seconds.
\<close>

lemma time_Unix_positive: "0 < s \<Longrightarrow> s < 2 ^ 63 \<Longrightarrow> \<not> IsZero (time_Unix s)"
proof -
  assume s: "0 < s" "s < 2 ^ 63"
  have "(s + 62135596800 + 2 ^ 63) mod 2 ^ 64 \<noteq> (2 ^ 63 :: int)"
  proof
    assume eq: "(s + 62135596800 + 2 ^ 63) mod 2 ^ 64 = (2 ^ 63 :: int)"
    then have "(2 ^ 64 :: int) dvd s + 62135596800 + 2 ^ 63 - 2 ^ 63"
      by (metis mod_eq_dvd_iff mod_mod_trivial)
    then have "(2 ^ 64 :: int) dvd s + 62135596800" by (simp add: add.commute)
    then have "2 ^ 64 \<le> s + 62135596800" using s(1) by (intro zdvd_imp_le) auto
    with s(2) show False by simp
  qed
  then show ?thesis by (simp add: IsZero_def zeroTime_def time_Unix_def wrap64_def)
qed

section \<open>A concrete delivery\<close>

definition demo_body :: string where
  \<open>demo_body = ''{"msg_id":"m1","sent_at":1,"kind":"hazard","data":{"device":"x","hazard":"FLAME","certainty":"low","verified":1}}''\<close>

definition demo_data :: json where
  "demo_data = JObj [(''device'', JStr ''x''), (''hazard'', JStr ''FLAME''),
     (''certainty'', JStr ''low''), (''verified'', JNum ''1'')]"

definition demo_normalized :: "Time \<Rightarrow> NormalizedEvent" where
  "demo_normalized now = \<lparr>ne_ExternalDeviceID = ''x'',
     ne_Event = \<lparr>e_ID = [], e_DedupKey = ''m1'', e_DeviceID = [], e_Source = ProviderBetaGrid,
       e_Type = HazardFire, e_Confidence = 1 / 4, e_FirstSeenAt = time_Unix 1,
       e_ConfirmedAt = time_Unix 1, e_ReceivedAt = now\<rparr>\<rparr>"

lemma demo_parse: "parseJson demo_body = Some (JObj [(''msg_id'', JStr ''m1''),
    (''sent_at'', JNum ''1''), (''kind'', JStr ''hazard''), (''data'', demo_data)])"
  by (simp add: json_run demo_body_def demo_data_def)

lemma demo_unmarshal: "unmarshalDelivery demo_body =
    Some \<lparr>wd_MsgID = ''m1'', wd_SentAt = 1, wd_Kind = ''hazard'', wd_Data = Some demo_data\<rparr>"
  by (simp add: unmarshalDelivery_def demo_parse decode_run)

lemma demo_hazard: "unmarshalHazard (Some demo_data) =
    Some \<lparr>wz_Device = ''x'', wz_Hazard = ''FLAME'', wz_Certainty = ''low'', wz_Started = 0, wz_Verified = 1\<rparr>"
  by (simp add: unmarshalHazard_def demo_data_def decode_run)

lemma demo_Parse: "Parse demo_body now = Inr \<lparr>del_MsgID = ''m1'', del_SentAt = time_Unix 1,
    del_Event = Some (demo_normalized now), del_Heartbeat = None\<rparr>"
  by (simp add: Parse_def demo_unmarshal parseHazard_def demo_hazard hazardVocabulary_def
      certaintyToConfidence_def zeroHazardEvent_def demo_normalized_def)

text \<open>What Parse lets through is fit for the pipeline. A parsed delivery has a message identifier
  and exactly one of an event and a heartbeat; an event it carries names the provider's device, is
  keyed by the message identifier, comes from BetaGrid and becomes a valid event as soon as its device
  is resolved.\<close>

theorem Parse_normalizes:
  assumes "Parse body now = Inr d"
  shows "del_MsgID d \<noteq> [] \<and>
    (case (del_Event d, del_Heartbeat d) of
       (Some ne, None) \<Rightarrow> ne_ExternalDeviceID ne \<noteq> [] \<and> e_DedupKey (ne_Event ne) = del_MsgID d \<and>
         e_Source (ne_Event ne) = ProviderBetaGrid \<and>
         (\<forall>dev. valid_event ((ne_Event ne)\<lparr>e_DeviceID := dev\<rparr>) = (dev \<noteq> []))
     | (None, Some hb) \<Rightarrow> hb_ExternalDeviceID hb \<noteq> [] \<and>
         hb_Status hb \<in> {DeviceOnline, DeviceOffline, DeviceUnknown}
     | _ \<Rightarrow> False)"
proof -
  from assms obtain w where w: "unmarshalDelivery body = Some w" "wd_MsgID w \<noteq> []" "0 < wd_SentAt w"
    by (auto simp: Parse_def split: option.splits if_splits)
  show ?thesis
  proof (cases "wd_Kind w = ''hazard''")
    case True
    with assms w obtain ev where ev: "parseHazard (wd_MsgID w) (wd_Data w) now = Inr ev"
      "del_Event d = Some ev" "del_Heartbeat d = None" "del_MsgID d = wd_MsgID w"
      by (auto simp: Parse_def Let_def split: sum.splits)
    from ev(1) obtain h ty conf where h: "unmarshalHazard (wd_Data w) = Some h" "wz_Device h \<noteq> []"
      "hazardVocabulary (wz_Hazard h) = Some ty" "certaintyToConfidence (wz_Certainty h) = Inr conf"
      "0 < wz_Verified h"
      and ne: "ne_ExternalDeviceID ev = wz_Device h" "e_DedupKey (ne_Event ev) = wd_MsgID w"
        "e_Source (ne_Event ev) = ProviderBetaGrid" "e_Type (ne_Event ev) = ty"
        "e_Confidence (ne_Event ev) = conf" "e_ConfirmedAt (ne_Event ev) = time_Unix (wz_Verified h)"
      by (auto simp: parseHazard_def Let_def not_le split: option.splits if_splits sum.splits)
    have "wz_Verified h < 2 ^ 63"
      using h(1) by (auto simp: unmarshalHazard_def Let_def split: option.splits prod.splits if_splits
          dest!: decode_int_bounds)
    with h ne w(2) certaintyToConfidence_range [OF h(4)] hazardVocabulary_valid [OF h(3)]
      time_Unix_positive [of "wz_Verified h"] ev(2-4)
    show ?thesis by (auto simp: valid_event_def ValidProvider_def)
  next
    case False
    with assms w obtain hb where hb: "parseHeartbeat (wd_Data w) = Inr hb"
      "del_Event d = None" "del_Heartbeat d = Some hb" "del_MsgID d = wd_MsgID w"
      by (auto simp: Parse_def Let_def split: sum.splits if_splits)
    then show ?thesis
      using w(2) by (auto simp: parseHeartbeat_def split: option.splits if_splits)
  qed
qed

lemma Parse_normalizes_witness:
  "e_DedupKey (ne_Event (demo_normalized 7)) = ''m1'' \<and>
   valid_event ((ne_Event (demo_normalized 7))\<lparr>e_DeviceID := ''d1''\<rparr>)"
  using Parse_normalizes [OF demo_Parse [of 7]] by simp

end
