(* ===== verification/Webhook.thy ===== *)
theory Webhook
  imports HttpServer BetaGrid EventPipeline StorageContracts
begin

text \<open>
  The webhook handler (\<^verbatim>\<open>internal/webhook/webhook.go\<close>): bounded read, signature, parsing,
  timestamp window, delivery gate, processing, in this order. The Go interface
  \<^verbatim>\<open>webhook.Store\<close> is a record of operations; what the handler relies on is the locale
  \<open>webhook_store_contract\<close>.
\<close>

section \<open>The handler\<close>

record webhook_store =
  ws_RecordWebhookDelivery :: "ProviderName \<Rightarrow> string \<Rightarrow> world \<Rightarrow> unit res \<times> world"
  ws_UpsertDevice :: "Device \<Rightarrow> world \<Rightarrow> string res \<times> world"
  ws_TouchDevice :: "string \<Rightarrow> DeviceStatus \<Rightarrow> Time \<Rightarrow> world \<Rightarrow> unit res \<times> world"

definition storage_webhook_store :: webhook_store where
  "storage_webhook_store = \<lparr>ws_RecordWebhookDelivery = RecordWebhookDelivery,
     ws_UpsertDevice = UpsertDevice, ws_TouchDevice = TouchDevice\<rparr>"

record webhook_handler =
  wk_store :: webhook_store
  wk_events :: event_store
  wk_secret :: string
  wk_maxSkew :: Duration
  wk_maxBytes :: int

definition SignatureHeader :: string where "SignatureHeader = ''X-BetaGrid-Signature''"

definition reject :: "int \<Rightarrow> string \<Rightarrow> world \<Rightarrow> http_reply \<times> world" where
  "reject status reason w =
     (httpError (Str reason) status, metricInc (WebhookRejected ProviderBetaGrid reason) w)"

definition writeOK :: http_reply where
  "writeOK = jsonReply StatusOK (JObj [(''status'', JStr ''accepted'')])"

text \<open>Step 6: a hazard event goes into the pipeline.\<close>

definition processEvent :: "webhook_handler \<Rightarrow> string \<Rightarrow> NormalizedEvent \<Rightarrow> world \<Rightarrow> http_reply \<times> world" where
  "processEvent h body ne w =
     (case AcceptFromProvider (wk_events h) ne w of
        (Inr b, w1) \<Rightarrow> (writeOK, w1)
      | (Inl err, w1) \<Rightarrow>
          (case asRejected err of
             Some rej \<Rightarrow> reject StatusBadRequest ''invalid event''
               (DeadLetter (wk_events h) ProviderBetaGrid (ErrText rej) body w1)
           | None \<Rightarrow> reject StatusInternalServerError ''processing error'' w1))"

text \<open>Step 6: a heartbeat refreshes the device.\<close>

definition processHeartbeat :: "webhook_handler \<Rightarrow> Heartbeat \<Rightarrow> Time \<Rightarrow> world \<Rightarrow> http_reply \<times> world" where
  "processHeartbeat h hb sentAt w =
     (case ws_UpsertDevice (wk_store h)
             (zeroDevice\<lparr>d_ExternalID := hb_ExternalDeviceID hb, d_Provider := ProviderBetaGrid,
                d_Status := hb_Status hb, d_LastSeenAt := sentAt\<rparr>) w of
        (Inl e, w1) \<Rightarrow> reject StatusInternalServerError ''storage error'' w1
      | (Inr uid, w1) \<Rightarrow>
          (case ws_TouchDevice (wk_store h) uid (hb_Status hb) sentAt w1 of
             (Inl e, w2) \<Rightarrow> reject StatusInternalServerError ''storage error'' w2
           | (Inr u, w2) \<Rightarrow> (writeOK, w2)))"

definition processDelivery :: "webhook_handler \<Rightarrow> string \<Rightarrow> Delivery \<Rightarrow> world \<Rightarrow> http_reply \<times> world" where
  "processDelivery h body d w =
     (case del_Event d of
        Some ne \<Rightarrow> processEvent h body ne w
      | None \<Rightarrow>
          (case del_Heartbeat d of
             Some hb \<Rightarrow> processHeartbeat h hb (del_SentAt d) w
           | None \<Rightarrow> (writeOK, w)))"

text \<open>Step 5: the delivery gate.\<close>

definition gateDelivery :: "webhook_handler \<Rightarrow> string \<Rightarrow> Delivery \<Rightarrow> world \<Rightarrow> http_reply \<times> world" where
  "gateDelivery h body d w =
     (case ws_RecordWebhookDelivery (wk_store h) ProviderBetaGrid (del_MsgID d) w of
        (Inl err, w1) \<Rightarrow>
          if errIs err ErrDuplicate then (writeOK, metricInc (WebhookDuplicates ProviderBetaGrid) w1)
          else reject StatusInternalServerError ''storage error'' w1
      | (Inr u, w1) \<Rightarrow> processDelivery h body d w1)"

text \<open>Steps 3 and 4; the clock is read once for parsing and once for the window.\<close>

definition handleAuthentic :: "webhook_handler \<Rightarrow> string \<Rightarrow> world \<Rightarrow> http_reply \<times> world" where
  "handleAuthentic h body w =
     (let (now, w1) = timeNow w
      in case Parse body now of
           Inl err \<Rightarrow> reject StatusBadRequest ''malformed payload''
             (DeadLetter (wk_events h) ProviderBetaGrid (ErrText err) body w1)
         | Inr d \<Rightarrow>
             (let (now', w2) = timeNow w1
              in if wk_maxSkew h < dur_Abs (time_Sub now' (del_SentAt d))
                 then reject StatusBadRequest ''timestamp outside window'' w2
                 else gateDelivery h body d w2))"

definition BetaGrid :: "webhook_handler \<Rightarrow> handler" where
  "BetaGrid h r w =
     (if wk_secret h = [] then reject StatusServiceUnavailable ''webhook secret not configured'' w
      else case readBounded (wk_maxBytes h) r of
             BodyBroken \<Rightarrow> reject StatusBadRequest ''unreadable body'' w
           | BodyTooLarge \<Rightarrow> reject StatusRequestEntityTooLarge ''body too large'' w
           | BodyOk body \<Rightarrow>
               if \<not> VerifySignature body (in_header r SignatureHeader) (wk_secret h)
               then reject StatusUnauthorized ''bad signature'' w
               else handleAuthentic h body w)"

definition newWebhook :: "string \<Rightarrow> Duration \<Rightarrow> int \<Rightarrow> webhook_handler" where
  "newWebhook secret maxSkew maxBytes =
     \<lparr>wk_store = storage_webhook_store, wk_events = storage_event_store, wk_secret = secret,
      wk_maxSkew = maxSkew, wk_maxBytes = maxBytes\<rparr>"

text \<open>The message identifier a body carries, whatever else is wrong with it.\<close>

definition delivery_id :: "string \<Rightarrow> string" where
  "delivery_id body = (case unmarshalDelivery body of None \<Rightarrow> [] | Some wd \<Rightarrow> wd_MsgID wd)"

lemma Parse_delivery_id: "Parse body now = Inr d \<Longrightarrow> del_MsgID d = delivery_id body"
  by (auto simp: Parse_def delivery_id_def Let_def split: option.splits if_splits sum.splits)

section \<open>The contract with the store\<close>

locale webhook_store_contract =
  fixes ws :: webhook_store
  assumes record_effect: "store_effect w (snd (ws_RecordWebhookDelivery ws p key w))"
    and record_known: "(p, key) \<in> delivery_keys (w_db w) \<Longrightarrow>
      ws_RecordWebhookDelivery ws p key w = (r, w') \<Longrightarrow> isl r \<and> w_db w' = w_db w"
    and record_fresh: "ws_RecordWebhookDelivery ws p key w = (Inr u, w') \<Longrightarrow>
      (p, key) \<in> delivery_keys (w_db w')"
    and record_duplicate: "ws_RecordWebhookDelivery ws p key w = (Inl err, w') \<Longrightarrow>
      errIs err ErrDuplicate \<Longrightarrow> (p, key) \<in> delivery_keys (w_db w)"
    and heartbeat_effect: "store_effect w (snd (ws_UpsertDevice ws d w))"
    and touch_effect: "store_effect w (snd (ws_TouchDevice ws uid st seen w))"
begin

lemma record_steps: "ws_RecordWebhookDelivery ws p key w = (r, w') \<Longrightarrow>
    db_steps (w_db w) (w_db w') \<and> w_hub w' = w_hub w \<and> w_metrics w' = w_metrics w"
  using store_effectD [OF record_effect [of w p key]] by simp

end

text \<open>\<open>quiet w w'\<close>: nothing was stored but dead letters, and nobody was told anything.\<close>

definition quiet :: "world \<Rightarrow> world \<Rightarrow> bool" where
  "quiet w w' \<longleftrightarrow> (w_db w')\<lparr>t_dead := t_dead (w_db w)\<rparr> = w_db w \<and> w_hub w' = w_hub w"

lemma quiet_same [simp]: "w_db w' = w_db w \<Longrightarrow> w_hub w' = w_hub w \<Longrightarrow> quiet w w'"
  by (simp add: quiet_def)

lemma quiet_metric [simp]: "quiet w (metricInc m w') = quiet w w'"
  by (simp add: quiet_def)

lemma quiet_reject [simp]: "quiet w (snd (reject status reason w')) = quiet w w'"
  "rp_status (fst (reject status reason w')) = status"
  by (simp_all add: reject_def)

locale webhook_contract = webhook_store_contract ws + event_store_contract es
  for ws :: webhook_store and es :: event_store +
  assumes dead_only: "(w_db (snd (es_InsertDeadLetter es p why body w)))\<lparr>t_dead := t_dead (w_db w)\<rparr> = w_db w"
begin

lemma DeadLetter_quiet: "quiet w (DeadLetter es p why body w)"
proof -
  let ?w = "metricInc (EventsFailed p ''dead_letter'') w"
  have "w_hub (snd (es_InsertDeadLetter es p why body ?w)) = w_hub w"
    using store_effectD(4) [OF dead_effect [where w = ?w and p = p and why = why and body = body]] by simp
  with dead_only [where w = ?w and p = p and why = why and body = body] show ?thesis by (simp add: DeadLetter_def quiet_def)
qed

lemma gate_known:
  assumes "wk_store h = ws" "(ProviderBetaGrid, del_MsgID d) \<in> delivery_keys (w_db w)"
  shows "quiet w (snd (gateDelivery h body d w))"
proof (cases "ws_RecordWebhookDelivery ws ProviderBetaGrid (del_MsgID d) w")
  case (Pair r w1)
  from record_known [OF assms(2) Pair] record_steps [OF Pair] show ?thesis
    using Pair assms(1) by (cases r) (simp_all add: gateDelivery_def)
qed

text \<open>A delivery whose identifier is on record changes nothing.\<close>

lemma known_quiet:
  assumes h: "wk_store h = ws" "wk_events h = es"
    and known: "(ProviderBetaGrid, delivery_id body) \<in> delivery_keys (w_db w)"
  shows "quiet w (snd (handleAuthentic h body w))"
proof -
  obtain now w1 where n: "timeNow w = (now, w1)" by fastforce
  obtain now' w2 where n': "timeNow w1 = (now', w2)" by fastforce
  have w1: "w_db w1 = w_db w" "w_hub w1 = w_hub w" "w_db w2 = w_db w" "w_hub w2 = w_hub w"
    using w_db_env(1) [of w] w_hub_env(1) [of w] w_db_env(1) [of w1] w_hub_env(1) [of w1] n n' by simp_all
  then have q: "quiet w1 v = quiet w v" "quiet w2 v = quiet w v" for v by (simp_all add: quiet_def)
  show ?thesis
  proof (cases "Parse body now")
    case (Inl err)
    with DeadLetter_quiet [of w1] show ?thesis
      by (simp add: handleAuthentic_def n h q)
  next
    case (Inr d)
    with gate_known [OF h(1), of d w2 body] known w1 Parse_delivery_id [OF Inr] show ?thesis
      by (simp add: handleAuthentic_def n n' q)
  qed
qed

lemma BetaGrid_known:
  assumes "wk_store h = ws" "wk_events h = es" "readBounded (wk_maxBytes h) r = BodyOk body"
    "(ProviderBetaGrid, delivery_id body) \<in> delivery_keys (w_db w)"
  shows "quiet w (snd (BetaGrid h r w))"
  using known_quiet [OF assms(1,2,4)] assms(3) by (simp add: BetaGrid_def)

lemma AcceptFromProvider_steps:
  assumes "AcceptFromProvider es ne w = (r, w')"
  shows "db_steps (w_db w) (w_db w') \<and>
    (\<forall>b. r = Inr b \<longrightarrow> hazard_key (ne_Event ne) \<in> hazard_keys (w_db w'))"
proof -
  define dev where "dev = zeroDevice\<lparr>d_ExternalID := ne_ExternalDeviceID ne,
    d_Provider := e_Source (ne_Event ne), d_Status := DeviceUnknown,
    d_LastSeenAt := e_ConfirmedAt (ne_Event ne)\<rparr>"
  obtain x w1 where u: "es_UpsertDevice es dev w = (x, w1)" by fastforce
  have s: "db_steps (w_db w) (w_db w1)"
    using store_effectD(1) [OF upsert_effect [where w = w and d = dev]] u by simp
  note def = AcceptFromProvider_def [of es ne w, folded dev_def, unfolded u]
  show ?thesis
  proof (cases x)
    case (Inl e)
    with assms s show ?thesis by (auto simp: def)
  next
    case (Inr uid)
    with assms have acc: "Accept es ((ne_Event ne)\<lparr>e_DeviceID := uid\<rparr>) w1 = (r, w')" by (simp add: def)
    show ?thesis
      using Accept_steps [OF acc] Accept_answers(2) [OF acc] s by (auto simp: hazard_key_def)
  qed
qed

lemma DeadLetter_steps: "db_steps (w_db w) (w_db (DeadLetter es p why body w))"
  using store_effectD(1) [OF dead_effect [where w = "metricInc (EventsFailed p ''dead_letter'') w"
      and p = p and why = why and body = body]] by (simp add: DeadLetter_def)

lemma processDelivery_steps:
  assumes h: "wk_store h = ws" "wk_events h = es" and p: "processDelivery h body d w = (rep, w')"
  shows "db_steps (w_db w) (w_db w') \<and>
    (\<forall>ne. rp_status rep = 200 \<and> del_Event d = Some ne \<longrightarrow>
       hazard_key (ne_Event ne) \<in> hazard_keys (w_db w'))"
proof (cases "del_Event d")
  case (Some ne)
  obtain r w1 where a: "AcceptFromProvider es ne w = (r, w1)" by fastforce
  show ?thesis
    using p Some a AcceptFromProvider_steps [OF a] DeadLetter_steps [of w1]
    by (auto simp: processDelivery_def processEvent_def h reject_def
        split: sum.splits option.splits intro: rtranclp_trans)
next
  case None
  show ?thesis
  proof (cases "del_Heartbeat d")
    case None
    with p \<open>del_Event d = None\<close> show ?thesis by (simp add: processDelivery_def)
  next
    case (Some hb)
    define dev where "dev = zeroDevice\<lparr>d_ExternalID := hb_ExternalDeviceID hb,
      d_Provider := ProviderBetaGrid, d_Status := hb_Status hb, d_LastSeenAt := del_SentAt d\<rparr>"
    obtain x w1 where u: "ws_UpsertDevice ws dev w = (x, w1)" by fastforce
    have "db_steps (w_db w) (w_db w1)"
      using store_effectD(1) [OF heartbeat_effect [where w = w and d = dev]] u by simp
    moreover have "db_steps (w_db w1) (w_db (snd (ws_TouchDevice ws uid (hb_Status hb) (del_SentAt d) w1)))"
      for uid by (rule store_effectD(1) [OF touch_effect])
    ultimately show ?thesis
      using p None Some u
      by (auto simp: processDelivery_def processHeartbeat_def h reject_def dev_def [symmetric]
          split: sum.splits prod.splits intro: rtranclp_trans)
        (metis rtranclp_trans snd_conv)+
  qed
qed

text \<open>What a 200 stands for.\<close>

lemma gateDelivery_ok:
  assumes h: "wk_store h = ws" "wk_events h = es" and g: "gateDelivery h body d w = (rep, w')"
    and ok: "rp_status rep = 200"
  shows "(ProviderBetaGrid, del_MsgID d) \<in> delivery_keys (w_db w') \<and>
    (counted (WebhookDuplicates ProviderBetaGrid) w w' = 0 \<and> del_Event d = Some ne \<longrightarrow>
       hazard_key (ne_Event ne) \<in> hazard_keys (w_db w'))"
proof -
  obtain r w1 where r: "ws_RecordWebhookDelivery ws ProviderBetaGrid (del_MsgID d) w = (r, w1)" by fastforce
  show ?thesis
  proof (cases r)
    case (Inl err)
    with g ok r h have e: "errIs err ErrDuplicate"
      "w' = metricInc (WebhookDuplicates ProviderBetaGrid) w1"
      by (auto simp: gateDelivery_def reject_def split: if_splits)
    from record_duplicate [OF r [unfolded Inl] e(1)] record_steps [OF r] deliveries.steps_keep e(2)
    show ?thesis by (fastforce simp: counted_def)
  next
    case (Inr u)
    with g r h have p: "processDelivery h body d w1 = (rep, w')" by (simp add: gateDelivery_def)
    from processDelivery_steps [OF h p] record_fresh [OF r [unfolded Inr]] ok deliveries.steps_keep
    show ?thesis by blast
  qed
qed

lemma BetaGrid_ok:
  assumes h: "wk_store h = ws" "wk_events h = es" and b: "BetaGrid h r w = (rep, w')"
    and ok: "rp_status rep = 200"
  shows "\<exists>body d. readBounded (wk_maxBytes h) r = BodyOk body \<and>
    VerifySignature body (in_header r SignatureHeader) (wk_secret h) \<and>
    Parse body (fst (timeNow w)) = Inr d \<and>
    dur_Abs (time_Sub (fst (timeNow (snd (timeNow w)))) (del_SentAt d)) \<le> wk_maxSkew h \<and>
    (ProviderBetaGrid, del_MsgID d) \<in> delivery_keys (w_db w') \<and>
    (\<forall>ne. counted (WebhookDuplicates ProviderBetaGrid) w w' = 0 \<and> del_Event d = Some ne \<longrightarrow>
       hazard_key (ne_Event ne) \<in> hazard_keys (w_db w'))"
proof -
  obtain now w1 where n: "timeNow w = (now, w1)" by fastforce
  obtain now' w2 where n': "timeNow w1 = (now', w2)" by fastforce
  from b ok obtain body where body: "readBounded (wk_maxBytes h) r = BodyOk body"
    "VerifySignature body (in_header r SignatureHeader) (wk_secret h)" "handleAuthentic h body w = (rep, w')"
    by (auto simp: BetaGrid_def reject_def split: if_splits bounded_body.splits)
  then obtain d where d: "Parse body now = Inr d" "\<not> wk_maxSkew h < dur_Abs (time_Sub now' (del_SentAt d))"
    "gateDelivery h body d w2 = (rep, w')"
    using ok by (auto simp: handleAuthentic_def n n' reject_def split: if_splits sum.splits)
  have "w_metrics w2 = w_metrics w"
    using w_metrics_env(1) [of w] w_metrics_env(1) [of w1] n n' by simp
  then have "counted m w2 w' = counted m w w'" for m by (simp add: counted_def)
  with gateDelivery_ok [OF h d(3) ok] body d show ?thesis by (auto simp: n n')
qed

end

lemma RecordWebhookDelivery_known:
  assumes "(p, key) \<in> delivery_keys (w_db w)" "RecordWebhookDelivery p key w = (r, w')"
  shows "isl r \<and> w_db w' = w_db w"
proof -
  have "r \<noteq> Inr u" for u
  proof
    assume "r = Inr u"
    with assms(2) obtain now where g: "delivery_gate ((p, key), now) (w_db w) = Inr (Suc 0, w_db w')"
      by (auto elim: RecordWebhookDelivery_Inr)
    from deliveries.admitted [OF g, of "(p, key)"] assms(1) show False by simp
  qed
  moreover have "w_db w' = w_db w"
  proof -
    have "w_db w' = w_db (snd (exec_sql (recordDelivery_sql p key) w))"
      using assms(2) by (auto simp: RecordWebhookDelivery_def split: prod.splits sum.splits if_splits)
    moreover have "db' = w_db w" if "recordDelivery_sql p key now (w_db w) = Inr (a, db')" for now a db'
      using that assms(1) by (auto simp: recordDelivery_sql_def delivery_keys_def split: if_splits)
    ultimately show ?thesis using exec_sql_db_cases [of "recordDelivery_sql p key" w] by metis
  qed
  ultimately show ?thesis by (cases r) auto
qed

lemma InsertDeadLetter_only:
  "(w_db (snd (InsertDeadLetter p why body w)))\<lparr>t_dead := t_dead (w_db w)\<rparr> = w_db w"
proof -
  obtain uid w1 where u: "uuidNew w = (uid, w1)" by fastforce
  have w1: "w_db w1 = w_db w" using w_db_env(3) [of w] u by simp
  obtain b where b: "snd (InsertDeadLetter p why body w) =
      snd (exec_sql (insertDeadLetter_sql (w_pg w1) uid p why b) w1)"
    by (auto simp: InsertDeadLetter_def u Let_def)
  have "db'\<lparr>t_dead := t_dead (w_db w)\<rparr> = w_db w"
    if "insertDeadLetter_sql (w_pg w1) uid p why b now (w_db w1) = Inr (a, db')" for now a db'
    using that w1 by (auto simp: insertDeadLetter_sql_def with_uuid_def split: option.splits if_splits)
  then show ?thesis
    using exec_sql_db_cases [of "insertDeadLetter_sql (w_pg w1) uid p why b" w1] w1 unfolding b
    by (metis database.surjective database.update_convs(7))
qed

interpretation storage_webhook: webhook_contract storage_webhook_store storage_event_store
proof unfold_locales
  fix p key w err w'
  assume a: "ws_RecordWebhookDelivery storage_webhook_store p key w = (Inl err, w')"
  show "errIs err ErrDuplicate \<Longrightarrow> (p, key) \<in> delivery_keys (w_db w)"
    using RecordWebhookDelivery_duplicate a by (auto simp: storage_webhook_store_def)
next
  fix p key w u w'
  assume "ws_RecordWebhookDelivery storage_webhook_store p key w = (Inr u, w')"
  then obtain now where "delivery_gate ((p, key), now) (w_db w) = Inr (Suc 0, w_db w')"
    by (auto simp: storage_webhook_store_def elim: RecordWebhookDelivery_Inr)
  from deliveries.holds_key [OF this] show "(p, key) \<in> delivery_keys (w_db w')" by simp
qed (auto simp: storage_webhook_store_def storage_event_store_def InsertDeadLetter_only
    intro: steps_intros dest: RecordWebhookDelivery_known)

section \<open>Properties\<close>

text \<open>C17: nothing unauthenticated gets past the gate. With a sane body limit, a request is handled
  exactly when a secret is configured, the whole body arrived within the limit and the signature header
  is the hexadecimal HMAC of that body; any other request is answered 503, 400, 413 or 401 and leaves no
  trace but one count of the rejection.\<close>

theorem webhook_authenticates:
  assumes "0 \<le> wk_maxBytes h" "wk_maxBytes h < maxDuration"
  shows "if wk_secret h \<noteq> [] \<and> int (length (in_body r)) \<le> wk_maxBytes h \<and> \<not> in_broken r \<and>
      hexDecode (in_header r SignatureHeader) = Some (hmac_sha256 (wk_secret h) (in_body r))
    then BetaGrid h r w = handleAuthentic h (in_body r) w
    else \<exists>status\<in>{503, 400, 413, 401}. \<exists>reason. BetaGrid h r w =
      (httpError (Str reason) status, metricInc (WebhookRejected ProviderBetaGrid reason) w)"
  using VerifySignature_iff
  by (auto simp: BetaGrid_def readBounded_ok [OF assms] reject_def)

definition demo_webhook :: webhook_handler where
  "demo_webhook = newWebhook ''s'' (5 * Minute) 1048576"

definition demo_request :: "string \<Rightarrow> http_in" where
  "demo_request signature = \<lparr>in_method = ''POST'', in_path = ''/v1/webhooks/betagrid'',
     in_header = (\<lambda>k. if k = SignatureHeader then signature else []), in_query = (\<lambda>_. []),
     in_pathValue = (\<lambda>_. []), in_body = demo_body, in_broken = False\<rparr>"

lemma demo_simps [simp]:
  "wk_secret demo_webhook = ''s''" "wk_maxBytes demo_webhook = 1048576"
  "wk_maxSkew demo_webhook = 300000000000" "wk_store demo_webhook = storage_webhook_store"
  "wk_events demo_webhook = storage_event_store" "in_body (demo_request sig) = demo_body"
  "\<not> in_broken (demo_request sig)" "in_header (demo_request sig) SignatureHeader = sig"
  "length demo_body = 113" "hexDecode (Sign b k) = Some (hmac_sha256 k b)"
  "hmac_sha256 k b \<noteq> []" "[] \<noteq> hmac_sha256 k b"
  using hmac_length [of k b]
  by (auto simp: demo_webhook_def newWebhook_def demo_request_def Sign_decodes Minute_def demo_body_def)

lemma webhook_authenticates_witness:
  "(\<exists>status\<in>{503, 400, 413, 401}. \<exists>reason. BetaGrid demo_webhook (demo_request []) (calm (demo_db [])) =
      (httpError (Str reason) status, metricInc (WebhookRejected ProviderBetaGrid reason) (calm (demo_db [])))) \<and>
   BetaGrid demo_webhook (demo_request (Sign demo_body ''s'')) (calm (demo_db [])) =
     handleAuthentic demo_webhook demo_body (calm (demo_db []))"
  using webhook_authenticates [of demo_webhook "demo_request []" "calm (demo_db [])"]
    webhook_authenticates [of demo_webhook "demo_request (Sign demo_body ''s'')" "calm (demo_db [])"]
  by (auto simp: maxDuration_def)

text \<open>C18: a 200 is a promise. Whenever BetaGrid answers 200, the delivery was authentic and well formed,
  its timestamp was within the window of the clock, its identifier is on record, and, unless the answer
  was counted as a duplicate, the hazard event it carries is in the database. This holds under any driver
  faults.\<close>

theorem webhook_ok_means_stored:
  assumes "BetaGrid (newWebhook secret maxSkew maxBytes) r w = (rep, w')" "rp_status rep = 200"
  shows "\<exists>body d. readBounded maxBytes r = BodyOk body \<and> secret \<noteq> [] \<and>
    hexDecode (in_header r SignatureHeader) = Some (hmac_sha256 secret body) \<and>
    Parse body (fst (timeNow w)) = Inr d \<and>
    dur_Abs (time_Sub (fst (timeNow (snd (timeNow w)))) (del_SentAt d)) \<le> maxSkew \<and>
    (ProviderBetaGrid, del_MsgID d) \<in> delivery_keys (w_db w') \<and>
    (case del_Event d of
       Some ne \<Rightarrow> if counted (WebhookDuplicates ProviderBetaGrid) w w' = 0
         then hazard_key (ne_Event ne) \<in> hazard_keys (w_db w') else True
     | None \<Rightarrow> True)"
proof -
  have h: "wk_store (newWebhook secret maxSkew maxBytes) = storage_webhook_store"
    "wk_events (newWebhook secret maxSkew maxBytes) = storage_event_store"
    "wk_secret (newWebhook secret maxSkew maxBytes) = secret"
    "wk_maxBytes (newWebhook secret maxSkew maxBytes) = maxBytes"
    "wk_maxSkew (newWebhook secret maxSkew maxBytes) = maxSkew"
    by (simp_all add: newWebhook_def)
  from storage_webhook.BetaGrid_ok [OF h(1,2) assms, unfolded h(3-)] show ?thesis
    by (auto simp: VerifySignature_iff split: option.split)
qed

text \<open>The example delivery in a world whose statements fail as given.\<close>

lemma demo_pipeline:
  "BetaGrid demo_webhook (demo_request (Sign demo_body ''s'')) w = handleAuthentic demo_webhook demo_body w"
  by (simp add: BetaGrid_def readBounded_ok maxDuration_def VerifySignature_iff)

lemmas webhook_run_defs = handleAuthentic_def gateDelivery_def processDelivery_def processEvent_def
  AcceptFromProvider_def Accept_def storage_webhook_store_def storage_event_store_def
  RecordWebhookDelivery_def recordDelivery_sql_def UpsertDevice_def upsertDevice_sql_def
  InsertHazardEvent_def withEventID_def insertHazard_sql_def new_device_row_def reject_def
  demo_Parse demo_normalized_def run_defs

definition demo_faulty :: world where
  "demo_faulty = demo_world (\<lambda>n. if n = 1 then FailBefore (DrvOther ''reset'') else NoFault) (demo_db [])"

lemma demo_window: "(300000000000 < dur_Abs (time_Sub 1000 (time_Unix 1))) = False"
  by (simp add: time_Unix_def wrap64_def time_Sub_def dur_Abs_def duration_bounds)

lemma demo_valid: "Validate \<lparr>e_ID = uid, e_DedupKey = ''m1'', e_DeviceID = ''u'',
    e_Source = ProviderBetaGrid, e_Type = HazardFire, e_Confidence = 1 / 4,
    e_FirstSeenAt = t, e_ConfirmedAt = time_Unix 1, e_ReceivedAt = now\<rparr> = None"
  by (simp add: Validate_None_iff valid_event_def ValidProvider_def ValidHazardType_def
      time_Unix_not_zero)

lemma demo_accepted: "rp_status (fst (handleAuthentic demo_webhook demo_body (calm (demo_db [])))) = 200 \<and>
   delivery_keys (w_db (snd (handleAuthentic demo_webhook demo_body (calm (demo_db []))))) = {(ProviderBetaGrid, ''m1'')}"
  by (simp add: webhook_run_defs demo_window demo_valid demo_defs device_ids_def metricInc_def writeOK_def device_key_def delivery_keys_def delivery_key_def)

lemma webhook_ok_means_stored_witness:
  "let w' = snd (BetaGrid demo_webhook (demo_request (Sign demo_body ''s'')) (calm (demo_db [])))
   in (ProviderBetaGrid, ''m1'') \<in> delivery_keys (w_db w') \<and>
     (if counted (WebhookDuplicates ProviderBetaGrid) (calm (demo_db [])) w' = 0
      then (ProviderBetaGrid, ''m1'') \<in> hazard_keys (w_db w') else True)"
proof -
  obtain rep w' where b: "BetaGrid demo_webhook (demo_request (Sign demo_body ''s'')) (calm (demo_db [])) = (rep, w')"
    by fastforce
  with demo_accepted have ok: "rp_status rep = 200" by (simp add: demo_pipeline)
  from webhook_ok_means_stored [OF b [unfolded demo_webhook_def] ok] b show ?thesis
    by (auto simp: readBounded_ok maxDuration_def demo_Parse Let_def demo_normalized_def hazard_key_def)
qed

text \<open>C16: a delivery is processed once. Once the identifier of a delivery is on record, however its
  processing ended and whatever other handlers did since, another authentic delivery with the same
  identifier changes neither the tables, dead letters apart, nor what the subscribers see.\<close>

theorem webhook_processed_once:
  assumes "(ProviderBetaGrid, delivery_id body) \<in> delivery_keys (w_db w1)"
    "db_steps (w_db w1) (w_db w2)" "readBounded maxBytes r = BodyOk body"
  shows "case BetaGrid (newWebhook secret maxSkew maxBytes) r w2 of (rep, w3) \<Rightarrow>
    (w_db w3)\<lparr>t_dead := t_dead (w_db w2)\<rparr> = w_db w2 \<and> w_hub w3 = w_hub w2"
proof -
  have "(ProviderBetaGrid, delivery_id body) \<in> delivery_keys (w_db w2)"
    using assms(1,2) deliveries.steps_keep by blast
  from storage_webhook.BetaGrid_known [OF _ _ _ this, of "newWebhook secret maxSkew maxBytes" r] assms(3)
  show ?thesis by (auto simp: quiet_def newWebhook_def split: prod.split)
qed

lemma webhook_processed_once_witness:
  "let w1 = snd (BetaGrid demo_webhook (demo_request (Sign demo_body ''s'')) (calm (demo_db [])));
       w3 = snd (BetaGrid demo_webhook (demo_request (Sign demo_body ''s'')) w1)
   in (w_db w3)\<lparr>t_dead := t_dead (w_db w1)\<rparr> = w_db w1 \<and> w_hub w3 = w_hub w1"
proof -
  let ?r = "demo_request (Sign demo_body ''s'')"
  have id: "delivery_id demo_body = ''m1''" by (simp add: delivery_id_def demo_unmarshal)
  have k: "(ProviderBetaGrid, delivery_id demo_body) \<in>
      delivery_keys (w_db (snd (BetaGrid demo_webhook ?r (calm (demo_db [])))))"
    using demo_accepted by (simp add: demo_pipeline id)
  have b: "readBounded 1048576 ?r = BodyOk demo_body" by (simp add: readBounded_ok maxDuration_def)
  show ?thesis
    using webhook_processed_once [OF k rtranclp.rtrancl_refl b, of "''s''" "5 * Minute"]
    by (auto simp: demo_webhook_def Let_def split: prod.splits)
qed


end
