(* ===== verification/Ingest.thy ===== *)
theory Ingest
  imports HttpServer EventPipeline CommandService
begin

text \<open>
  The REST interface of the edge devices (\<^verbatim>\<open>internal/ingest/ingest.go\<close>): bearer token, bounded
  JSON bodies, telemetry, hazard events, command polling and command results. The Go interface
  \<^verbatim>\<open>ingest.Store\<close> is a record of operations.
\<close>

section \<open>The interface\<close>

record ingest_store =
  ig_UpsertDevice :: "Device \<Rightarrow> world \<Rightarrow> string res \<times> world"
  ig_InsertTelemetry :: "TelemetryEvent \<Rightarrow> world \<Rightarrow> unit res \<times> world"
  ig_FindDeviceByExternalID :: "ProviderName \<Rightarrow> string \<Rightarrow> world \<Rightarrow> Device res \<times> world"

definition storage_ingest_store :: ingest_store where
  "storage_ingest_store = \<lparr>ig_UpsertDevice = UpsertDevice, ig_InsertTelemetry = InsertTelemetry,
     ig_FindDeviceByExternalID = FindDeviceByExternalID\<rparr>"

record ingest_api =
  ia_store :: ingest_store
  ia_events :: event_store
  ia_commands :: command_service
  ia_token :: string
  ia_maxBytes :: int

section \<open>Wire types\<close>

record telemetryRequest =
  tq_DeviceID :: string
  tq_ReportedAtMs :: int
  tq_MonitoringStatus :: string
  tq_ModelStatus :: string
  tq_InferenceLatencyMs :: int
  tq_ProcessedFps :: int
  tq_DroppedFrames :: int
  tq_ConfirmedEvents :: int
  tq_AppVersion :: string

record eventRequest =
  eq_DeviceID :: string
  eq_EventID :: string
  eq_Type :: string
  eq_Confidence :: float64
  eq_FirstSeenMs :: int
  eq_ConfirmedAtMs :: int
  eq_AppVersion :: string

record commandResultRequest =
  cr_OK :: bool
  cr_Message :: string

text \<open>\<^verbatim>\<open>json.Unmarshal\<close> into each of them; None is its error.\<close>

definition unmarshalTelemetry :: "string \<Rightarrow> telemetryRequest option" where
  "unmarshalTelemetry body =
     (case parseJson body of
        None \<Rightarrow> None
      | Some v \<Rightarrow>
          (let (ms, ok0) = asObject v;
               (dev, ok1) = decodeField stringStep ''deviceId'' ms [];
               (rep, ok2) = decodeField (intStep 64) ''reportedAtMs'' ms 0;
               (mon, ok3) = decodeField stringStep ''monitoringStatus'' ms [];
               (mdl, ok4) = decodeField stringStep ''modelStatus'' ms [];
               (lat, ok5) = decodeField (intStep 64) ''inferenceLatencyMs'' ms 0;
               (fps, ok6) = decodeField (intStep 32) ''processedFps'' ms 0;
               (drp, ok7) = decodeField (intStep 64) ''droppedFrames'' ms 0;
               (con, ok8) = decodeField (intStep 64) ''confirmedEvents'' ms 0;
               (app, ok9) = decodeField stringStep ''appVersion'' ms []
           in if ok0 \<and> ok1 \<and> ok2 \<and> ok3 \<and> ok4 \<and> ok5 \<and> ok6 \<and> ok7 \<and> ok8 \<and> ok9
              then Some \<lparr>tq_DeviceID = dev, tq_ReportedAtMs = rep, tq_MonitoringStatus = mon,
                 tq_ModelStatus = mdl, tq_InferenceLatencyMs = lat, tq_ProcessedFps = fps,
                 tq_DroppedFrames = drp, tq_ConfirmedEvents = con, tq_AppVersion = app\<rparr>
              else None))"

definition unmarshalEvent :: "string \<Rightarrow> eventRequest option" where
  "unmarshalEvent body =
     (case parseJson body of
        None \<Rightarrow> None
      | Some v \<Rightarrow>
          (let (ms, ok0) = asObject v;
               (dev, ok1) = decodeField stringStep ''deviceId'' ms [];
               (evt, ok2) = decodeField stringStep ''eventId'' ms [];
               (ty, ok3) = decodeField stringStep ''type'' ms [];
               (conf, ok4) = decodeField floatStep ''confidence'' ms 0;
               (seen, ok5) = decodeField (intStep 64) ''firstSeenMs'' ms 0;
               (confd, ok6) = decodeField (intStep 64) ''confirmedAtMs'' ms 0;
               (app, ok7) = decodeField stringStep ''appVersion'' ms []
           in if ok0 \<and> ok1 \<and> ok2 \<and> ok3 \<and> ok4 \<and> ok5 \<and> ok6 \<and> ok7
              then Some \<lparr>eq_DeviceID = dev, eq_EventID = evt, eq_Type = ty, eq_Confidence = conf,
                 eq_FirstSeenMs = seen, eq_ConfirmedAtMs = confd, eq_AppVersion = app\<rparr>
              else None))"

definition unmarshalCommandResult :: "string \<Rightarrow> commandResultRequest option" where
  "unmarshalCommandResult body =
     (case parseJson body of
        None \<Rightarrow> None
      | Some v \<Rightarrow>
          (let (ms, ok0) = asObject v;
               (ok, ok1) = decodeField boolStep ''ok'' ms False;
               (msg, ok2) = decodeField stringStep ''message'' ms []
           in if ok0 \<and> ok1 \<and> ok2 then Some \<lparr>cr_OK = ok, cr_Message = msg\<rparr> else None))"

section \<open>Plumbing\<close>

definition badRequest :: "string \<Rightarrow> http_reply" where
  "badRequest msg = httpError (Str msg) StatusBadRequest"

definition internalError :: http_reply where
  "internalError = httpError (Str ''internal error'') StatusInternalServerError"

definition bearerPrefix :: string where "bearerPrefix = ''Bearer ''"

definition auth :: "ingest_api \<Rightarrow> handler \<Rightarrow> handler" where
  "auth a next r w =
     (if ia_token a \<noteq> [] \<and> stripPrefix bearerPrefix (in_header r ''Authorization'') \<noteq> Some (ia_token a)
      then (httpError (Str ''unauthorized'') StatusUnauthorized, w)
      else next r w)"

definition decode :: "ingest_api \<Rightarrow> (string \<Rightarrow> 'a option) \<Rightarrow> http_in \<Rightarrow> http_reply + 'a" where
  "decode a unmarshal r =
     (case readBounded (ia_maxBytes a) r of
        BodyBroken \<Rightarrow> Inl (badRequest ''unreadable body'')
      | BodyTooLarge \<Rightarrow> Inl (httpError (Str ''body too large'') StatusRequestEntityTooLarge)
      | BodyOk body \<Rightarrow>
          (case unmarshal body of
             None \<Rightarrow> Inl (badRequest ''malformed JSON'')
           | Some req \<Rightarrow> Inr req))"

section \<open>Telemetry\<close>

text \<open>The self-registration that both reporting endpoints start with.\<close>

definition edgeDevice :: "string \<Rightarrow> string \<Rightarrow> Time \<Rightarrow> Device" where
  "edgeDevice externalID appVersion now =
     zeroDevice\<lparr>d_ExternalID := externalID, d_Provider := ProviderGuardianEdge,
       d_Status := DeviceOnline, d_AppVersion := appVersion, d_LastSeenAt := now\<rparr>"

definition telemetryOf :: "telemetryRequest \<Rightarrow> string \<Rightarrow> Time \<Rightarrow> TelemetryEvent" where
  "telemetryOf req deviceID now =
     zeroTelemetryEvent\<lparr>tl_DeviceID := deviceID, tl_ReportedAt := time_UnixMilli (tq_ReportedAtMs req),
       tl_ReceivedAt := now,
       tl_MonitoringStatus :=
         (if tq_MonitoringStatus req = MonitoringIdle then MonitoringIdle
          else if tq_MonitoringStatus req = MonitoringActive then MonitoringActive
          else MonitoringUnknown),
       tl_ModelStatus := tq_ModelStatus req, tl_InferenceLatencyMs := tq_InferenceLatencyMs req,
       tl_ProcessedFPS := tq_ProcessedFps req, tl_DroppedFrames := tq_DroppedFrames req,
       tl_ConfirmedEvents := tq_ConfirmedEvents req, tl_AppVersion := tq_AppVersion req\<rparr>"

definition postTelemetry :: "ingest_api \<Rightarrow> handler" where
  "postTelemetry a r w =
     (case decode a unmarshalTelemetry r of
        Inl rep \<Rightarrow> (rep, w)
      | Inr req \<Rightarrow>
          if tq_DeviceID req = [] \<or> tq_ReportedAtMs req \<le> 0
          then (badRequest ''deviceId and reportedAtMs are required'', w)
          else let (now, w1) = timeNow w
               in case ig_UpsertDevice (ia_store a)
                         (edgeDevice (tq_DeviceID req) (tq_AppVersion req) now) w1 of
                    (Inl e, w2) \<Rightarrow> (internalError, w2)
                  | (Inr deviceID, w2) \<Rightarrow>
                      (case ig_InsertTelemetry (ia_store a) (telemetryOf req deviceID now) w2 of
                         (Inl e, w3) \<Rightarrow> (internalError, w3)
                       | (Inr u, w3) \<Rightarrow>
                           (jsonReply StatusAccepted (JObj [(''status'', JStr ''accepted'')]),
                            metricInc TelemetryReceived w3)))"

section \<open>Hazard events\<close>

definition msToTime :: "int \<Rightarrow> Time" where
  "msToTime ms = (if ms \<le> 0 then zeroTime else time_UnixMilli ms)"

definition eventOf :: "eventRequest \<Rightarrow> string \<Rightarrow> Time \<Rightarrow> HazardEvent" where
  "eventOf req deviceID now =
     zeroHazardEvent\<lparr>e_DedupKey := eq_EventID req, e_DeviceID := deviceID,
       e_Source := ProviderGuardianEdge, e_Type := eq_Type req, e_Confidence := eq_Confidence req,
       e_FirstSeenAt := msToTime (eq_FirstSeenMs req), e_ConfirmedAt := msToTime (eq_ConfirmedAtMs req),
       e_ReceivedAt := now\<rparr>"

definition postEvent :: "ingest_api \<Rightarrow> handler" where
  "postEvent a r w =
     (case decode a unmarshalEvent r of
        Inl rep \<Rightarrow> (rep, w)
      | Inr req \<Rightarrow>
          if eq_DeviceID req = [] then (badRequest ''deviceId is required'', w)
          else let (now, w1) = timeNow w
               in case ig_UpsertDevice (ia_store a)
                         (edgeDevice (eq_DeviceID req) (eq_AppVersion req) now) w1 of
                    (Inl e, w2) \<Rightarrow> (internalError, w2)
                  | (Inr deviceID, w2) \<Rightarrow>
                      (case Accept (ia_events a) (eventOf req deviceID now) w2 of
                         (Inl e, w3) \<Rightarrow>
                           (case asRejected e of
                              Some rej \<Rightarrow> (httpError (ErrText rej) StatusBadRequest, w3)
                            | None \<Rightarrow> (internalError, w3))
                       | (Inr duplicate, w3) \<Rightarrow>
                           (jsonReply StatusAccepted
                              (JObj [(''duplicate'', JBool duplicate), (''status'', JStr ''accepted'')]),
                            w3)))"

section \<open>Commands\<close>

definition commandWire :: "Command \<Rightarrow> json" where
  "commandWire c = JObj [(''id'', JStr (c_ID c)), (''type'', JStr (c_Type c)), (''payload'', JStr (c_Payload c))]"

definition getCommands :: "ingest_api \<Rightarrow> handler" where
  "getCommands a r w =
     (let externalID = in_query r ''deviceId''
      in if externalID = [] then (badRequest ''deviceId query parameter is required'', w)
         else case ig_FindDeviceByExternalID (ia_store a) ProviderGuardianEdge externalID w of
                (Inl e, w1) \<Rightarrow>
                  if errIs e ErrNotFound
                  then (jsonReply StatusOK (JObj [(''commands'', JArr [])]), w1)
                  else (internalError, w1)
              | (Inr device, w1) \<Rightarrow>
                  (case Poll (ia_commands a) (d_ID device) 10 w1 of
                     (Inl e, w2) \<Rightarrow> (internalError, w2)
                   | (Inr cmds, w2) \<Rightarrow>
                       (jsonReply StatusOK (JObj [(''commands'', JArr (map commandWire cmds))]), w2)))"

definition postCommandResult :: "ingest_api \<Rightarrow> handler" where
  "postCommandResult a r w =
     (case decode a unmarshalCommandResult r of
        Inl rep \<Rightarrow> (rep, w)
      | Inr req \<Rightarrow>
          (case ReportResult (ia_commands a) (in_pathValue r ''id'') (cr_OK req) (cr_Message req) w of
             (Inr cmd, w1) \<Rightarrow> (jsonReply StatusOK (JObj [(''status'', JStr ''recorded'')]), w1)
           | (Inl e, w1) \<Rightarrow>
               (if errIs e ErrNotFound then httpError (Str ''unknown command'') StatusNotFound
                else if errIs e ErrInvalidTransition
                then httpError (Str ''command is not awaiting a result'') StatusConflict
                else internalError, w1)))"

text \<open>The routes: the pattern, the handler under its middleware, the name it is measured under.\<close>

definition ingestRoutes :: "ingest_api \<Rightarrow> (string \<times> handler \<times> string) list" where
  "ingestRoutes a =
     [(''POST /v1/edge/telemetry'', auth a (postTelemetry a), ''edge_telemetry''),
      (''POST /v1/edge/events'', auth a (postEvent a), ''edge_events''),
      (''GET /v1/edge/commands'', auth a (getCommands a), ''edge_commands_poll''),
      (''POST /v1/edge/commands/{id}/result'', auth a (postCommandResult a), ''edge_command_result'')]"

definition newIngest :: "command_service \<Rightarrow> string \<Rightarrow> int \<Rightarrow> ingest_api" where
  "newIngest cs token maxBytes =
     \<lparr>ia_store = storage_ingest_store, ia_events = storage_event_store, ia_commands = cs,
      ia_token = token, ia_maxBytes = maxBytes\<rparr>"

section \<open>Properties\<close>

lemma stripPrefix_iff: "stripPrefix p s = Some t \<longleftrightarrow> s = p @ t"
  by (auto simp: stripPrefix_def) (metis append_take_drop_id)

lemma ingest_simps [simp]:
  "ia_store (newIngest cs token maxBytes) = storage_ingest_store"
  "ia_events (newIngest cs token maxBytes) = storage_event_store"
  "ia_commands (newIngest cs token maxBytes) = cs" "ia_token (newIngest cs token maxBytes) = token"
  "ia_maxBytes (newIngest cs token maxBytes) = maxBytes"
  "ig_UpsertDevice storage_ingest_store = UpsertDevice"
  "ig_InsertTelemetry storage_ingest_store = InsertTelemetry"
  "ig_FindDeviceByExternalID storage_ingest_store = FindDeviceByExternalID"
  by (simp_all add: newIngest_def storage_ingest_store_def)

text \<open>The edge interface is closed without the token. When a token is configured, every route
  answers 401 and changes nothing at all unless the Authorization header is exactly the bearer scheme
  followed by the token; with it, or with no token configured, the handler runs.\<close>

theorem edge_requires_token:
  "list_all2 (\<lambda>(pattern, h, name) handler.
      h r w = (if ia_token a = [] \<or> in_header r ''Authorization'' = ''Bearer '' @ ia_token a
               then handler a r w
               else (httpError (Str ''unauthorized'') 401, w)))
    (ingestRoutes a) [postTelemetry, postEvent, getCommands, postCommandResult]"
  by (simp add: ingestRoutes_def auth_def stripPrefix_iff bearerPrefix_def)

lemma UpsertDevice_only_devices:
  "(w_db (snd (UpsertDevice d w)))\<lparr>t_devices := t_devices (w_db w)\<rparr> = w_db w"
proof -
  obtain uid w1 where u: "uuidNew w = (uid, w1)" by fastforce
  have w1: "w_db w1 = w_db w" using w_db_env(3) [of w] u by simp
  have snd: "snd (UpsertDevice d w) = snd (exec_sql (upsertDevice_sql (w_pg w1) uid d) w1)"
    by (simp add: UpsertDevice_def u split: prod.split sum.split)
  have "db'\<lparr>t_devices := t_devices (w_db w)\<rparr> = w_db w"
    if "upsertDevice_sql (w_pg w1) uid d now (w_db w1) = Inr (a, db')" for now a db'
    using that w1
    by (auto simp: upsertDevice_sql_def with_uuid_def Let_def split: option.splits if_splits)
  then show ?thesis
    using exec_sql_db_cases [of "upsertDevice_sql (w_pg w1) uid d" w1] w1 unfolding snd
    by (metis database.surjective database.update_convs(1))
qed

lemma UpsertDevice_keeps:
  assumes "UpsertDevice d w = (r, w')"
  shows "t_hazards (w_db w') = t_hazards (w_db w)" "t_telemetry (w_db w') = t_telemetry (w_db w)"
    "w_hub w' = w_hub w" "w_pg w' = w_pg w"
  using UpsertDevice_only_devices [where d = d and w = w] assms store_effectD [OF UpsertDevice_effect [where d = d and w = w]]
  by (metis database.select_convs(2,3) database.surjective database.update_convs(1) snd_conv)+

lemma timeNow_keeps:
  "timeNow w = (t, w') \<Longrightarrow> w_db w' = w_db w \<and> w_hub w' = w_hub w \<and> w_pg w' = w_pg w"
  by (auto simp: timeNow_def)

lemma InsertHazardEvent_not_rejected:
  assumes "InsertHazardEvent e w = (Inl err, w')"
  shows "asRejected err = None"
proof -
  obtain e1 w1 where u: "withEventID e w = (e1, w1)" by fastforce
  obtain r w2 where x: "exec_sql (insertHazard_sql (w_pg w1) e1) w1 = (r, w2)" by fastforce
  show ?thesis
  proof (cases r)
    case (Inl e0)
    have "asRejected e0 = None"
      using exec_sql_Inl [OF x [unfolded Inl]]
      by (auto simp: insertHazard_sql_def with_uuid_def pg_errors split: option.splits if_splits)
    with Inl x assms show ?thesis by (auto simp: InsertHazardEvent_def u)
  next
    case (Inr n)
    with x assms show ?thesis by (auto simp: InsertHazardEvent_def u split: if_splits)
  qed
qed

lemma Accept_rejected:
  assumes "Accept storage_event_store e w = (Inl err, w')" "asRejected err = Some x"
  shows "w_db w' = w_db w"
proof (cases "Validate e")
  case None
  with assms show ?thesis
    by (auto simp: Accept_def Let_def storage_event_store_def split: prod.splits sum.splits if_splits
        dest: InsertHazardEvent_not_rejected)
next
  case (Some err')
  with assms show ?thesis by (auto simp: Accept_def Let_def)
qed

text \<open>An accepted event is stored, and the device is told the truth. PostEvent answers 202 only
  for an event that is in the database afterwards under the device's event identifier; the duplicate
  flag of the answer says whether it was there before; subscribers are told exactly of the new ones; and
  every other answer is 400, 413 or 500 with nothing published, a 400 or 413 storing no event.\<close>

theorem postEvent_correct:
  "case postEvent (newIngest cs token maxBytes) r w of (rep, w') \<Rightarrow>
     (case decode (newIngest cs token maxBytes) unmarshalEvent r of
        Inl reply \<Rightarrow> rep = reply \<and> w' = w
      | Inr req \<Rightarrow>
          (let key = (ProviderGuardianEdge, eq_EventID req); known = (key \<in> hazard_keys (w_db w))
           in if rp_status rep = 202
              then key \<in> hazard_keys (w_db w') \<and>
                rp_body rep = JsonDoc (JObj [(''duplicate'', JBool known), (''status'', JStr ''accepted'')]) \<and>
                (if known then w_hub w' = w_hub w
                 else \<exists>e. hazard_key e = key \<and> w_hub w' = hubPublish e (w_hub w))
              else rp_status rep \<in> {400, 500} \<and> w_hub w' = w_hub w \<and>
                (if rp_status rep = 400 then t_hazards (w_db w') = t_hazards (w_db w) else True)))"
proof (cases "decode (newIngest cs token maxBytes) unmarshalEvent r")
  case (Inl reply)
  then show ?thesis by (simp add: postEvent_def)
next
  case (Inr req)
  let ?key = "(ProviderGuardianEdge, eq_EventID req)"
  obtain now w1 where n: "timeNow w = (now, w1)" by fastforce
  obtain u w2 where u: "UpsertDevice (edgeDevice (eq_DeviceID req) (eq_AppVersion req) now) w1 = (u, w2)"
    by fastforce
  have w2: "hazard_keys (w_db w2) = hazard_keys (w_db w)" "w_hub w2 = w_hub w"
      "t_hazards (w_db w2) = t_hazards (w_db w)"
    using UpsertDevice_keeps [OF u] timeNow_keeps [OF n] by (simp_all add: hazard_keys_def)
  show ?thesis
  proof (cases u)
    case (Inl e)
    then show ?thesis using w2 by (simp add: postEvent_def Inr n u internalError_def badRequest_def)
  next
    case dev: (Inr dev)
    let ?e = "eventOf req dev now"
    obtain r' w3 where a: "Accept storage_event_store ?e w2 = (r', w3)" by fastforce
    have key: "hazard_key (?e\<lparr>e_ID := x\<rparr>) = ?key" "hazard_key ?e = ?key" for x
      by (simp_all add: hazard_key_def eventOf_def)
    note run = postEvent_def Inr n u dev a Let_def internalError_def badRequest_def jsonReply_def
    show ?thesis
    proof (cases r')
      case (Inl err)
      have hub: "w_hub w3 = w_hub w" using storage.Accept_hub [OF a] Inl w2 by simp
      show ?thesis
        using hub w2 Accept_rejected [OF a [unfolded Inl]]
        by (cases "asRejected err") (simp_all add: run Inl)
    next
      case (Inr known)
      have stored: "?key \<in> hazard_keys (w_db w3)" using storage.Accept_answers(2) [OF a Inr] key by simp
      show ?thesis
      proof (cases known)
        case True
        with storage.Accept_known [OF a] Inr key w2 have "?key \<in> hazard_keys (w_db w)" by simp
        moreover have "w_hub w3 = w_hub w" using storage.Accept_hub [OF a] Inr True w2 by simp
        ultimately show ?thesis using stored True by (simp add: run Inr)
      next
        case False
        with storage.Accept_answers(1) [OF a] Inr key w2 have "?key \<notin> hazard_keys (w_db w)" by simp
        moreover have "\<exists>e. hazard_key e = ?key \<and> w_hub w3 = hubPublish e (w_hub w)"
          using storage.Accept_hub [OF a] Inr False w2 key by metis
        ultimately show ?thesis using stored False by (simp add: run Inr)
      qed
    qed
  qed
qed

lemma FindDeviceByExternalID_Inr:
  assumes "FindDeviceByExternalID p ext w = (Inr d, w')"
  shows "w_db w' = w_db w \<and> w_pg w' = w_pg w \<and> (\<exists>row. row \<in> set (t_devices (w_db w)) \<and>
    device_key row = (p, ext) \<and> d = scan_device_row row)"
proof -
  obtain now where "findDevice_sql p ext now (w_db w) = Inr (d, w_db w')"
    using assms exec_sql_Inr [of "findDevice_sql p ext" w d w']
    by (auto simp: FindDeviceByExternalID_def scanRow_def split: prod.splits sum.splits)
  moreover have "w_pg w' = w_pg w"
    using store_effectD(2) [OF query_effects(2) [where w = w and p = p and ext = ext]] assms by simp
  ultimately show ?thesis
    by (auto simp: findDevice_sql_def select_one_def dest!: find_SomeD split: option.splits)
qed

lemma length_filter_keys:
  assumes "distinct (map k t)"
  shows "length (filter (\<lambda>x. k x \<in> set ks) t) \<le> length ks"
proof -
  have "distinct (map k (filter (\<lambda>x. k x \<in> set ks) t))"
    using assms by (simp add: distinct_map inj_on_def)
  then have "length (filter (\<lambda>x. k x \<in> set ks) t) = card (k ` set (filter (\<lambda>x. k x \<in> set ks) t))"
    by (metis distinct_card length_map list.set_map)
  also have "\<dots> \<le> card (set ks)" by (rule card_mono) auto
  also have "\<dots> \<le> length ks" by (rule card_length)
  finally show ?thesis .
qed

lemma FetchPendingCommands_owner:
  assumes "FetchPendingCommands dev limit w = (Inr cs, w')" "db_inv (w_db w)"
  shows "length cs \<le> nat (clamp_poll_limit limit) \<and> list_all (\<lambda>c. pg_uuid (w_pg w) dev = Some (c_DeviceID c)) cs"
proof -
  from assms obtain u now where f: "pg_uuid (w_pg w) dev = Some u"
    "cs = map (claim_row now) (filter (\<lambda>c. c_ID c \<in> set (claim_ids u (clamp_poll_limit limit) now
            (t_commands (w_db w)))) (t_commands (w_db w)))"
    "\<And>c. c \<in> set (t_commands (w_db w)) \<Longrightarrow> c_ID c \<in> set (claim_ids u (clamp_poll_limit limit) now
            (t_commands (w_db w))) \<Longrightarrow> claimable u now c"
    by (rule FetchPendingCommands_Inr) blast
  have "distinct (map c_ID (t_commands (w_db w)))"
    using assms(2) by (simp add: db_inv_def commands_inv_def)
  from length_filter_keys [OF this, of "claim_ids u (clamp_poll_limit limit) now (t_commands (w_db w))"]
  have "length cs \<le> nat (clamp_poll_limit limit)" unfolding f(2) by (simp add: claim_ids_def)
  with f show ?thesis by (auto simp: list_all_iff claimable_def claim_row_def)
qed

text \<open>A device polls its own commands. A poll answered 200 lists at most ten commands, all of
  the device registered under the given external identifier; each was PENDING before the poll and is
  DELIVERED after it, so no other poll gets it.\<close>

theorem getCommands_correct:
  assumes "db_inv (w_db w)" "rp_status rep = 200"
    "getCommands (newIngest (service ttl senders) token maxBytes) r w = (rep, w')"
  shows "\<exists>cs. rp_body rep = JsonDoc (JObj [(''commands'', JArr (map commandWire cs))]) \<and> length cs \<le> 10 \<and>
    list_all (\<lambda>c. (\<exists>row. row \<in> set (t_devices (w_db w)) \<and>
        device_key row = (ProviderGuardianEdge, in_query r ''deviceId'') \<and>
        pg_uuid (w_pg w) (dv_id row) = Some (c_DeviceID c)) \<and>
      lifecycle (w_db w) (c_ID c) = Some CommandPending \<and>
      lifecycle (w_db w') (c_ID c) = Some CommandDelivered) cs"
proof -
  let ?ext = "in_query r ''deviceId''"
  have ext: "?ext \<noteq> []"
    using assms(2,3) by (auto simp: getCommands_def Let_def badRequest_def)
  obtain x w1 where f: "FindDeviceByExternalID ProviderGuardianEdge ?ext w = (x, w1)" by fastforce
  show ?thesis
  proof (cases x)
    case (Inl e)
    with assms(2,3) f ext show ?thesis
      by (auto simp: getCommands_def Let_def jsonReply_def internalError_def split: if_splits intro!: exI [of _ "[]"])
  next
    case (Inr device)
    note d = FindDeviceByExternalID_Inr [OF f [unfolded Inr]]
    then obtain row where row: "row \<in> set (t_devices (w_db w))" "device_key row = (ProviderGuardianEdge, ?ext)"
      "d_ID device = dv_id row" by (auto simp: scan_device_row_def)
    obtain y w2 where p: "FetchPendingCommands (d_ID device) 10 w1 = (y, w2)" by fastforce
    from assms(2,3) obtain cs where cs: "y = Inr cs"
      by (cases y) (auto simp: getCommands_def Let_def f Inr ext Poll_def p internalError_def)
    with assms(3) have rep: "rep = jsonReply 200 (JObj [(''commands'', JArr (map commandWire cs))])"
      "w_db w' = w_db w2"
      by (auto simp: getCommands_def Let_def f Inr ext Poll_def p repeatInc_def)
    have inv: "db_inv (w_db w1)" using assms(1) d by simp
    have "length cs \<le> 10"
      using FetchPendingCommands_owner [OF p [unfolded cs] inv] by (simp add: clamp_poll_limit_def)
    moreover have "pg_uuid (w_pg w) (dv_id row) = Some (c_DeviceID c)" if "c \<in> set cs" for c
      using FetchPendingCommands_owner [OF p [unfolded cs] inv] d row(3) that by (simp add: list_all_iff)
    moreover have "lifecycle (w_db w) (c_ID c) = Some CommandPending"
        "lifecycle (w_db w') (c_ID c) = Some CommandDelivered" if "c \<in> set cs" for c
      using FetchPendingCommands_lifecycle [OF p [unfolded cs] inv that] d rep by simp_all
    ultimately show ?thesis
      using rep row by (intro exI [of _ cs]) (auto simp: jsonReply_def list_all_iff)
  qed
qed

definition demo_get :: "string \<Rightarrow> http_in" where
  "demo_get ext = \<lparr>in_method = ''GET'', in_path = ''/v1/edge/commands'', in_header = (\<lambda>_. []),
     in_query = (\<lambda>k. if k = ''deviceId'' then ext else []), in_pathValue = (\<lambda>_. []), in_body = [],
     in_broken = False\<rparr>"

lemma getCommands_correct_witness:
  "let w = calm (demo_db [demo_command ''c1'' CommandPending]);
       (rep, w') = getCommands (newIngest (service Hour (\<lambda>_. None)) [] 1000) (demo_get ''x1'') w
   in \<exists>cs. rp_body rep = JsonDoc (JObj [(''commands'', JArr (map commandWire cs))]) \<and> length cs \<le> 10 \<and>
     list_all (\<lambda>c. lifecycle (w_db w) (c_ID c) = Some CommandPending \<and>
       lifecycle (w_db w') (c_ID c) = Some CommandDelivered) cs"
proof -
  let ?w = "calm (demo_db [demo_command ''c1'' CommandPending])"
  obtain rep w' where g: "getCommands (newIngest (service Hour (\<lambda>_. None)) [] 1000) (demo_get ''x1'') ?w = (rep, w')"
    by fastforce
  have "rp_status (fst (getCommands (newIngest (service Hour (\<lambda>_. None)) [] 1000) (demo_get ''x1'') ?w)) = 200"
    by (simp add: getCommands_def demo_get_def FindDeviceByExternalID_def findDevice_sql_def scanRow_def
        select_one_def scan_device_row_def device_key_def Poll_def poll_run_defs demo_defs)
  then have "rp_status rep = 200" using g by simp
  from getCommands_correct [OF _ this g] g show ?thesis
    by (auto simp: Let_def list_all_iff)
qed


definition demo_result :: http_in where
  \<open>demo_result = \<lparr>in_method = ''POST'', in_path = ''/v1/edge/commands/c1/result'', in_header = (\<lambda>_. []),
     in_query = (\<lambda>_. []), in_pathValue = (\<lambda>_. ''c1''), in_body = ''{"ok":true,"message":"done"}'',
     in_broken = False\<rparr>\<close>

lemma demo_result_decodes: "decode (newIngest cs [] 1000) unmarshalCommandResult demo_result =
    Inr \<lparr>cr_OK = True, cr_Message = ''done''\<rparr>"
  by (simp add: decode_def readBounded_ok maxDuration_def demo_result_def unmarshalCommandResult_def
      json_run decode_run)


lemma InsertTelemetry_Inr:
  assumes "InsertTelemetry t w = (Inr v, w')"
  shows "\<exists>u dev. telemetry_checks t \<and> t_telemetry (w_db w') = t_telemetry (w_db w) @
    [t\<lparr>tl_ID := u, tl_DeviceID := dev, tl_ReportedAt := pg_time (w_pg w) (tl_ReportedAt t),
       tl_ReceivedAt := pg_time (w_pg w) (tl_ReceivedAt t)\<rparr>]"
proof -
  obtain uid w1 where u: "uuidNew w = (uid, w1)" by fastforce
  have w1: "w_db w1 = w_db w" "w_pg w1 = w_pg w" using u by (auto simp: uuidNew_def)
  from assms u have "exec_sql (insertTelemetry_sql (w_pg w1) uid t) w1 = (Inr v, w')"
    by (simp add: InsertTelemetry_def)
  from exec_sql_Inr [OF this] w1 show ?thesis
    by (auto simp: insertTelemetry_sql_def with_uuid_def split: option.splits if_splits
        dest!: sym [of _ "w_db w'"]) (rule exI, rule exI, rule refl)
qed

text \<open>Accepted telemetry is stored. PostTelemetry answers 202 only after one row was added to the
  telemetry table with the reported counters, none of them negative, the monitoring status folded to the
  known vocabulary, and the device's own timestamp; a body that does not decode, or that lacks the device
  identifier or the timestamp, changes nothing.\<close>

theorem postTelemetry_correct:
  "case postTelemetry (newIngest cs token maxBytes) r w of (rep, w') \<Rightarrow>
     (case decode (newIngest cs token maxBytes) unmarshalTelemetry r of
        Inl reply \<Rightarrow> rep = reply \<and> w' = w
      | Inr req \<Rightarrow>
          if tq_DeviceID req = [] \<or> tq_ReportedAtMs req \<le> 0 then rp_status rep = 400 \<and> w' = w
          else if rp_status rep = 202
          then \<exists>t. t_telemetry (w_db w') = t_telemetry (w_db w) @ [t] \<and> telemetry_checks t \<and>
            tl_ReportedAt t = pg_time (w_pg w) (time_UnixMilli (tq_ReportedAtMs req)) \<and>
            tl_MonitoringStatus t \<in> {MonitoringIdle, MonitoringActive, MonitoringUnknown} \<and>
            tl_InferenceLatencyMs t = tq_InferenceLatencyMs req \<and> tl_ProcessedFPS t = tq_ProcessedFps req \<and>
            tl_DroppedFrames t = tq_DroppedFrames req \<and> tl_ConfirmedEvents t = tq_ConfirmedEvents req
          else rp_status rep = 500)"
proof (cases "decode (newIngest cs token maxBytes) unmarshalTelemetry r")
  case (Inl reply)
  then show ?thesis by (simp add: postTelemetry_def)
next
  case (Inr req)
  obtain now w1 where n: "timeNow w = (now, w1)" by fastforce
  obtain u w2 where u: "UpsertDevice (edgeDevice (tq_DeviceID req) (tq_AppVersion req) now) w1 = (u, w2)"
    by fastforce
  have w2: "t_telemetry (w_db w2) = t_telemetry (w_db w)" "w_pg w2 = w_pg w"
    using UpsertDevice_keeps [OF u] timeNow_keeps [OF n] by simp_all
  note run = postTelemetry_def Inr n u Let_def internalError_def badRequest_def
  show ?thesis
  proof (cases u)
    case (Inl e)
    then show ?thesis by (simp add: run)
  next
    case dev: (Inr dev)
    obtain x w3 where x: "InsertTelemetry (telemetryOf req dev now) w2 = (x, w3)" by fastforce
    show ?thesis
    proof (cases x)
      case (Inl e)
      with dev x show ?thesis by (simp add: run)
    next
      case stored: (Inr v)
      with InsertTelemetry_Inr [OF x [unfolded stored]] w2 dev x show ?thesis
        by (auto simp: run telemetryOf_def telemetry_checks_def)
    qed
  qed
qed

end
