(* ===== verification/GrpcApi.thy ===== *)
theory GrpcApi
  imports EventPipeline CommandService
begin

text \<open>
  The internal platform interface (\<^verbatim>\<open>internal/grpcapi/grpcapi.go\<close>): the calls of
  \<^verbatim>\<open>ConnectorService\<close>, their status codes, the translation between the domain types and the
  messages of \<^verbatim>\<open>api/gen/guardian/v1\<close>, and the event stream. An enum of proto3 is an open
  \<^verbatim>\<open>int32\<close> with named values; a message field is absent or present.
\<close>

section \<open>Messages\<close>

type_synonym pb_enum = int

definition DEVICE_STATUS_ONLINE :: pb_enum where "DEVICE_STATUS_ONLINE = 1"
definition DEVICE_STATUS_OFFLINE :: pb_enum where "DEVICE_STATUS_OFFLINE = 2"
definition DEVICE_STATUS_UNKNOWN :: pb_enum where "DEVICE_STATUS_UNKNOWN = 3"

definition HAZARD_TYPE_UNSPECIFIED :: pb_enum where "HAZARD_TYPE_UNSPECIFIED = 0"
definition HAZARD_TYPE_FIRE :: pb_enum where "HAZARD_TYPE_FIRE = 1"
definition HAZARD_TYPE_SMOKE :: pb_enum where "HAZARD_TYPE_SMOKE = 2"
definition HAZARD_TYPE_FALL :: pb_enum where "HAZARD_TYPE_FALL = 3"
definition HAZARD_TYPE_INTRUSION :: pb_enum where "HAZARD_TYPE_INTRUSION = 4"
definition HAZARD_TYPE_CAMERA_TAMPERING :: pb_enum where "HAZARD_TYPE_CAMERA_TAMPERING = 5"

definition COMMAND_TYPE_UNSPECIFIED :: pb_enum where "COMMAND_TYPE_UNSPECIFIED = 0"
definition COMMAND_TYPE_GET_STATUS :: pb_enum where "COMMAND_TYPE_GET_STATUS = 1"
definition COMMAND_TYPE_START_MONITORING :: pb_enum where "COMMAND_TYPE_START_MONITORING = 2"
definition COMMAND_TYPE_STOP_MONITORING :: pb_enum where "COMMAND_TYPE_STOP_MONITORING = 3"
definition COMMAND_TYPE_UPDATE_MONITORING_CONFIG :: pb_enum where
  "COMMAND_TYPE_UPDATE_MONITORING_CONFIG = 4"

definition COMMAND_STATE_UNSPECIFIED :: pb_enum where "COMMAND_STATE_UNSPECIFIED = 0"
definition COMMAND_STATE_PENDING :: pb_enum where "COMMAND_STATE_PENDING = 1"
definition COMMAND_STATE_DELIVERED :: pb_enum where "COMMAND_STATE_DELIVERED = 2"
definition COMMAND_STATE_ACKNOWLEDGED :: pb_enum where "COMMAND_STATE_ACKNOWLEDGED = 3"
definition COMMAND_STATE_FAILED :: pb_enum where "COMMAND_STATE_FAILED = 4"

lemmas pb_enums = DEVICE_STATUS_ONLINE_def DEVICE_STATUS_OFFLINE_def DEVICE_STATUS_UNKNOWN_def
  HAZARD_TYPE_UNSPECIFIED_def HAZARD_TYPE_FIRE_def HAZARD_TYPE_SMOKE_def HAZARD_TYPE_FALL_def
  HAZARD_TYPE_INTRUSION_def HAZARD_TYPE_CAMERA_TAMPERING_def COMMAND_TYPE_UNSPECIFIED_def
  COMMAND_TYPE_GET_STATUS_def COMMAND_TYPE_START_MONITORING_def COMMAND_TYPE_STOP_MONITORING_def
  COMMAND_TYPE_UPDATE_MONITORING_CONFIG_def COMMAND_STATE_UNSPECIFIED_def COMMAND_STATE_PENDING_def
  COMMAND_STATE_DELIVERED_def COMMAND_STATE_ACKNOWLEDGED_def COMMAND_STATE_FAILED_def

record Timestamp =
  ts_Seconds :: int
  ts_Nanos :: int

definition timestampNew :: "Time \<Rightarrow> Timestamp" where
  "timestampNew t = \<lparr>ts_Seconds = t div 1000000000, ts_Nanos = t mod 1000000000\<rparr>"

record pb_Device =
  pd_Id :: string
  pd_ExternalId :: string
  pd_Provider :: string
  pd_Name :: string
  pd_Status :: pb_enum
  pd_AppVersion :: string
  pd_LastSeenAt :: "Timestamp option"

record pb_HazardEvent =
  pe_Id :: string
  pe_DeviceId :: string
  pe_Source :: string
  pe_Type :: pb_enum
  pe_Confidence :: float64
  pe_FirstSeenAt :: Timestamp
  pe_ConfirmedAt :: Timestamp
  pe_ReceivedAt :: Timestamp

record pb_Command =
  pc_Id :: string
  pc_DeviceId :: string
  pc_Type :: pb_enum
  pc_PayloadJson :: string
  pc_State :: pb_enum
  pc_ResultMessage :: message
  pc_CreatedAt :: Timestamp
  pc_CompletedAt :: "Timestamp option"

section \<open>Translation\<close>

definition deviceToProto :: "Device \<Rightarrow> pb_Device" where
  "deviceToProto d =
     \<lparr>pd_Id = d_ID d, pd_ExternalId = d_ExternalID d, pd_Provider = d_Provider d, pd_Name = d_Name d,
      pd_Status = (if d_Status d = DeviceOnline then DEVICE_STATUS_ONLINE
                   else if d_Status d = DeviceOffline then DEVICE_STATUS_OFFLINE
                   else DEVICE_STATUS_UNKNOWN),
      pd_AppVersion = d_AppVersion d,
      pd_LastSeenAt = (if IsZero (d_LastSeenAt d) then None else Some (timestampNew (d_LastSeenAt d)))\<rparr>"

definition hazardTypeToProto :: "HazardType \<Rightarrow> pb_enum" where
  "hazardTypeToProto t =
     (if t = HazardFire then HAZARD_TYPE_FIRE
      else if t = HazardSmoke then HAZARD_TYPE_SMOKE
      else if t = HazardFall then HAZARD_TYPE_FALL
      else if t = HazardIntrusion then HAZARD_TYPE_INTRUSION
      else if t = HazardCameraTampering then HAZARD_TYPE_CAMERA_TAMPERING
      else HAZARD_TYPE_UNSPECIFIED)"

definition eventToProto :: "HazardEvent \<Rightarrow> pb_HazardEvent" where
  "eventToProto e =
     \<lparr>pe_Id = e_ID e, pe_DeviceId = e_DeviceID e, pe_Source = e_Source e,
      pe_Type = hazardTypeToProto (e_Type e), pe_Confidence = e_Confidence e,
      pe_FirstSeenAt = timestampNew (e_FirstSeenAt e), pe_ConfirmedAt = timestampNew (e_ConfirmedAt e),
      pe_ReceivedAt = timestampNew (e_ReceivedAt e)\<rparr>"

definition commandTypeFromProto :: "pb_enum \<Rightarrow> CommandType" where
  "commandTypeFromProto t =
     (if t = COMMAND_TYPE_GET_STATUS then CommandGetStatus
      else if t = COMMAND_TYPE_START_MONITORING then CommandStartMonitoring
      else if t = COMMAND_TYPE_STOP_MONITORING then CommandStopMonitoring
      else if t = COMMAND_TYPE_UPDATE_MONITORING_CONFIG then CommandUpdateConfig
      else [])"

definition commandTypeToProto :: "CommandType \<Rightarrow> pb_enum" where
  "commandTypeToProto t =
     (if t = CommandGetStatus then COMMAND_TYPE_GET_STATUS
      else if t = CommandStartMonitoring then COMMAND_TYPE_START_MONITORING
      else if t = CommandStopMonitoring then COMMAND_TYPE_STOP_MONITORING
      else if t = CommandUpdateConfig then COMMAND_TYPE_UPDATE_MONITORING_CONFIG
      else COMMAND_TYPE_UNSPECIFIED)"

definition commandStateToProto :: "CommandState \<Rightarrow> pb_enum" where
  "commandStateToProto s =
     (if s = CommandPending then COMMAND_STATE_PENDING
      else if s = CommandDelivered then COMMAND_STATE_DELIVERED
      else if s = CommandAcknowledged then COMMAND_STATE_ACKNOWLEDGED
      else if s = CommandFailed then COMMAND_STATE_FAILED
      else COMMAND_STATE_UNSPECIFIED)"

definition commandToProto :: "Command \<Rightarrow> pb_Command" where
  "commandToProto c =
     \<lparr>pc_Id = c_ID c, pc_DeviceId = c_DeviceID c, pc_Type = commandTypeToProto (c_Type c),
      pc_PayloadJson = c_Payload c, pc_State = commandStateToProto (c_State c),
      pc_ResultMessage = c_ResultMessage c, pc_CreatedAt = timestampNew (c_CreatedAt c),
      pc_CompletedAt = map_option timestampNew (c_CompletedAt c)\<rparr>"

section \<open>The calls\<close>

datatype grpc_code = InvalidArgument | NotFound | Internal

type_synonym 'a grpc_result = "(grpc_code \<times> message) + 'a"

definition statusError :: "grpc_code \<Rightarrow> string \<Rightarrow> 'a grpc_result" where
  "statusError code msg = Inl (code, Str msg)"

record grpc_store =
  gs_GetDevice :: "string \<Rightarrow> world \<Rightarrow> Device res \<times> world"
  gs_ListDevices :: "world \<Rightarrow> Device list res \<times> world"
  gs_ListRecentEvents :: "int \<Rightarrow> world \<Rightarrow> HazardEvent list res \<times> world"

definition storage_grpc_store :: grpc_store where
  "storage_grpc_store = \<lparr>gs_GetDevice = GetDevice, gs_ListDevices = ListDevices,
     gs_ListRecentEvents = ListRecentEvents\<rparr>"

record grpc_server =
  gv_store :: grpc_store
  gv_commands :: command_service

definition rpcGetDevice :: "grpc_server \<Rightarrow> string \<Rightarrow> world \<Rightarrow> pb_Device grpc_result \<times> world" where
  "rpcGetDevice s uid w =
     (if uid = [] then (statusError InvalidArgument ''id is required'', w)
      else case gs_GetDevice (gv_store s) uid w of
             (Inl e, w1) \<Rightarrow>
               (if errIs e ErrNotFound then statusError NotFound ''device not found''
                else statusError Internal ''storage error'', w1)
           | (Inr d, w1) \<Rightarrow> (Inr (deviceToProto d), w1))"

definition rpcListDevices :: "grpc_server \<Rightarrow> world \<Rightarrow> pb_Device list grpc_result \<times> world" where
  "rpcListDevices s w =
     (case gs_ListDevices (gv_store s) w of
        (Inl e, w1) \<Rightarrow> (statusError Internal ''storage error'', w1)
      | (Inr ds, w1) \<Rightarrow> (Inr (map deviceToProto ds), w1))"

definition rpcListRecentEvents ::
  "grpc_server \<Rightarrow> int \<Rightarrow> world \<Rightarrow> pb_HazardEvent list grpc_result \<times> world" where
  "rpcListRecentEvents s limit w =
     (case gs_ListRecentEvents (gv_store s) limit w of
        (Inl e, w1) \<Rightarrow> (statusError Internal ''storage error'', w1)
      | (Inr es, w1) \<Rightarrow> (Inr (map eventToProto es), w1))"

record sendCommandRequest =
  sr_DeviceId :: string
  sr_Type :: pb_enum
  sr_PayloadJson :: string
  sr_IdempotencyKey :: string

definition rpcSendCommand ::
  "grpc_server \<Rightarrow> sendCommandRequest \<Rightarrow> world \<Rightarrow> pb_Command grpc_result \<times> world" where
  "rpcSendCommand s req w =
     (case Create (gv_commands s) (sr_DeviceId req) (commandTypeFromProto (sr_Type req))
             (sr_PayloadJson req) (sr_IdempotencyKey req) w of
        (Inl e, w1) \<Rightarrow>
          (if errIs e ErrValidation then Inl (InvalidArgument, ErrText e)
           else statusError Internal ''command creation failed'', w1)
      | (Inr c, w1) \<Rightarrow> (Inr (commandToProto c), w1))"

definition rpcGetCommand :: "grpc_server \<Rightarrow> string \<Rightarrow> world \<Rightarrow> pb_Command grpc_result \<times> world" where
  "rpcGetCommand s uid w =
     (case getCommand (gv_commands s) uid w of
        (Inl e, w1) \<Rightarrow>
          (if errIs e ErrNotFound then statusError NotFound ''command not found''
           else statusError Internal ''storage error'', w1)
      | (Inr c, w1) \<Rightarrow> (Inr (commandToProto c), w1))"

section \<open>The event stream\<close>

text \<open>
  \<^verbatim>\<open>StreamEvents\<close> waits in a \<^verbatim>\<open>select\<close> for the end of its context or the next event of
  its channel. A script lists what happens: the context ends, the channel is chosen (with what
  \<^verbatim>\<open>stream.Send\<close> returns), or another goroutine uses the hub. A receive from an empty open
  channel keeps waiting.
\<close>

datatype stream_turn =
    CtxDone sentinel
  | Recv "error option"
  | OtherPublish HazardEvent
  | OtherSubscribe
  | OtherCancel nat
  | OtherReceive nat

type_synonym stream_result = "error option"

fun streamLoop ::
  "nat \<Rightarrow> stream_turn list \<Rightarrow> pb_HazardEvent list \<Rightarrow> hub \<Rightarrow> stream_result option \<times> pb_HazardEvent list \<times> hub" where
  "streamLoop i [] sent h = (None, sent, h)"
| "streamLoop i (CtxDone s # ts) sent h = (Some (Some (Sentinel s)), sent, h)"
| "streamLoop i (Recv sendErr # ts) sent h =
     (case hubReceive i h of
        (ChanClosed, h1) \<Rightarrow> (Some None, sent, h1)
      | (WouldBlock, h1) \<Rightarrow> streamLoop i ts sent h1
      | (Received e, h1) \<Rightarrow>
          (case sendErr of
             Some err \<Rightarrow> (Some (Some err), sent, h1)
           | None \<Rightarrow> streamLoop i ts (sent @ [eventToProto e]) h1))"
| "streamLoop i (OtherPublish e # ts) sent h = streamLoop i ts sent (hubPublish e h)"
| "streamLoop i (OtherSubscribe # ts) sent h = streamLoop i ts sent (snd (hubSubscribe h))"
| "streamLoop i (OtherCancel j # ts) sent h = streamLoop i ts sent (hubCancel j h)"
| "streamLoop i (OtherReceive j # ts) sent h = streamLoop i ts sent (snd (hubReceive j h))"

text \<open>The deferred cancel runs when the loop returns; None is a stream still running.\<close>

definition StreamEvents ::
  "stream_turn list \<Rightarrow> hub \<Rightarrow> stream_result option \<times> pb_HazardEvent list \<times> hub" where
  "StreamEvents script h =
     (let (i, h1) = hubSubscribe h
      in case streamLoop i script [] h1 of
           (None, sent, h2) \<Rightarrow> (None, sent, h2)
         | (Some r, sent, h2) \<Rightarrow> (Some r, sent, hubCancel i h2))"

text \<open>Other goroutines keep to their own subscriptions.\<close>

fun own_turn :: "nat \<Rightarrow> stream_turn \<Rightarrow> bool" where
  "own_turn i (OtherCancel j) = (j \<noteq> i)"
| "own_turn i (OtherReceive j) = (j \<noteq> i)"
| "own_turn i t = True"

definition published :: "stream_turn list \<Rightarrow> HazardEvent list" where
  "published ts = concat (map (\<lambda>t. case t of OtherPublish e \<Rightarrow> [e] | _ \<Rightarrow> []) ts)"

lemma hub_inv_sub: "hub_inv h \<Longrightarrow> i \<in> set (h_subs h) \<Longrightarrow> i < length (h_chans h) \<and> \<not> ch_closed (h_chans h ! i)"
  by (auto simp: hub_inv_def)

lemma hubCancel_other:
  "j \<noteq> i \<Longrightarrow> h_chans (hubCancel j h) ! i = h_chans h ! i \<and> (i \<in> set (h_subs (hubCancel j h)) \<longleftrightarrow> i \<in> set (h_subs h))"
  by (auto simp: hubCancel_def closeChan_def)

lemma hubReceive_other:
  "j \<noteq> i \<Longrightarrow> h_chans (snd (hubReceive j h)) ! i = h_chans h ! i"
  "h_subs (snd (hubReceive j h)) = h_subs h"
  by (auto simp: hubReceive_def split: list.split)

lemma hubReceive_keeps_inv: "hub_inv h \<Longrightarrow> hub_inv (snd (hubReceive j h))"
proof (cases "j < length (h_chans h)")
  case False
  then have "snd (hubReceive j h) = h"
    by (auto simp: hubReceive_def list_update_beyond split: list.split)
  then show "hub_inv h \<Longrightarrow> ?thesis" by simp
qed (rule hubReceive_inv)

lemma hubPublish_subs [simp]: "h_subs (hubPublish e h) = h_subs h"
proof -
  have "h_subs (fold (trySend e) is h) = h_subs h" for "is" by (induction "is" arbitrary: h) simp_all
  then show ?thesis by (simp add: hubPublish_def)
qed

text \<open>While the loop runs: what was sent and what waits in the channel is part of what was published.\<close>

definition stream_inv :: "nat \<Rightarrow> pb_HazardEvent list \<Rightarrow> pb_HazardEvent list \<Rightarrow> hub \<Rightarrow> bool" where
  "stream_inv i past sent h \<longleftrightarrow> hub_inv h \<and> i \<in> set (h_subs h) \<and>
     subseq (sent @ map eventToProto (ch_buf (h_chans h ! i))) past"

lemma stream_inv_turns:
  assumes "stream_inv i past sent h"
  shows "stream_inv i (past @ [eventToProto e]) sent (hubPublish e h)"
    "stream_inv i past sent (snd (hubSubscribe h))"
    "j \<noteq> i \<Longrightarrow> stream_inv i past sent (hubCancel j h)"
    "j \<noteq> i \<Longrightarrow> stream_inv i past sent (snd (hubReceive j h))"
proof -
  have h: "hub_inv h" "i \<in> set (h_subs h)" "i < length (h_chans h)"
      "subseq (sent @ map eventToProto (ch_buf (h_chans h ! i))) past"
    using assms hub_inv_sub by (auto simp: stream_inv_def)
  show "stream_inv i (past @ [eventToProto e]) sent (hubPublish e h)"
    using h hubPublish_chan [OF h(1,3), of e] subseq_snoc [OF h(4), where x = "eventToProto e"]
    by (auto simp: stream_inv_def hubPublish_inv intro: subseq_order.order_trans)
  show "stream_inv i past sent (snd (hubSubscribe h))"
    using h hubSubscribe_inv [OF h(1)] by (simp add: stream_inv_def hubSubscribe_def nth_append)
  show "stream_inv i past sent (hubCancel j h)" if "j \<noteq> i"
    using h hubCancel_inv [OF h(1)] hubCancel_other [OF that] by (simp add: stream_inv_def)
  show "stream_inv i past sent (snd (hubReceive j h))" if "j \<noteq> i"
    using h hubReceive_keeps_inv [OF h(1)] hubReceive_other(1) [OF that] hubReceive_other(2) by (simp add: stream_inv_def)
qed

lemma stream_inv_receive:
  assumes "stream_inv i past sent h" "hubReceive i h = (r, h')"
  shows "r \<noteq> ChanClosed" "r = WouldBlock \<Longrightarrow> h' = h"
    "r = Received e \<Longrightarrow> stream_inv i past (sent @ [eventToProto e]) h'"
proof -
  have h: "hub_inv h" "i \<in> set (h_subs h)" "i < length (h_chans h)" "\<not> ch_closed (h_chans h ! i)"
      "subseq (sent @ map eventToProto (ch_buf (h_chans h ! i))) past"
    using assms(1) hub_inv_sub by (auto simp: stream_inv_def)
  show "r \<noteq> ChanClosed" "r = WouldBlock \<Longrightarrow> h' = h"
    using assms(2) h(4) by (auto simp: hubReceive_def split: list.splits)
  show "stream_inv i past (sent @ [eventToProto e]) h'" if "r = Received e"
  proof -
    from assms(2) that obtain es where es: "ch_buf (h_chans h ! i) = e # es"
      "h' = h\<lparr>h_chans := (h_chans h)[i := (h_chans h ! i)\<lparr>ch_buf := es\<rparr>]\<rparr>"
      by (auto simp: hubReceive_def split: list.splits if_splits)
    have "hub_inv h'" using hubReceive_inv [OF h(1,3)] assms(2) by simp
    then show ?thesis using h es by (simp add: stream_inv_def)
  qed
qed

lemma subseq_left: "subseq (xs @ ys) zs \<Longrightarrow> subseq xs zs"
  by (metis append_Nil2 list_emb_Nil list_emb_append_mono subseq_order.order_refl subseq_order.order_trans)

lemma subseq_appendR: "subseq xs ys \<Longrightarrow> subseq xs (ys @ zs)"
  by (metis append_Nil2 list_emb_append_mono list_emb_Nil)

lemma streamLoop_inv:
  "stream_inv i past sent h \<Longrightarrow> list_all (own_turn i) ts \<Longrightarrow> streamLoop i ts sent h = (res, sent', h') \<Longrightarrow>
   hub_inv h' \<and> i \<in> set (h_subs h') \<and> subseq sent' (past @ map eventToProto (published ts))"
proof (induction i ts sent h arbitrary: past rule: streamLoop.induct)
  case (1 i sent h)
  then show ?case
    by (auto simp: stream_inv_def published_def dest: subseq_left)
next
  case (2 i s ts sent h)
  then show ?case
    by (auto simp: stream_inv_def published_def dest: subseq_left intro: subseq_appendR)
next
  case (3 i sendErr ts sent h)
  obtain r h1 where r: "hubReceive i h = (r, h1)" by fastforce
  note recv = stream_inv_receive [OF "3.prems"(1) r]
  show ?case
  proof (cases r)
    case (Received e)
    show ?thesis
    proof (cases sendErr)
      case None
      with 3 r Received recv(3) show ?thesis by (simp add: published_def)
    next
      case (Some err)
      with 3 r Received recv(3) [OF Received] show ?thesis
        by (auto simp: stream_inv_def published_def
            intro: subseq_appendR dest: subseq_left)
    qed
  next
    case ChanClosed
    with recv(1) show ?thesis by simp
  next
    case WouldBlock
    with 3 r recv(2) show ?thesis by (simp add: published_def)
  qed
next
  case (4 i e ts sent h)
  from "4.IH" [OF stream_inv_turns(1) [OF "4.prems"(1)]] "4.prems" show ?case
    by (simp add: published_def)
qed (auto simp: published_def dest: stream_inv_turns)

text \<open>C23: a stream neither leaks nor lies. Whatever the other goroutines publish, subscribe, cancel and
  read meanwhile, what a client of StreamEvents was sent is, in order, part of what was published while it
  was subscribed; and once the call has returned, for whatever reason, its subscription is gone and its
  channel is closed, with the hub intact.\<close>

theorem StreamEvents_correct:
  assumes "hub_inv h" "list_all (own_turn (fst (hubSubscribe h))) script"
    "StreamEvents script h = (res, sent, h')"
  shows "hub_inv h' \<and> subseq sent (map eventToProto (published script)) \<and>
    (if res = None then fst (hubSubscribe h) \<in> set (h_subs h')
     else fst (hubSubscribe h) \<notin> set (h_subs h') \<and> ch_closed (h_chans h' ! fst (hubSubscribe h)))"
proof -
  obtain i h1 where s: "hubSubscribe h = (i, h1)" by fastforce
  obtain res1 sent1 h2 where l: "streamLoop i script [] h1 = (res1, sent1, h2)" by (metis prod.collapse)
  have "stream_inv i [] [] h1"
    using s hubSubscribe_inv [OF assms(1)] by (auto simp: stream_inv_def hubSubscribe_def)
  from streamLoop_inv [OF this _ l] assms(2) s
  have inv: "hub_inv h2" "i \<in> set (h_subs h2)" "subseq sent1 (map eventToProto (published script))"
    by simp_all
  have closed: "i \<notin> set (h_subs (hubCancel i h2))" "ch_closed (h_chans (hubCancel i h2) ! i)"
    using inv hub_inv_sub [OF inv(1,2)] by (simp_all add: hubCancel_def closeChan_def)
  show ?thesis
    using assms(3) inv closed hubCancel_inv [OF inv(1), of i]
    by (auto simp: StreamEvents_def s l split: option.splits)
qed

lemma StreamEvents_correct_witness:
  "case StreamEvents [OtherPublish (demo_event ''k''), Recv None, CtxDone Canceled] empty_hub of
     (res, sent, h') \<Rightarrow> subseq sent [eventToProto (demo_event ''k'')] \<and> ch_closed (h_chans h' ! 0)"
  using StreamEvents_correct [OF hub_inv_empty, of
      "[OtherPublish (demo_event ''k''), Recv None, CtxDone Canceled]"]
  by (auto simp: StreamEvents_def hubSubscribe_def empty_hub_def hubPublish_def trySend_def
      subscriberBuffer_def hubReceive_def published_def)

section \<open>Codes and translations\<close>

definition hazard_names :: "HazardType list" where
  "hazard_names = [HazardFire, HazardSmoke, HazardFall, HazardIntrusion, HazardCameraTampering]"

definition command_names :: "CommandType list" where
  "command_names = [CommandGetStatus, CommandStartMonitoring, CommandStopMonitoring, CommandUpdateConfig]"

text \<open>Nothing is lost in translation. Every valid hazard type, command type and command state has
  its own number in the platform interface, command types come back from their number, and a number the
  interface does not name becomes a type that validation refuses. A timestamp determines the instant.\<close>

theorem translations_faithful:
  "list_all (\<lambda>t. hazardTypeToProto t \<noteq> HAZARD_TYPE_UNSPECIFIED) hazard_names \<and>
   distinct (map hazardTypeToProto hazard_names) \<and>
   list_all (\<lambda>t. commandTypeFromProto (commandTypeToProto t) = t) command_names \<and>
   distinct (map commandStateToProto [CommandPending, CommandDelivered, CommandAcknowledged, CommandFailed]) \<and>
   ValidCommandType (commandTypeFromProto n) = (n \<in> {1, 2, 3, 4}) \<and>
   ts_Seconds (timestampNew t) * 1000000000 + ts_Nanos (timestampNew t) = t \<and>
   0 \<le> ts_Nanos (timestampNew t) \<and> ts_Nanos (timestampNew t) < 1000000000"
  by (simp add: hazardTypeToProto_def commandTypeFromProto_def commandTypeToProto_def
      commandStateToProto_def ValidCommandType_def hazard_names_def command_names_def pb_enums
      hazard_consts command_type_consts timestampNew_def)

lemma validCommandTypeFromProto: "ValidCommandType (commandTypeFromProto n) = (n \<in> {1, 2, 3, 4})"
  by (simp add: commandTypeFromProto_def ValidCommandType_def pb_enums command_type_consts)

text \<open>The status code of SendCommand. A call whose type is not named by the interface, or whose
  payload is not JSON, is answered InvalidArgument and touches nothing; whenever InvalidArgument is
  answered the database is as it was.\<close>

theorem SendCommand_codes:
  "case rpcSendCommand \<lparr>gv_store = storage_grpc_store, gv_commands = service ttl senders\<rparr> req w of (r, w') \<Rightarrow>
     (if sr_Type req \<in> {1, 2, 3, 4} \<and> (sr_PayloadJson req = [] \<or> json_Valid (sr_PayloadJson req)) then True
      else w' = w \<and> (\<exists>m. r = Inl (InvalidArgument, m))) \<and>
     (if \<exists>m. r = Inl (InvalidArgument, m) then w_db w' = w_db w else True)"
proof (cases "Create (service ttl senders) (sr_DeviceId req) (commandTypeFromProto (sr_Type req))
    (sr_PayloadJson req) (sr_IdempotencyKey req) w")
  case (Pair r w')
  show ?thesis
    using Create_clean [where ttl = ttl and senders = senders and dev = "sr_DeviceId req" and
        ty = "commandTypeFromProto (sr_Type req)" and payload = "sr_PayloadJson req" and
        key = "sr_IdempotencyKey req" and w = w] Pair
    by (cases r) (auto simp: rpcSendCommand_def statusError_def validCommandTypeFromProto split: if_splits)
qed

end
