(* ===== verification/Calendar.thy ===== *)
theory Calendar
  imports GoTime JsonDecode "HOL-Library.Monad_Syntax"
begin

text \<open>
  Civil time as the package \<^verbatim>\<open>time\<close> reads and writes it in the layout \<^verbatim>\<open>time.RFC3339\<close>: the
  proleptic Gregorian calendar in UTC, \<^verbatim>\<open>Format\<close> with whole seconds, and \<^verbatim>\<open>Parse\<close> with the
  liberties it takes (an hour of one digit, a fraction after point or comma, offsets up to 24:60).
\<close>

section \<open>Decimal numbers\<close>

definition digitChar :: "nat \<Rightarrow> char" where
  "digitChar n = char_of (48 + n mod 10)"

fun natDigits :: "nat \<Rightarrow> string" where
  "natDigits n = (if n < 10 then [digitChar n] else natDigits (n div 10) @ [digitChar n])"

declare natDigits.simps [simp del]

definition itoa :: "int \<Rightarrow> string" where
  "itoa n = (if n < 0 then CHR ''-'' # natDigits (nat (- n)) else natDigits (nat n))"

definition twoDigits :: "int \<Rightarrow> string" where
  "twoDigits n = [digitChar (nat n div 10), digitChar (nat n)]"

lemma digitChar_simps [simp]: "isDigit (digitChar n)" "digitVal (digitChar n) = n mod 10"
  by (auto simp: digitChar_def isDigit_def digitVal_def byte_def)

lemma natOf_append1: "natOf (s @ [c]) = natOf s * 10 + digitVal c"
  by (simp add: natOf_def)

lemma natDigits_shape: "list_all isDigit (natDigits n)" "natDigits n \<noteq> []"
proof (induction n rule: natDigits.induct)
  case (1 n)
  {
    case 1
    then show ?case using "1.IH"(1) by (subst natDigits.simps) simp
  next
    case 2
    then show ?case by (subst natDigits.simps) simp
  }
qed

lemma natOf_natDigits [simp]: "natOf (natDigits n) = n"
proof (induction n rule: natDigits.induct)
  case (1 n)
  show ?case
  proof (cases "n < 10")
    case True
    then show ?thesis by (subst natDigits.simps) (simp add: natOf_def)
  next
    case False
    then show ?thesis using 1 by (subst natDigits.simps) (simp add: natOf_append1)
  qed
qed

section \<open>The calendar\<close>

definition leapYear :: "int \<Rightarrow> bool" where
  "leapYear y \<longleftrightarrow> y mod 4 = 0 \<and> (y mod 100 \<noteq> 0 \<or> y mod 400 = 0)"

definition yearLen :: "int \<Rightarrow> int" where
  "yearLen y = (if leapYear y then 366 else 365)"

definition monthLens :: "int \<Rightarrow> int list" where
  "monthLens y = [31, if leapYear y then 29 else 28, 31, 30, 31, 30, 31, 31, 30, 31, 30, 31]"

text \<open>Days from 1 January of year 0 to 1 January of year \<open>y\<close>; the epoch is day 719528.\<close>

definition daysBefore :: "int \<Rightarrow> int" where
  "daysBefore y = 365 * y + (y + 3) div 4 - (y + 99) div 100 + (y + 399) div 400"

definition epochDay :: int where "epochDay = 719528"

definition daysOf :: "int \<Rightarrow> int \<Rightarrow> int \<Rightarrow> int" where
  "daysOf y m d = daysBefore y + sum_list (take (nat (m - 1)) (monthLens y)) + d - 1 - epochDay"

text \<open>The other way: the year of a day, from the start of its 400-year cycle, and its month.\<close>

lemma yearLen_pos [simp]: "0 < yearLen y"
  by (simp add: yearLen_def)

function splitYear :: "int \<Rightarrow> int \<Rightarrow> int \<times> int" where
  "splitYear y d = (if d < yearLen y then (y, d) else splitYear (y + 1) (d - yearLen y))"
  by auto
termination
  by (relation "measure (\<lambda>(y, d). nat (d + 1))") (auto simp: yearLen_def split: if_splits)

declare splitYear.simps [simp del]

fun splitMonth :: "int \<Rightarrow> int list \<Rightarrow> int \<Rightarrow> int \<times> int" where
  "splitMonth m [] d = (m, d)"
| "splitMonth m (l # ls) d = (if d < l then (m, d) else splitMonth (m + 1) ls (d - l))"

definition civil :: "int \<Rightarrow> int \<times> int \<times> int" where
  "civil day =
     (let n = day + epochDay;
          (y0, r) = splitYear 0 (n mod 146097);
          y = 400 * (n div 146097) + y0;
          (m, d) = splitMonth 1 (monthLens y) r
      in (y, m, d + 1))"

lemma div_step:
  assumes "0 < (k::int)"
  shows "(y + k) div k = (y + (k - 1)) div k + (if y mod k = 0 then 1 else 0)"
proof -
  define q r where "q = y div k" and "r = y mod k"
  have y: "y = r + k * q" and r: "0 \<le> r" "r < k" using assms by (simp_all add: q_def r_def)
  have one: "(y + k) div k = q + 1"
    using r by (simp add: y div_add1_eq)
  have "(y + (k - 1)) div k = q + (r + (k - 1)) div k"
    using div_mult_self2 [of k "r + (k - 1)" q] assms by (simp add: y algebra_simps)
  moreover have "(r + (k - 1)) div k = (if r = 0 then 0 else 1)"
  proof (cases "r = 0")
    case False
    have "(r - 1 + k) div k = 1" using r False by (simp add: div_add_self2)
    moreover have "r + (k - 1) = r - 1 + k" by simp
    ultimately show ?thesis using False by metis
  qed (use assms in simp)
  ultimately show ?thesis using one by (simp add: r_def)
qed

lemma dvd_mods:
  "(y::int) mod 100 = 0 \<Longrightarrow> y mod 4 = 0" "y mod 400 = 0 \<Longrightarrow> y mod 100 = 0"
  using dvd_trans [of 4 100 y] dvd_trans [of 100 400 y] by (auto simp: mod_eq_0_iff_dvd)

lemma daysBefore_Suc: "daysBefore (y + 1) = daysBefore y + yearLen y"
proof -
  have eqs: "y + 1 + 3 = y + 4" "y + 1 + 99 = y + 100" "y + 1 + 399 = y + 400"
    "y + (4 - 1) = y + 3" "y + (100 - 1) = y + 99" "y + (400 - 1) = y + 399" by simp_all
  note steps = div_step [OF zero_less_numeral, of y "num.Bit0 (num.Bit0 num.One)", unfolded eqs]
    div_step [of 100 y, OF zero_less_numeral, unfolded eqs] div_step [of 400 y, OF zero_less_numeral, unfolded eqs]
  define a where "a = (y + 3) div 4"
  define b where "b = (y + 99) div 100"
  define c where "c = (y + 399) div 400"
  define p4 p100 p400 where "p4 \<longleftrightarrow> y mod 4 = 0" and "p100 \<longleftrightarrow> y mod 100 = 0" and
    "p400 \<longleftrightarrow> y mod 400 = 0"
  have after: "daysBefore (y + 1) = 365 * (y + 1) + (a + (if p4 then 1 else 0)) -
      (b + (if p100 then 1 else 0)) + (c + (if p400 then 1 else 0))"
    unfolding daysBefore_def eqs(1-3) steps a_def b_def c_def p4_def p100_def p400_def ..
  have this_year: "daysBefore y = 365 * y + a - b + c"
    by (simp only: daysBefore_def a_def b_def c_def)
  have len: "yearLen y = (if p4 \<and> (\<not> p100 \<or> p400) then 366 else 365)"
    by (simp only: yearLen_def leapYear_def p4_def p100_def p400_def)
  have mods: "p100 \<longrightarrow> p4" "p400 \<longrightarrow> p100"
    unfolding p4_def p100_def p400_def by (rule impI, erule dvd_mods)+
  show ?thesis
    unfolding after this_year len using mods by (cases p4; cases p100; cases p400) simp_all
qed

lemma daysBefore_cycle: "daysBefore (400 * k + y) = 146097 * k + daysBefore y"
proof -
  have "(y + 3 + 4 * (100 * k)) div 4 = 100 * k + (y + 3) div 4"
    "(y + 99 + 100 * (4 * k)) div 100 = 4 * k + (y + 99) div 100"
    "(y + 399 + 400 * k) div 400 = k + (y + 399) div 400"
    by (rule div_mult_self2, simp)+
  moreover have "400 * k + y + 3 = y + 3 + 4 * (100 * k)" "400 * k + y + 99 = y + 99 + 100 * (4 * k)"
    "400 * k + y + 399 = y + 399 + 400 * k" by simp_all
  ultimately have "daysBefore (400 * k + y) = 365 * (400 * k + y) + (100 * k + (y + 3) div 4) -
      (4 * k + (y + 99) div 100) + (k + (y + 399) div 400)"
    by (simp only: daysBefore_def)
  also have "\<dots> = 146097 * k + (365 * y + (y + 3) div 4 - (y + 99) div 100 + (y + 399) div 400)"
    by algebra
  finally show ?thesis by (simp only: daysBefore_def)
qed

lemma leapYear_cycle: "leapYear (400 * k + y) = leapYear y"
  using mod_mult_self2 [of y 4 "100 * k"] mod_mult_self2 [of y 100 "4 * k"] mod_mult_self2 [of y 400 k]
  by (simp add: leapYear_def add.commute)

lemma splitYear_inv:
  "0 \<le> d \<Longrightarrow> splitYear y d = (y', d') \<Longrightarrow>
   daysBefore y' + d' = daysBefore y + d \<and> 0 \<le> d' \<and> d' < yearLen y' \<and> y \<le> y'"
proof (induction y d rule: splitYear.induct)
  case (1 y d)
  show ?case
  proof (cases "d < yearLen y")
    case True
    with "1.prems" show ?thesis by (simp add: splitYear.simps [of y d])
  next
    case False
    with 1 show ?thesis by (auto simp: splitYear.simps [of y d] daysBefore_Suc)
  qed
qed

lemma splitMonth_inv:
  "0 \<le> d \<Longrightarrow> d < sum_list ls \<Longrightarrow> splitMonth m ls d = (m', d') \<Longrightarrow>
   m \<le> m' \<and> m' < m + int (length ls) \<and> 0 \<le> d' \<and> d' < ls ! nat (m' - m) \<and>
   sum_list (take (nat (m' - m)) ls) + d' = d"
proof (induction m ls d rule: splitMonth.induct)
  case (2 m l ls d)
  show ?case
  proof (cases "d < l")
    case True
    with 2 show ?thesis by auto
  next
    case False
    with 2 have ih: "m + 1 \<le> m'" "m' < m + 1 + int (length ls)" "0 \<le> d'" "d' < ls ! nat (m' - (m + 1))"
        "sum_list (take (nat (m' - (m + 1))) ls) + d' = d - l" by auto
    then have "nat (m' - m) = Suc (nat (m' - (m + 1)))" by simp
    with ih show ?thesis by simp
  qed
qed simp

lemma sum_monthLens: "sum_list (monthLens y) = yearLen y"
  by (simp add: monthLens_def yearLen_def)

text \<open>Reading a day and writing it back: the calendar loses nothing.\<close>

lemma civil_daysOf:
  assumes "civil day = (y, m, d)"
  shows "daysOf y m d = day \<and> 1 \<le> m \<and> m \<le> 12 \<and> 1 \<le> d \<and> d \<le> monthLens y ! nat (m - 1)"
proof -
  define n where "n = day + epochDay"
  obtain y0 r where s: "splitYear 0 (n mod 146097) = (y0, r)" by fastforce
  have y: "y = 400 * (n div 146097) + y0"
    using assms s by (auto simp: civil_def Let_def n_def split: prod.splits)
  from splitYear_inv [OF _ s] have r: "daysBefore y0 + r = n mod 146097" "0 \<le> r" "r < yearLen y0"
    by (simp_all add: daysBefore_def)
  have len: "yearLen y = yearLen y0" by (simp add: y yearLen_def leapYear_cycle)
  obtain m' d' where mm: "splitMonth 1 (monthLens y) r = (m', d')" by fastforce
  have md: "m = m'" "d = d' + 1"
    using assms s mm y by (auto simp: civil_def Let_def n_def)
  from splitMonth_inv [OF r(2) _ mm] r(3) len
  have "1 \<le> m'" "m' < 13" "0 \<le> d'" "d' < monthLens y ! nat (m' - 1)"
      "sum_list (take (nat (m' - 1)) (monthLens y)) + d' = r"
    by (auto simp: sum_monthLens) (simp add: monthLens_def)
  moreover have "daysBefore y + r = n"
    unfolding y daysBefore_cycle using r(1) mult_div_mod_eq [of 146097 n] by linarith
  ultimately show ?thesis by (simp add: daysOf_def md n_def)
qed

section \<open>Layout RFC3339\<close>

definition formatYear :: "int \<Rightarrow> string" where
  "formatYear y =
     (if y < 0 then CHR ''-'' # twoDigits (- y div 100) @ twoDigits (- y)
      else if y < 10000 then twoDigits (y div 100) @ twoDigits y
      else natDigits (nat y))"

definition formatRFC3339 :: "Time \<Rightarrow> string" where
  "formatRFC3339 t =
     (let secs = t div 1000000000;
          (y, m, d) = civil (secs div 86400);
          sod = secs mod 86400
      in formatYear y @ ''-'' @ twoDigits m @ ''-'' @ twoDigits d @ ''T'' @
         twoDigits (sod div 3600) @ '':'' @ twoDigits (sod div 60 mod 60) @ '':'' @
         twoDigits (sod mod 60) @ ''Z'')"

text \<open>\<^verbatim>\<open>getnum\<close>: two digits, or, unless \<^verbatim>\<open>fixed\<close>, a single one.\<close>

definition getnum :: "bool \<Rightarrow> string \<Rightarrow> (int \<times> string) option" where
  "getnum fixed s =
     (case s of
        [] \<Rightarrow> None
      | a # r \<Rightarrow>
          if \<not> isDigit a then None
          else (case r of
                  b # r' \<Rightarrow>
                    if isDigit b then Some (int (digitVal a) * 10 + int (digitVal b), r')
                    else if fixed then None else Some (int (digitVal a), r)
                | [] \<Rightarrow> if fixed then None else Some (int (digitVal a), r)))"

text \<open>A number in a range, and what follows it after a literal character.\<close>

definition getField :: "bool \<Rightarrow> int \<Rightarrow> int \<Rightarrow> string \<Rightarrow> (int \<times> string) option" where
  "getField fixed lo hi s =
     (case getnum fixed s of
        None \<Rightarrow> None
      | Some (n, r) \<Rightarrow> if lo \<le> n \<and> n \<le> hi then Some (n, r) else None)"

definition getChar :: "char \<Rightarrow> string \<Rightarrow> string option" where
  "getChar c s = (case s of d # r \<Rightarrow> if d = c then Some r else None | [] \<Rightarrow> None)"

definition getYear :: "string \<Rightarrow> (int \<times> string) option" where
  "getYear s =
     (if length s < 4 \<or> \<not> list_all isDigit (take 4 s) then None
      else Some (int (natOf (take 4 s)), drop 4 s))"

text \<open>A fraction of any length after point or comma; nine digits of it count.\<close>

definition getFraction :: "string \<Rightarrow> int \<times> string" where
  "getFraction s =
     (case s of
        c # d # r \<Rightarrow>
          if (c = CHR ''.'' \<or> c = CHR '','') \<and> isDigit d
          then (let ds = take 9 (takeWhile isDigit (d # r))
                in (int (natOf ds) * 10 ^ (9 - length ds), dropWhile isDigit (d # r)))
          else (0, s)
      | _ \<Rightarrow> (0, s))"

definition getZone :: "string \<Rightarrow> (int \<times> string) option" where
  "getZone s =
     (case s of
        [] \<Rightarrow> None
      | c # r \<Rightarrow>
          if c = CHR ''Z'' then Some (0, r)
          else if c \<noteq> CHR ''+'' \<and> c \<noteq> CHR ''-'' then None
          else case getField True 0 24 r of
                 None \<Rightarrow> None
               | Some (hh, r1) \<Rightarrow>
                   (case getChar (CHR '':'') r1 of
                      None \<Rightarrow> None
                    | Some r2 \<Rightarrow>
                        (case getField True 0 60 r2 of
                           None \<Rightarrow> None
                         | Some (mm, r3) \<Rightarrow>
                             (let off = (hh * 60 + mm) * 60
                              in Some (if c = CHR ''-'' then - off else off, r3)))))"

definition dateTime :: "int \<Rightarrow> int \<Rightarrow> int \<Rightarrow> int \<Rightarrow> int \<Rightarrow> int \<Rightarrow> int \<Rightarrow> int \<Rightarrow> Time" where
  "dateTime y m d h mi sec nsec offset =
     (daysOf y m d * 86400 + h * 3600 + mi * 60 + sec - offset) * 1000000000 + nsec"

fun parseDate :: "string \<Rightarrow> (int \<times> int \<times> int \<times> string) option" where
  "parseDate s =
     do { (y, r) \<leftarrow> getYear s; r \<leftarrow> getChar (CHR ''-'') r;
          (m, r) \<leftarrow> getField True 1 12 r; r \<leftarrow> getChar (CHR ''-'') r;
          (d, r) \<leftarrow> getField True 1 (monthLens y ! nat (m - 1)) r;
          Some (y, m, d, r) }"

fun parseClock :: "string \<Rightarrow> (int \<times> int \<times> int \<times> string) option" where
  "parseClock s =
     do { (h, r) \<leftarrow> getField False 0 23 s; r \<leftarrow> getChar (CHR '':'') r;
          (mi, r) \<leftarrow> getField True 0 59 r; r \<leftarrow> getChar (CHR '':'') r;
          (sec, r) \<leftarrow> getField True 0 59 r;
          Some (h, mi, sec, r) }"

definition parseRFC3339 :: "string \<Rightarrow> Time option" where
  "parseRFC3339 s =
     do { (y, m, d, r) \<leftarrow> parseDate s; r \<leftarrow> getChar (CHR ''T'') r;
          (h, mi, sec, r) \<leftarrow> parseClock r;
          let (nsec, r) = getFraction r;
          (off, r) \<leftarrow> getZone r;
          if r = [] then Some (dateTime y m d h mi sec nsec off) else None }"

declare parseDate.simps [simp del] parseClock.simps [simp del]

lemma getnum_two [simp]:
  "0 \<le> n \<Longrightarrow> n < 100 \<Longrightarrow> getnum fixed (twoDigits n @ r) = Some (n, r)"
proof -
  assume n: "0 \<le> n" "n < 100"
  then have "nat n div 10 mod 10 = nat n div 10" by simp
  moreover have "int (nat n div 10) * 10 + int (nat n mod 10) = n"
    using n(1) by (simp add: zdiv_int zmod_int)
  ultimately show ?thesis by (simp add: getnum_def twoDigits_def)
qed

lemma getField_two [simp]:
  "0 \<le> n \<Longrightarrow> n < 100 \<Longrightarrow> lo \<le> n \<Longrightarrow> n \<le> hi \<Longrightarrow> getField fixed lo hi (twoDigits n @ r) = Some (n, r)"
  by (simp add: getField_def)

lemma getChar_same [simp]: "getChar c (c # r) = Some r"
  by (simp add: getChar_def)

lemma getYear_format [simp]:
  assumes "0 \<le> y" "y < 10000"
  shows "getYear (formatYear y @ r) = Some (y, r)"
proof -
  define n where "n = nat y"
  have n: "n < 10000" "y = int n" using assms by (simp_all add: n_def)
  have split: "n div 1000 * 10 + n div 100 mod 10 = n div 100" "n div 100 * 10 + n div 10 mod 10 = n div 10"
    "n div 10 * 10 + n mod 10 = n"
    using div_mult_mod_eq [of "n div 100" 10] div_mult_mod_eq [of "n div 10" 10]
    by (simp_all flip: div_mult2_eq)
  have "n div 1000 mod 10 = n div 1000" using n(1) by simp
  then have "natOf [digitChar (n div 1000), digitChar (n div 100), digitChar (n div 10), digitChar n] = n"
    by (simp only: natOf_def foldl.simps digitChar_simps mult_0 add_0 split)
  moreover have "nat (y div 100) div 10 = n div 1000" "nat (y div 100) = n div 100" "nat y = n"
    by (simp_all add: n nat_div_distrib div_mult2_eq [symmetric])
  ultimately show ?thesis
    using assms by (simp add: getYear_def formatYear_def twoDigits_def n(2))
qed

lemma monthLens_bounds: "1 \<le> m \<Longrightarrow> m \<le> 12 \<Longrightarrow> monthLens y ! nat (m - 1) \<le> 31"
proof -
  assume m: "1 \<le> m" "m \<le> 12"
  then have "nat (m - 1) < 12" by simp
  moreover have "list_all (\<lambda>l. l \<le> 31) (monthLens y)" by (simp add: monthLens_def)
  moreover have "length (monthLens y) = 12" by (simp add: monthLens_def)
  ultimately show ?thesis by (simp add: list_all_length)
qed

lemma getFraction_Z: "getFraction ''Z'' = (0, ''Z'')"
  by (simp add: getFraction_def)

lemma getZone_Z: "getZone ''Z'' = Some (0, [])"
  by (simp add: getZone_def)

lemma parseRFC3339_tail:
  assumes "parseDate s = Some (y, m, d, CHR ''T'' # r)" "parseClock r = Some (h, mi, sec, ''Z'')"
  shows "parseRFC3339 s = Some (dateTime y m d h mi sec 0 0)"
  by (simp add: parseRFC3339_def assms getFraction_Z getZone_Z)

lemma parseDate_written:
  assumes "0 \<le> y" "y < 10000" "1 \<le> m" "m \<le> 12" "1 \<le> d" "d \<le> monthLens y ! nat (m - 1)"
  shows "parseDate (formatYear y @ CHR ''-'' # twoDigits m @ CHR ''-'' # twoDigits d @ r) = Some (y, m, d, r)"
  using assms monthLens_bounds [of m y] by (simp add: parseDate.simps del: append_assoc)

lemma parseClock_written:
  assumes "0 \<le> h" "h \<le> 23" "0 \<le> mi" "mi \<le> 59" "0 \<le> sec" "sec \<le> 59"
  shows "parseClock (twoDigits h @ CHR '':'' # twoDigits mi @ CHR '':'' # twoDigits sec @ r) =
    Some (h, mi, sec, r)"
  using assms by (simp add: parseClock.simps)

lemma clock_bounds:
  fixes secs :: int
  shows "0 \<le> secs mod 86400 div 3600" "secs mod 86400 div 3600 \<le> 23"
    "0 \<le> secs mod 86400 div 60 mod 60" "secs mod 86400 div 60 mod 60 \<le> 59"
    "0 \<le> secs mod 86400 mod 60" "secs mod 86400 mod 60 \<le> 59"
proof -
  have "secs mod 86400 \<le> 86399" using pos_mod_bound [of 86400 secs] by linarith
  then show "secs mod 86400 div 3600 \<le> 23" using zdiv_mono1 [of "secs mod 86400" 86399 3600] by simp
  show "secs mod 86400 div 60 mod 60 \<le> 59" "secs mod 86400 mod 60 \<le> 59"
    using pos_mod_bound [of 60 "secs mod 86400 div 60"] pos_mod_bound [of 60 "secs mod 86400"] by linarith+
qed (simp_all add: pos_imp_zdiv_nonneg_iff)

lemma dateTime_sum:
  "daysOf y m d = D \<Longrightarrow> D * 86400 + sod = secs \<Longrightarrow> h * 3600 + mi * 60 + sec = sod \<Longrightarrow>
   dateTime y m d h mi sec 0 0 = secs * 1000000000"
  by (auto simp: dateTime_def)

text \<open>What is written is read back, to the second.\<close>

lemma parse_format:
  assumes "civil (t div 1000000000 div 86400) = (y, m, d)" "0 \<le> y" "y < 10000"
  shows "parseRFC3339 (formatRFC3339 t) = Some (t div 1000000000 * 1000000000)"
proof -
  define secs where "secs = t div 1000000000"
  define sod where "sod = secs mod 86400"
  note c = civil_daysOf [OF assms(1)]
  have md: "0 \<le> m" "m < 100" "1 \<le> m" "m \<le> 12" "0 \<le> d" "d < 100" "1 \<le> d" "d \<le> monthLens y ! nat (m - 1)"
    using c monthLens_bounds [of m y] by auto
  have hms: "0 \<le> sod div 3600" "sod div 3600 \<le> 23" "0 \<le> sod div 60 mod 60" "sod div 60 mod 60 \<le> 59"
      "0 \<le> sod mod 60" "sod mod 60 \<le> 59"
    using clock_bounds [of secs] by (simp_all only: sod_def)
  have sum: "sod div 3600 * 3600 + sod div 60 mod 60 * 60 + sod mod 60 = sod"
  proof -
    have "sod div 60 div 60 = sod div 3600" by (simp flip: zdiv_zmult2_eq)
    then show ?thesis
      using div_mult_mod_eq [of "sod div 60" 60] div_mult_mod_eq [of sod 60] by linarith
  qed
  let ?clock = "twoDigits (sod div 3600) @ CHR '':'' # twoDigits (sod div 60 mod 60) @ CHR '':'' #
      twoDigits (sod mod 60) @ ''Z''"
  let ?text = "formatYear y @ CHR ''-'' # twoDigits m @ CHR ''-'' # twoDigits d @ CHR ''T'' # ?clock"
  have "formatRFC3339 t = ?text"
    unfolding formatRFC3339_def Let_def assms(1)
    by (simp only: prod.case append_Cons append_Nil append_assoc secs_def sod_def)
  moreover have "parseDate ?text = Some (y, m, d, CHR ''T'' # ?clock)"
    by (rule parseDate_written) (use md assms(2,3) in auto)
  moreover have "parseClock ?clock = Some (sod div 3600, sod div 60 mod 60, sod mod 60, ''Z'')"
    using hms by (rule parseClock_written)
  ultimately have "parseRFC3339 (formatRFC3339 t) =
      Some (dateTime y m d (sod div 3600) (sod div 60 mod 60) (sod mod 60) 0 0)"
    by (simp only: parseRFC3339_tail)
  moreover have "dateTime y m d (sod div 3600) (sod div 60 mod 60) (sod mod 60) 0 0 = secs * 1000000000"
    by (rule dateTime_sum [OF _ div_mult_mod_eq [of secs 86400, folded sod_def] sum], simp only: c secs_def)
  ultimately show ?thesis by (simp only: secs_def)
qed

end
