(* ===== verification/Poller.thy ===== *)
theory Poller
  imports EventPipeline
begin

text \<open>
  The polling loop (\<^verbatim>\<open>internal/provider/poller.go\<close>) over the capability interfaces of
  \<^verbatim>\<open>internal/provider/provider.go\<close>: a provider has a name and may be able to list devices and
  to fetch events. \<^verbatim>\<open>FetchEvents\<close> returns events and an error, both of which may be set.
\<close>

record provider =
  pv_Name :: ProviderName
  pv_FetchDevices :: "(world \<Rightarrow> Device list res \<times> world) option"
  pv_FetchEvents :: "(Time \<Rightarrow> world \<Rightarrow> (NormalizedEvent list \<times> error option) \<times> world) option"

record poller =
  pr_Provider :: provider
  pr_Devices :: "Device \<Rightarrow> world \<Rightarrow> string res \<times> world"
  pr_Events :: "NormalizedEvent \<Rightarrow> world \<Rightarrow> bool res \<times> world"
  pr_Interval :: Duration
  pr_Overlap :: Duration

definition errKind :: "error \<Rightarrow> string" where
  "errKind e = (if IsPermanent e then ''permanent'' else ''transient'')"

section \<open>One cycle\<close>

definition pollDevices :: "poller \<Rightarrow> world \<Rightarrow> world" where
  "pollDevices p w =
     (let name = pv_Name (pr_Provider p)
      in case pv_FetchDevices (pr_Provider p) of
           None \<Rightarrow> w
         | Some fetch \<Rightarrow>
             (case fetch (metricInc (ProviderRequests name ''fetch_devices'') w) of
                (Inl err, w1) \<Rightarrow> metricInc (ProviderRequestErrors name ''fetch_devices'' (errKind err)) w1
              | (Inr ds, w1) \<Rightarrow> fold (\<lambda>d w. snd (pr_Devices p d w)) ds w1))"

definition pollEvents :: "poller \<Rightarrow> Time \<Rightarrow> Time \<Rightarrow> world \<Rightarrow> Time \<times> world" where
  "pollEvents p cycleStart since w =
     (let name = pv_Name (pr_Provider p)
      in case pv_FetchEvents (pr_Provider p) of
           None \<Rightarrow> (cycleStart, w)
         | Some fetch \<Rightarrow>
             (case fetch (time_Add since (- pr_Overlap p))
                     (metricInc (ProviderRequests name ''fetch_events'') w) of
                ((evs, Some err), w1) \<Rightarrow>
                  (since, metricInc (ProviderRequestErrors name ''fetch_events'' (errKind err)) w1)
              | ((evs, None), w1) \<Rightarrow>
                  (cycleStart, fold (\<lambda>ne w. snd (pr_Events p ne w)) evs w1)))"

definition cycle :: "poller \<Rightarrow> Time \<Rightarrow> world \<Rightarrow> Time \<times> world" where
  "cycle p since w =
     (let (cycleStart, w1) = timeNow w in pollEvents p cycleStart since (pollDevices p w1))"

section \<open>The loop\<close>

text \<open>
  \<^verbatim>\<open>Run\<close> alternates cycles with waiting for a tick. The list has one entry per cycle: what the
  rest of the process does to the world until the next tick, or until the context is done.
\<close>

fun pollLoop :: "poller \<Rightarrow> Time \<Rightarrow> (world \<Rightarrow> world) list \<Rightarrow> world \<Rightarrow> Time \<times> world" where
  "pollLoop p since [] w = (since, w)"
| "pollLoop p since (wait # waits) w =
     (let (since', w1) = cycle p since w in pollLoop p since' waits (wait w1))"

definition withOverlap :: "poller \<Rightarrow> poller" where
  "withOverlap p = (if pr_Overlap p \<le> 0 then p\<lparr>pr_Overlap := Minute\<rparr> else p)"

text \<open>None is the panic of \<^verbatim>\<open>time.NewTicker\<close> for an interval that is not positive.\<close>

definition Run :: "poller \<Rightarrow> (world \<Rightarrow> world) list \<Rightarrow> world \<Rightarrow> (Time \<times> world) option" where
  "Run p waits w =
     (let p' = withOverlap p;
          (now, w1) = timeNow w
      in if pr_Interval p' \<le> 0 then None
         else Some (pollLoop p' (time_Add now (wrap64 (- pr_Interval p'))) waits w1))"

lemma Run_panics: "Run p waits w = None \<longleftrightarrow> pr_Interval p \<le> 0"
  by (simp add: Run_def withOverlap_def Let_def split: prod.split)

section \<open>What is offered to the pipeline\<close>

text \<open>
  What one cycle hands to the event sink: None when fetching failed, otherwise the events
  fetched. \<open>pollTrace\<close> lists, per cycle of the loop, when it started, the instant it asked from
  and what it handed on.
\<close>

definition offers :: "poller \<Rightarrow> Time \<Rightarrow> world \<Rightarrow> NormalizedEvent list option" where
  "offers p since w =
     (let (cycleStart, w1) = timeNow w; w2 = pollDevices p w1
      in case pv_FetchEvents (pr_Provider p) of
           None \<Rightarrow> Some []
         | Some fetch \<Rightarrow>
             (case fst (fetch (time_Add since (- pr_Overlap p))
                     (metricInc (ProviderRequests (pv_Name (pr_Provider p)) ''fetch_events'') w2)) of
                (evs, Some err) \<Rightarrow> None
              | (evs, None) \<Rightarrow> Some evs))"

fun pollTrace ::
  "poller \<Rightarrow> Time \<Rightarrow> (world \<Rightarrow> world) list \<Rightarrow> world \<Rightarrow> (Time \<times> Time \<times> NormalizedEvent list option) list" where
  "pollTrace p since [] w = []"
| "pollTrace p since (wait # waits) w =
     (fst (timeNow w), time_Add since (- pr_Overlap p), offers p since w) #
     pollTrace p (fst (cycle p since w)) waits (wait (snd (cycle p since w)))"

lemma cycle_watermark:
  "fst (cycle p since w) = (if offers p since w = None then since else fst (timeNow w))"
  by (auto simp: cycle_def pollEvents_def offers_def Let_def split: prod.splits option.splits)

text \<open>
  As long as an event has not been offered, the window of the next cycle still reaches back to
  its confirmation.
\<close>

lemma pollTrace_covers:
  assumes "sorted (map fst (pollTrace p since waits w))"
    "time_Add since (- pr_Overlap p) \<le> confirmed" "visible \<le> time_Add confirmed (pr_Overlap p)"
    "(start, asked, Some evs) \<in> set (pollTrace p since waits w)" "visible \<le> start"
  shows "\<exists>start' asked' evs'. (start', asked', Some evs') \<in> set (pollTrace p since waits w) \<and>
    visible \<le> start' \<and> asked' \<le> confirmed"
  using assms
proof (induction p since waits w rule: pollTrace.induct)
  case (2 p since wait waits w)
  let ?s = "fst (cycle p since w)" and ?w = "wait (snd (cycle p since w))"
  show ?case
  proof (cases "visible \<le> fst (timeNow w) \<and> offers p since w \<noteq> None")
    case True
    then obtain evs' where "offers p since w = Some evs'" by blast
    then have "(fst (timeNow w), time_Add since (- pr_Overlap p), Some evs') \<in>
        set (pollTrace p since (wait # waits) w)" by simp
    then show ?thesis using True "2.prems"(2) by blast
  next
    case False
    then have later: "(start, asked, Some evs) \<in> set (pollTrace p ?s waits ?w)"
      using "2.prems"(4,5) by auto
    have "time_Add ?s (- pr_Overlap p) \<le> confirmed"
      using False "2.prems"(2,3) by (auto simp: cycle_watermark time_Add_def split: if_splits)
    from "2.IH" [OF _ this "2.prems"(3) later "2.prems"(5)] "2.prems"(1) show ?thesis by auto
  qed
qed simp


definition demo_ne :: NormalizedEvent where
  "demo_ne = \<lparr>ne_ExternalDeviceID = ''x1'', ne_Event = (demo_event ''k'')\<lparr>e_Source := ProviderAlphaSense\<rparr>\<rparr>"

text \<open>A provider that is down when its clock source is read for the first time.\<close>

definition demo_poller :: poller where
  "demo_poller = \<lparr>pr_Provider = \<lparr>pv_Name = ProviderAlphaSense, pv_FetchDevices = None,
       pv_FetchEvents = Some (\<lambda>since w. if snd (w_clock w) \<le> 1
         then (([], Some (Errorf ''down'' [])), w) else (([demo_ne], None), w))\<rparr>,
     pr_Devices = UpsertDevice, pr_Events = AcceptFromProvider storage_event_store,
     pr_Interval = 10, pr_Overlap = 100\<rparr>"


text \<open>What a cycle costs when the sink fails: the watermark moves on all the same.\<close>

lemma cycle_ignores_sink:
  "fst (cycle (p\<lparr>pr_Events := sink\<rparr>) since w) = fst (cycle p since w)"
proof -
  have "pollDevices (p\<lparr>pr_Events := sink\<rparr>) v = pollDevices p v" for v
    by (simp add: pollDevices_def Let_def split: option.split prod.split sum.split)
  then show ?thesis
    by (auto simp: cycle_def pollEvents_def Let_def split: prod.splits option.splits)
qed

end
