(* ===== verification/JsonEncode.thy ===== *)
theory JsonEncode
  imports Hmac "HOL-Library.Char_ord" "HOL-Library.List_Lexorder"
begin

text \<open>
  What the program uses of \<^verbatim>\<open>json.Marshal\<close>: strings with their escapes, and maps, arrays and
  numbers as documents. The round trip at the end covers the documents the program writes itself:
  printable ASCII strings without quotes, escapes and HTML, and whole numbers.
\<close>

section \<open>Strings\<close>

text \<open>
  The encoder of \<^verbatim>\<open>encoding/json\<close>. Strings: quotes, controls, the three characters of HTML and the
  two line separators U+2028 and U+2029 are escaped, a byte that is not UTF-8 becomes U+FFFD.
\<close>

definition escape00 :: "char \<Rightarrow> string" where
  "escape00 c = bytesOf [92, 117, 48, 48] @ [hexDigitLower (byte c div 16), hexDigitLower (byte c mod 16)]"

definition isHtml :: "char \<Rightarrow> bool" where "isHtml c \<longleftrightarrow> byte c \<in> {60, 62, 38}"

definition quoteByte :: "char \<Rightarrow> string" where
  "quoteByte c =
     (let b = byte c
      in if b = 34 \<or> b = 92 then char_of (92::nat) # [c]
         else if b = 8 then bytesOf [92, 98]
         else if b = 12 then bytesOf [92, 102]
         else if b = 10 then bytesOf [92, 110]
         else if b = 13 then bytesOf [92, 114]
         else if b = 9 then bytesOf [92, 116]
         else if b < 32 \<or> isHtml c then escape00 c
         else [c])"

definition lineSeparator :: "string \<Rightarrow> bool" where
  "lineSeparator s \<longleftrightarrow> map byte (take 3 s) \<in> {[226, 128, 168], [226, 128, 169]}"

text \<open>\<^verbatim>\<open>\u2028\<close> or \<^verbatim>\<open>\u2029\<close>, by the last digit of the third byte.\<close>

definition separatorEscape :: "string \<Rightarrow> string" where
  "separatorEscape s = bytesOf [92, 117, 50, 48, 50] @ [hexDigitLower (byte (s ! 2) mod 16)]"

function quoteBody :: "string \<Rightarrow> string" where
  "quoteBody [] = []"
| "quoteBody (c # cs) =
     (if byte c < 128 then quoteByte c @ quoteBody cs
      else if lineSeparator (c # cs) then separatorEscape (c # cs) @ quoteBody (drop 2 cs)
      else case utf8Len (c # cs) of
             0 \<Rightarrow> bytesOf [92, 117, 102, 102, 102, 100] @ quoteBody cs
           | Suc n \<Rightarrow> (c # take n cs) @ quoteBody (drop n cs))"
  by pat_completeness auto
termination by (relation "measure length") auto

definition jsonQuote :: "string \<Rightarrow> string" where
  "jsonQuote s = char_of (34::nat) # quoteBody s @ [char_of (34::nat)]"

section \<open>Documents\<close>

text \<open>A map is written in the order of its keys. Numbers are literals.\<close>

fun sortMembers :: "json \<Rightarrow> json" where
  "sortMembers (JArr vs) = JArr (map sortMembers vs)"
| "sortMembers (JObj ms) = JObj (sort_key fst (map (\<lambda>(k, v). (k, sortMembers v)) ms))"
| "sortMembers j = j"

fun joinComma :: "string list \<Rightarrow> string" where
  "joinComma [] = []"
| "joinComma [s] = s"
| "joinComma (s # ss) = s @ CHR '','' # joinComma ss"

fun writeJson :: "json \<Rightarrow> string" where
  "writeJson JNull = ''null''"
| "writeJson (JBool b) = (if b then ''true'' else ''false'')"
| "writeJson (JNum l) = l"
| "writeJson (JStr s) = jsonQuote s"
| "writeJson (JArr vs) = CHR ''['' # joinComma (map writeJson vs) @ '']''"
| "writeJson (JObj ms) = CHR ''{'' # joinComma (map (\<lambda>(k, v). jsonQuote k @ CHR '':'' # writeJson v) ms) @ ''}''"

definition marshal :: "json \<Rightarrow> string" where
  "marshal j = writeJson (sortMembers j)"

section \<open>Reading back what was written\<close>

definition plainChar :: "char \<Rightarrow> bool" where
  "plainChar c \<longleftrightarrow> 32 \<le> byte c \<and> byte c < 128 \<and> byte c \<noteq> 34 \<and> byte c \<noteq> 92 \<and> \<not> isHtml c"

definition plainNumber :: "string \<Rightarrow> bool" where
  "plainNumber l \<longleftrightarrow> list_all isDigit l \<and> (case l of [] \<Rightarrow> False | c # cs \<Rightarrow> byte c = 48 \<longrightarrow> cs = [])"

text \<open>\<open>plain d j\<close>: a document of this kind, not nested too deeply when it stands at depth \<open>d\<close>.\<close>

fun plain :: "nat \<Rightarrow> json \<Rightarrow> bool" where
  "plain d JNull = True"
| "plain d (JBool b) = True"
| "plain d (JNum l) = plainNumber l"
| "plain d (JStr s) = list_all plainChar s"
| "plain d (JArr vs) = (d < maxNestingDepth \<and> list_all (plain (Suc d)) vs)"
| "plain d (JObj ms) = (d < maxNestingDepth \<and> list_all (\<lambda>(k, v). list_all plainChar k \<and> plain (Suc d) v) ms)"

lemma quoteBody_plain: "list_all plainChar s \<Longrightarrow> quoteBody s = s"
  by (induction s) (auto simp: quoteByte_def plainChar_def Let_def)

lemma scanString_plain: "list_all plainChar s \<Longrightarrow> scanString (s @ char_of (34::nat) # r) = Some (s, r)"
  by (induction s) (auto simp: plainChar_def byte_def)

lemma unquote_plain: "list_all plainChar s \<Longrightarrow> unquote s = s"
  by (induction s) (auto simp: plainChar_def utf8Len_def)

lemma jsonQuote_plain: "list_all plainChar s \<Longrightarrow> jsonQuote s = char_of (34::nat) # s @ [char_of (34::nat)]"
  by (simp add: jsonQuote_def quoteBody_plain)

text \<open>What may follow a value in a document.\<close>

definition delimited :: "string \<Rightarrow> bool" where
  "delimited r \<longleftrightarrow> (case r of [] \<Rightarrow> True | c # _ \<Rightarrow> byte c \<in> {44, 93, 125, 10})"

lemma scanNumber_plain:
  assumes "plainNumber l" "delimited r"
  shows "scanNumber (l @ r) = Some (l, r)"
proof -
  from assms(1) obtain c cs where l: "l = c # cs" "isDigit c" "list_all isDigit cs" "byte c = 48 \<longrightarrow> cs = []"
    by (cases l) (auto simp: plainNumber_def)
  have nd: "takeWhile isDigit r = []" "dropWhile isDigit r = r"
    using assms(2) by (cases r; auto simp: delimited_def isDigit_def)+
  have "takeWhile isDigit (l @ r) = l" "dropWhile isDigit (l @ r) = r"
    using l(1-3) nd by (simp_all add: takeWhile_append2 dropWhile_append2 list_all_iff)
  then have "scanInt (l @ r) = Some (l, r)"
    using l by (auto simp: scanInt_def scanDigits_def)
  moreover have "scanFrac r = Some ([], r)" "scanExp r = Some ([], r)"
    using assms(2) by (cases r; auto simp: delimited_def scanFrac_def scanExp_def)+
  moreover have "byte c \<noteq> 45" using l(2) by (auto simp: isDigit_def)
  ultimately show ?thesis using l(1) by (simp add: scanNumber_def)
qed

text \<open>No document starts with white space.\<close>

lemma writeJson_start:
  "plain d j \<Longrightarrow> \<exists>c cs. writeJson j = c # cs \<and> \<not> isSpace c \<and> byte c \<noteq> 93"
  by (cases j) (auto simp: jsonQuote_def isSpace_def byte_def plainNumber_def isDigit_def split: list.splits if_splits)

lemma skipWs_id: "\<not> isSpace c \<Longrightarrow> skipWs (c # cs) = c # cs"
  by (simp add: skipWs_def)

lemma skipWs_write: "plain d j \<Longrightarrow> skipWs (writeJson j @ r) = writeJson j @ r"
  using writeJson_start [of d j] by (auto simp: skipWs_id)

lemma joinComma_Cons: "joinComma (s # ss) = s @ (if ss = [] then [] else CHR '','' # joinComma ss)"
  by (cases ss) auto

lemma delimited_simps [simp]:
  "delimited (CHR '','' # r)" "delimited (CHR '']'' # r)" "delimited (CHR ''}'' # r)"
  by (simp_all add: delimited_def byte_def)

lemma parseElems_joined:
  assumes "vs \<noteq> []" "list_all (plain d) vs"
    "\<And>v r. v \<in> set vs \<Longrightarrow> delimited r \<Longrightarrow> parseValue d (writeJson v @ r) = Some (v, r)"
  shows "parseElems d (joinComma (map writeJson vs) @ CHR '']'' # r) = Some (vs, r)"
  using assms
proof (induction vs)
  case (Cons v vs)
  show ?case
  proof (cases "vs = []")
    case True
    then show ?thesis using Cons.prems by (simp add: skipWs_id isSpace_def byte_def)
  next
    case False
    let ?t = "joinComma (map writeJson vs) @ CHR '']'' # r"
    have IH: "parseElems d ?t = Some (vs, r)" using Cons False by simp
    from False Cons.prems(2) have ws: "skipWs ?t = ?t"
      by (cases vs) (simp_all add: joinComma_Cons skipWs_write [of d] del: joinComma.simps)
    have v: "parseValue d (writeJson v @ CHR '','' # ?t) = Some (v, CHR '','' # ?t)"
      using Cons.prems(3) by simp
    show ?thesis using False IH ws v by (simp add: joinComma_Cons skipWs_id isSpace_def byte_def del: joinComma.simps)
  qed
qed simp


definition writeMember :: "string \<times> json \<Rightarrow> string" where
  "writeMember = (\<lambda>(k, v). jsonQuote k @ CHR '':'' # writeJson v)"

lemma writeJson_JObj: "writeJson (JObj ms) = CHR ''{'' # joinComma (map writeMember ms) @ ''}''"
  by (simp add: writeMember_def)

lemma writeMember_start: "\<exists>cs. writeMember kv = char_of (34::nat) # cs"
  by (cases kv) (simp add: writeMember_def jsonQuote_def)

lemma skipWs_member: "skipWs (writeMember kv @ r) = writeMember kv @ r"
  using writeMember_start [of kv] by (auto simp: skipWs_id isSpace_def byte_def)

lemma parseMembers_one:
  assumes "list_all plainChar k" "plain d v" "\<And>r. delimited r \<Longrightarrow> parseValue d (writeJson v @ r) = Some (v, r)"
    "delimited (e # r)" "\<not> isSpace e"
  shows "parseMembers d (writeMember (k, v) @ e # r) =
    (if byte e = 125 then Some ([(k, v)], r)
     else if byte e = 44 \<and> length (skipWs r) < length (writeMember (k, v) @ e # r)
     then map_option (\<lambda>(ms, u). ((k, v) # ms, u)) (parseMembers d (skipWs r))
     else None)"
proof -
  have w: "writeMember (k, v) @ e # r = char_of (34::nat) # k @ char_of (34::nat) # CHR '':'' # writeJson v @ e # r"
    using assms(1) by (simp add: writeMember_def jsonQuote_plain)
  have "scanString (k @ char_of (34::nat) # CHR '':'' # writeJson v @ e # r) =
      Some (k, CHR '':'' # writeJson v @ e # r)"
    by (rule scanString_plain [OF assms(1)])
  moreover have "skipWs (CHR '':'' # writeJson v @ e # r) = CHR '':'' # writeJson v @ e # r"
    by (simp add: skipWs_id isSpace_def byte_def)
  moreover have "skipWs (writeJson v @ e # r) = writeJson v @ e # r" by (rule skipWs_write [OF assms(2)])
  moreover have "skipWs (e # r) = e # r" using assms(5) by (rule skipWs_id)
  ultimately show ?thesis
    using assms(3) [OF assms(4)] unquote_plain [OF assms(1)] unfolding w
    by (subst parseMembers.simps) (simp add: byte_def)
qed

lemma parseMembers_joined:
  assumes "ms \<noteq> []" "list_all (\<lambda>(k, v). list_all plainChar k \<and> plain d v) ms"
    "\<And>k v r. (k, v) \<in> set ms \<Longrightarrow> delimited r \<Longrightarrow> parseValue d (writeJson v @ r) = Some (v, r)"
  shows "parseMembers d (joinComma (map writeMember ms) @ CHR ''}'' # r) = Some (ms, r)"
  using assms
proof (induction ms)
  case (Cons kv ms)
  obtain k v where kv: "kv = (k, v)" by fastforce
  with Cons.prems have v: "list_all plainChar k" "plain d v"
      "\<And>r. delimited r \<Longrightarrow> parseValue d (writeJson v @ r) = Some (v, r)" by auto
  have spaces: "\<not> isSpace (CHR '','')" "\<not> isSpace (CHR ''}'')" by (simp_all add: isSpace_def byte_def)
  show ?case
  proof (cases "ms = []")
    case True
    then show ?thesis
      using parseMembers_one [OF v delimited_simps(3) spaces(2)] kv by (simp add: byte_def)
  next
    case False
    let ?t = "joinComma (map writeMember ms) @ CHR ''}'' # r"
    have IH: "parseMembers d ?t = Some (ms, r)" using Cons False by auto
    from False have ws: "skipWs ?t = ?t"
      by (cases ms) (simp_all add: joinComma_Cons skipWs_member del: joinComma.simps)
    show ?thesis
      using parseMembers_one [OF v delimited_simps(1) spaces(1), where r = ?t] False IH ws kv
      by (simp add: joinComma_Cons byte_def del: joinComma.simps)
  qed
qed simp

text \<open>Every value is read back, whatever follows it.\<close>

lemma parseValue_write:
  "plain d j \<Longrightarrow> delimited r \<Longrightarrow> parseValue d (writeJson j @ r) = Some (j, r)"
proof (induction d j arbitrary: r rule: plain.induct)
  case (3 d l)
  then obtain c cs where "l = c # cs" "isDigit c" by (cases l) (auto simp: plainNumber_def)
  then show ?case
    using scanNumber_plain [of l r] 3 by (auto simp: isDigit_def)
next
  case (4 d s)
  then show ?case
    using scanString_plain [of s r] unquote_plain [of s] jsonQuote_plain [of s] by (simp add: byte_def)
next
  case (5 d vs)
  show ?case
  proof (cases "vs = []")
    case True
    then show ?thesis using 5 by (simp add: skipWs_id isSpace_def byte_def)
  next
    case False
    let ?t = "joinComma (map writeJson vs) @ CHR '']'' # r"
    have e: "parseElems (Suc d) ?t = Some (vs, r)"
      using False 5 by (intro parseElems_joined) (auto simp: list_all_iff)
    from False 5(2) obtain c cs where c: "?t = c # cs" "\<not> isSpace c" "byte c \<noteq> 93"
      using writeJson_start [of "Suc d" "hd vs"] by (cases vs) (auto simp: joinComma_Cons simp del: joinComma.simps)
    then have "skipWs ?t = ?t" by (simp add: skipWs_id)
    with c e show ?thesis using 5(2) by (simp add: byte_def)
  qed
next
  case (6 d ms)
  show ?case
  proof (cases "ms = []")
    case True
    then show ?thesis using 6 by (simp add: skipWs_id isSpace_def byte_def)
  next
    case False
    let ?t = "joinComma (map writeMember ms) @ CHR ''}'' # r"
    have e: "parseMembers (Suc d) ?t = Some (ms, r)"
      using False 6 by (intro parseMembers_joined) (auto simp: list_all_iff)
    from False obtain cs where c: "?t = char_of (34::nat) # cs"
      using writeMember_start [of "hd ms"] by (cases ms) (auto simp: joinComma_Cons simp del: joinComma.simps)
    then have "skipWs ?t = ?t" by (simp add: skipWs_id isSpace_def byte_def)
    with c e show ?thesis using 6(2) unfolding writeJson_JObj by (simp add: byte_def)
  qed
qed (simp_all add: byte_def isDigit_def stripPrefix_def)


text \<open>\<^verbatim>\<open>json.Encoder\<close> ends a document with a newline; Marshal does not.\<close>

definition newline :: char where "newline = char_of (10::nat)"

definition encode :: "json \<Rightarrow> string" where
  "encode j = marshal j @ [newline]"

lemma marshal_parses:
  assumes "plain 0 (sortMembers j)"
  shows "parseJson (marshal j) = Some (sortMembers j)" "parseJson (encode j) = Some (sortMembers j)"
  using parseValue_write [OF assms, of "[]"] parseValue_write [OF assms, of "[newline]"]
    skipWs_write [OF assms, of "[]"] skipWs_write [OF assms, of "[newline]"]
  by (simp_all add: parseJson_def marshal_def encode_def delimited_def newline_def skipWs_def isSpace_def byte_def)

end
