(* ===== verification/AlphaSense.thy ===== *)
theory AlphaSense
  imports OAuth Calendar Poller Commands JsonEncode
begin

text \<open>
  The AlphaSense adapter (\<^verbatim>\<open>internal/provider/alphasense/alphasense.go\<close>): its wire format and
  normalization, one authenticated request with retries, and the three capabilities. The token
  manager is \<open>OAuth\<close>, the retries are \<open>Do\<close>; the timeout of the HTTP client is not modelled.
\<close>

section \<open>The client\<close>

record alpha_client =
  ac_baseURL :: string
  ac_tokens :: oauth_config
  ac_http :: http_client

text \<open>\<^verbatim>\<open>strings.TrimRight(s, "/")\<close>.\<close>

definition trimSlashes :: "string \<Rightarrow> string" where
  "trimSlashes s = rev (dropWhile (\<lambda>c. byte c = 47) (rev s))"

definition newAlphaSense :: "string \<Rightarrow> oauth_config \<Rightarrow> http_client \<Rightarrow> alpha_client" where
  "newAlphaSense baseURL tokens client =
     \<lparr>ac_baseURL = trimSlashes baseURL, ac_tokens = tokens, ac_http = client\<rparr>"

section \<open>The wire format\<close>

record wireUnit =
  wu_UnitRef :: string
  wu_Label :: string
  wu_Health :: string
  wu_LastPing :: string
  wu_Firmware :: string

record wireAlert =
  wa_AlertID :: string
  wa_UnitRef :: string
  wa_Category :: string
  wa_Score :: float64
  wa_RaisedAt :: string
  wa_Confirmed :: string

definition zeroUnit :: wireUnit where
  "zeroUnit = \<lparr>wu_UnitRef = [], wu_Label = [], wu_Health = [], wu_LastPing = [], wu_Firmware = []\<rparr>"

definition zeroAlert :: wireAlert where
  "zeroAlert = \<lparr>wa_AlertID = [], wa_UnitRef = [], wa_Category = [], wa_Score = 0, wa_RaisedAt = [],
     wa_Confirmed = []\<rparr>"

definition unitStep :: "json \<Rightarrow> wireUnit \<Rightarrow> wireUnit option" where
  "unitStep v u =
     (let (ms, ok0) = asObject v;
          (ref, ok1) = decodeField stringStep ''unit_ref'' ms (wu_UnitRef u);
          (label, ok2) = decodeField stringStep ''label'' ms (wu_Label u);
          (health, ok3) = decodeField stringStep ''health'' ms (wu_Health u);
          (ping, ok4) = decodeField stringStep ''last_ping'' ms (wu_LastPing u);
          (firmware, ok5) = decodeField stringStep ''firmware'' ms (wu_Firmware u)
      in if ok0 \<and> ok1 \<and> ok2 \<and> ok3 \<and> ok4 \<and> ok5
         then Some \<lparr>wu_UnitRef = ref, wu_Label = label, wu_Health = health, wu_LastPing = ping,
                    wu_Firmware = firmware\<rparr>
         else None)"

definition alertStep :: "json \<Rightarrow> wireAlert \<Rightarrow> wireAlert option" where
  "alertStep v a =
     (let (ms, ok0) = asObject v;
          (alert, ok1) = decodeField stringStep ''alert_id'' ms (wa_AlertID a);
          (ref, ok2) = decodeField stringStep ''unit_ref'' ms (wa_UnitRef a);
          (category, ok3) = decodeField stringStep ''category'' ms (wa_Category a);
          (score, ok4) = decodeField floatStep ''score'' ms (wa_Score a);
          (raised, ok5) = decodeField stringStep ''raised_at'' ms (wa_RaisedAt a);
          (confirmed, ok6) = decodeField stringStep ''confirmed_at'' ms (wa_Confirmed a)
      in if ok0 \<and> ok1 \<and> ok2 \<and> ok3 \<and> ok4 \<and> ok5 \<and> ok6
         then Some \<lparr>wa_AlertID = alert, wa_UnitRef = ref, wa_Category = category, wa_Score = score,
                    wa_RaisedAt = raised, wa_Confirmed = confirmed\<rparr>
         else None)"

text \<open>
  An array fills a slice element by element; when a document repeats the name, the elements it
  already has are filled again and the slice is cut to the new length. A misfit anywhere makes
  \<^verbatim>\<open>Unmarshal\<close> fail, which is all the adapter looks at.
\<close>

fun decodeElems :: "(json \<Rightarrow> 'a \<Rightarrow> 'a option) \<Rightarrow> 'a \<Rightarrow> json list \<Rightarrow> 'a list \<Rightarrow> 'a list option" where
  "decodeElems step zero [] xs = Some []"
| "decodeElems step zero (v # vs) xs =
     (case step v (case xs of [] \<Rightarrow> zero | x # _ \<Rightarrow> x) of
        None \<Rightarrow> None
      | Some b \<Rightarrow> map_option (Cons b) (decodeElems step zero vs (tl xs)))"

definition listStep :: "(json \<Rightarrow> 'a \<Rightarrow> 'a option) \<Rightarrow> 'a \<Rightarrow> json \<Rightarrow> 'a list \<Rightarrow> 'a list option" where
  "listStep step zero v xs =
     (case v of
        JNull \<Rightarrow> Some []
      | JArr vs \<Rightarrow> decodeElems step zero vs xs
      | _ \<Rightarrow> None)"

definition unmarshalList :: "string \<Rightarrow> (json \<Rightarrow> 'a \<Rightarrow> 'a option) \<Rightarrow> 'a \<Rightarrow> string \<Rightarrow> 'a list option" where
  "unmarshalList name step zero body =
     (case parseJson body of
        None \<Rightarrow> None
      | Some v \<Rightarrow>
          (let (ms, ok0) = asObject v;
               (xs, ok1) = decodeField (listStep step zero) name ms []
           in if ok0 \<and> ok1 then Some xs else None))"

definition unmarshalUnits :: "string \<Rightarrow> wireUnit list option" where
  "unmarshalUnits = unmarshalList ''units'' unitStep zeroUnit"

definition unmarshalAlerts :: "string \<Rightarrow> wireAlert list option" where
  "unmarshalAlerts = unmarshalList ''alerts'' alertStep zeroAlert"

section \<open>Normalization\<close>

definition unitStatus :: "string \<Rightarrow> DeviceStatus" where
  "unitStatus h =
     (if h = ''green'' \<or> h = ''amber'' then DeviceOnline
      else if h = ''red'' then DeviceOffline
      else DeviceUnknown)"

definition normalizeUnit :: "wireUnit \<Rightarrow> Time \<Rightarrow> Device res" where
  "normalizeUnit u now =
     (if wu_UnitRef u = [] then Inl (Errorf ''unit missing unit_ref'' [])
      else let lastSeen = (if wu_LastPing u = [] then zeroTime
                           else case parseRFC3339 (wu_LastPing u) of None \<Rightarrow> zeroTime | Some t \<Rightarrow> t)
           in Inr (zeroDevice\<lparr>d_ExternalID := wu_UnitRef u, d_Provider := ProviderAlphaSense,
                d_Name := wu_Label u, d_Status := unitStatus (wu_Health u),
                d_AppVersion := wu_Firmware u, d_LastSeenAt := lastSeen, d_UpdatedAt := now\<rparr>))"

definition alertType :: "string \<Rightarrow> HazardType option" where
  "alertType c =
     (if c = ''fire'' then Some HazardFire else if c = ''smoke'' then Some HazardSmoke else None)"

definition timeParseError :: error where "timeParseError = Errorf ''parsing time'' []"

text \<open>The division of two binary64 numbers; a score up to 100 keeps it far from overflow.\<close>

definition scoreConfidence :: "float64 \<Rightarrow> float64" where
  "scoreConfidence s = (case round64 (s / 100) of None \<Rightarrow> 0 | Some x \<Rightarrow> x)"

definition normalizeAlert :: "wireAlert \<Rightarrow> Time \<Rightarrow> NormalizedEvent res" where
  "normalizeAlert a received =
     (case alertType (wa_Category a) of
        None \<Rightarrow> Inl (Errorf ''unknown alert category %q'' [AStr (wa_Category a)])
      | Some typ \<Rightarrow>
          if wa_AlertID a = [] \<or> wa_UnitRef a = [] then
            Inl (Errorf ''alert missing alert_id/unit_ref'' [])
          else if wa_Score a < 0 \<or> 100 < wa_Score a then
            Inl (Errorf ''alert score %v outside [0,100]'' [AFloat (wa_Score a)])
          else case parseRFC3339 (wa_Confirmed a) of
                 None \<Rightarrow> Inl (Wrapf ''bad confirmed_at: %w'' [] timeParseError)
               | Some confirmed \<Rightarrow>
                   (let raised = (case parseRFC3339 (wa_RaisedAt a) of None \<Rightarrow> confirmed | Some t \<Rightarrow> t)
                    in Inr \<lparr>ne_ExternalDeviceID = wa_UnitRef a,
                         ne_Event = zeroHazardEvent\<lparr>e_DedupKey := wa_AlertID a,
                           e_Source := ProviderAlphaSense, e_Type := typ,
                           e_Confidence := scoreConfidence (wa_Score a), e_FirstSeenAt := raised,
                           e_ConfirmedAt := confirmed, e_ReceivedAt := received\<rparr>\<rparr>))"

section \<open>One authenticated request\<close>

definition alphaRequest :: "alpha_client \<Rightarrow> string \<Rightarrow> string \<Rightarrow> string \<Rightarrow> string \<Rightarrow> http_request" where
  "alphaRequest c verb path body token =
     \<lparr>rq_method = verb, rq_url = ac_baseURL c @ path, rq_token = token, rq_body = body\<rparr>"

text \<open>
  The closure \<^verbatim>\<open>do\<close> hands to \<^verbatim>\<open>reliability.Do\<close>; it captures \<^verbatim>\<open>refreshed\<close> and \<^verbatim>\<open>out\<close>.
  \<open>dec\<close> is \<^verbatim>\<open>json.Unmarshal\<close> into \<^verbatim>\<open>out\<close>; a call without \<^verbatim>\<open>out\<close> takes any body.
\<close>

definition alphaAnswer ::
  "string \<Rightarrow> string \<Rightarrow> (string \<Rightarrow> 'a option) \<Rightarrow> http_response \<Rightarrow> (bool \<times> 'a) operation" where
  "alphaAnswer verb path dec resp = (\<lambda>((refreshed, out), w).
     let code = rs_status resp
     in if 200 \<le> code \<and> code < 300 then
          (case dec (take 1048576 (rs_body resp)) of
             None \<Rightarrow> (Some (Permanent (Wrapf ''alphasense malformed response: %w'' [] jsonError)), ((refreshed, out), w))
           | Some v \<Rightarrow> (None, ((refreshed, v), w)))
        else if code = 401 then
          (if \<not> refreshed
           then (Some (Errorf ''alphasense 401, retrying with fresh token'' []), ((True, out), Invalidate w))
           else (Some (Permanent (Errorf ''alphasense rejected fresh token (401)'' [])), ((refreshed, out), w)))
        else if code = 429 \<or> 500 \<le> code then
          (Some (Errorf ''alphasense %s %s: status %d'' [AStr verb, AStr path, AInt code]), ((refreshed, out), w))
        else
          (Some (Permanent (Errorf ''alphasense %s %s: status %d'' [AStr verb, AStr path, AInt code])), ((refreshed, out), w)))"

definition alphaOp ::
  "alpha_client \<Rightarrow> string \<Rightarrow> string \<Rightarrow> string \<Rightarrow> (string \<Rightarrow> 'a option) \<Rightarrow> (bool \<times> 'a) operation" where
  "alphaOp c verb path body dec = (\<lambda>(st, w).
     case AccessToken (ac_tokens c) w of
       (Inl err, w1) \<Rightarrow> (Some (Wrapf ''alphasense auth: %w'' [] err), (st, w1))
     | (Inr token, w1) \<Rightarrow>
         if hc_badURL (ac_http c) (ac_baseURL c @ path)
         then (Some (Permanent (Errorf ''net/http: bad request'' [])), (st, w1))
         else case http_do (alphaRequest c verb path body token) w1 of
                (Inl d, w2) \<Rightarrow> (Some (Wrapf ''alphasense %s %s: %w'' [AStr verb, AStr path] (Driver d)), (st, w2))
              | (Inr resp, w2) \<Rightarrow> alphaAnswer verb path dec resp (st, w2))"

definition alphaDo ::
  "alpha_client \<Rightarrow> string \<Rightarrow> string \<Rightarrow> string \<Rightarrow> (string \<Rightarrow> 'a option) \<Rightarrow> 'a \<Rightarrow> world \<Rightarrow> 'a res \<times> world" where
  "alphaDo c verb path body dec zero w =
     (case Do DefaultPolicy (alphaOp c verb path body dec) ((False, zero), w) of
        (Returned None, ((_, out), w1)) \<Rightarrow> (Inr out, w1)
      | (Returned (Some e), (_, w1)) \<Rightarrow> (Inl e, w1)
      | (Panicked, (_, w1)) \<Rightarrow> (Inl panicError, w1))"

definition alphaGet :: "alpha_client \<Rightarrow> string \<Rightarrow> (string \<Rightarrow> 'a list option) \<Rightarrow> world \<Rightarrow> 'a list res \<times> world" where
  "alphaGet c path dec w = alphaDo c ''GET'' path [] dec [] w"

section \<open>Capabilities\<close>

text \<open>The accepted results of a list and its first error.\<close>

fun accepted :: "'a res list \<Rightarrow> 'a list" where
  "accepted [] = []"
| "accepted (Inl e # rs) = accepted rs"
| "accepted (Inr x # rs) = x # accepted rs"

fun firstErr :: "'a res list \<Rightarrow> error option" where
  "firstErr [] = None"
| "firstErr (Inl e # rs) = Some e"
| "firstErr (Inr x # rs) = firstErr rs"

definition FetchDevices :: "alpha_client \<Rightarrow> world \<Rightarrow> Device list res \<times> world" where
  "FetchDevices c w =
     (case alphaGet c ''/api/v2/units'' unmarshalUnits w of
        (Inl e, w1) \<Rightarrow> (Inl e, w1)
      | (Inr us, w1) \<Rightarrow>
          (let (now, w2) = timeNow w1 in (Inr (accepted (map (\<lambda>u. normalizeUnit u now) us)), w2)))"

definition alertsPath :: "Time \<Rightarrow> string" where
  "alertsPath since = ''/api/v2/alerts?'' @ formEncode [(''since'', formatRFC3339 since)]"

definition FetchEvents ::
  "alpha_client \<Rightarrow> Time \<Rightarrow> world \<Rightarrow> (NormalizedEvent list \<times> error option) \<times> world" where
  "FetchEvents c since w =
     (case alphaGet c (alertsPath since) unmarshalAlerts w of
        (Inl e, w1) \<Rightarrow> (([], Some e), w1)
      | (Inr as, w1) \<Rightarrow>
          (let (received, w2) = timeNow w1; rs = map (\<lambda>a. normalizeAlert a received) as
           in ((accepted rs, firstErr rs), w2)))"

definition instructionOf :: "CommandType \<Rightarrow> string" where
  "instructionOf t =
     (if t = CommandGetStatus then ''status_report''
      else if t = CommandStartMonitoring then ''arm''
      else if t = CommandStopMonitoring then ''disarm''
      else if t = CommandUpdateConfig then ''reconfigure''
      else [])"

text \<open>
  \<^verbatim>\<open>strings.TrimSpace(s) == ""\<close>: only Unicode white space, read rune by rune.
\<close>

definition wideSpace :: "nat list \<Rightarrow> bool" where
  "wideSpace bs \<longleftrightarrow>
     bs \<in> set ([225, 154, 128] # map (\<lambda>b. [226, 128, b]) ([128..<139] @ [168, 169, 175]) @
       [[226, 129, 159], [227, 128, 128]])"

fun blank :: "string \<Rightarrow> bool" where
  "blank [] = True"
| "blank (a # r) =
     (if byte a \<in> {9, 10, 11, 12, 13, 32} then blank r
      else case r of
             b # r2 \<Rightarrow>
               if byte a = 194 \<and> (byte b = 133 \<or> byte b = 160) then blank r2
               else (case r2 of c # r3 \<Rightarrow> wideSpace [byte a, byte b, byte c] \<and> blank r3 | [] \<Rightarrow> False)
           | [] \<Rightarrow> False)"

definition orEmptyObject :: "string \<Rightarrow> string" where
  "orEmptyObject s = (if blank s then ''{}'' else s)"

text \<open>
  A \<^verbatim>\<open>json.RawMessage\<close> must be valid; it is copied without its white space and with the HTML and
  line separator escapes of a string.
\<close>

function compactJson :: "bool \<Rightarrow> string \<Rightarrow> string" where
  "compactJson inStr [] = []"
| "compactJson inStr (c # cs) =
     (if \<not> inStr then
        (if isSpace c then compactJson False cs else c # compactJson (byte c = 34) cs)
      else if byte c = 34 then c # compactJson False cs
      else if byte c = 92 then
        (case cs of [] \<Rightarrow> [c] | e # r \<Rightarrow> c # e # compactJson True r)
      else if isHtml c then escape00 c @ compactJson True cs
      else if lineSeparator (c # cs) then separatorEscape (c # cs) @ compactJson True (drop 2 cs)
      else c # compactJson True cs)"
  by pat_completeness auto
termination by (relation "measure (\<lambda>(i, s). length s)") auto

text \<open>
  The body: \<^verbatim>\<open>Marshal\<close> writes the members of a map in the order of their names. When the
  payload is not valid JSON it fails, and the adapter, which drops the error, has an empty body.
\<close>

definition jsonMember :: "char \<Rightarrow> string \<Rightarrow> string" where
  "jsonMember before name = before # jsonQuote name @ '':''"

definition instructionBody :: "string \<Rightarrow> Command \<Rightarrow> string" where
  "instructionBody instruction cmd =
     (let params = orEmptyObject (c_Payload cmd)
      in if \<not> json_Valid params then []
         else jsonMember (CHR ''{'') ''instruction'' @ jsonQuote instruction @ jsonMember (CHR '','') ''params'' @ compactJson False params @
              jsonMember (CHR '','') ''request_ref'' @ jsonQuote (c_ID cmd) @ ''}'')"

definition instructionsPath :: "string \<Rightarrow> string" where
  "instructionsPath ext = ''/api/v2/units/'' @ pathEscape ext @ ''/instructions''"

definition alphaSendCommand :: "alpha_client \<Rightarrow> command_sender" where
  "alphaSendCommand c ext cmd w =
     (let instruction = instructionOf (c_Type cmd)
      in if instruction = [] then
           (Inl (Permanent (Errorf ''alphasense cannot express command %q'' [AStr (c_Type cmd)])), w)
         else case alphaDo c ''POST'' (instructionsPath ext) (instructionBody instruction cmd)
                     (\<lambda>_. Some ()) () w of
                (Inl e, w1) \<Rightarrow> (Inl e, w1)
              | (Inr _, w1) \<Rightarrow> (Inr (CommandDelivered, Str ''accepted by alphasense''), w1))"

text \<open>The adapter as a provider of the poller.\<close>

definition alphaProvider :: "alpha_client \<Rightarrow> provider" where
  "alphaProvider c = \<lparr>pv_Name = ProviderAlphaSense, pv_FetchDevices = Some (FetchDevices c),
     pv_FetchEvents = Some (FetchEvents c)\<rparr>"

section \<open>The confidence of an alert\<close>

lemma bitLength_mono: "m \<le> n \<Longrightarrow> bitLength m \<le> bitLength n"
proof (induction n arbitrary: m rule: bitLength.induct)
  case (1 n)
  show ?case
  proof (cases "m = 0")
    case False
    with 1 have "bitLength (m div 2) \<le> bitLength (n div 2)" by (simp add: div_le_mono)
    with False 1 show ?thesis by (simp add: bitLength.simps [of m] bitLength.simps [of n])
  qed (simp add: bitLength.simps)
qed

lemma leading_fraction: "num \<le> den \<Longrightarrow> leading num den \<le> 0"
  using bitLength_mono [of num den] by (simp add: leading_def Let_def)

lemma roundHalfEven_le: "0 < b \<Longrightarrow> a \<le> k * b \<Longrightarrow> roundHalfEven a b \<le> k"
proof -
  assume b: "0 < b" and a: "a \<le> k * b"
  then have q: "a div b \<le> k" by (metis div_le_mono nonzero_mult_div_cancel_right not_gr_zero)
  show ?thesis
  proof (cases "a div b = k")
    case True
    with a have "a mod b = 0" using div_mult_mod_eq [of a b] by simp
    with True b show ?thesis by (simp add: roundHalfEven_def)
  qed (use q in \<open>auto simp: roundHalfEven_def Let_def\<close>)
qed

lemma roundPos_fraction:
  assumes "0 < den" "num \<le> den"
  shows "\<exists>x. roundPos num den = Some x \<and> 0 \<le> x \<and> x \<le> 1"
proof (cases "num = 0")
  case False
  define u where "u = max (leading num den - 52) (- 1074)"
  define k where "k = nat (- u)"
  have u: "u < 0" using leading_fraction [OF assms(2)] by (simp add: u_def)
  define m where "m = roundHalfEven (num * 2 ^ k) den"
  have "num * 2 ^ k \<le> 2 ^ k * den" using assms(2) by simp
  then have "m \<le> 2 ^ k" unfolding m_def by (rule roundHalfEven_le [OF assms(1)])
  then have "of_nat m \<le> (2 ^ k :: rat)" by (metis of_nat_le_iff of_nat_numeral of_nat_power)
  then have le: "of_nat m * pow2 u \<le> (1::rat)" using u by (simp add: pow2_def k_def)
  have "roundPos num den = (if 2 ^ 1024 \<le> of_nat m * pow2 u then None else Some (of_nat m * pow2 u))"
    using False u by (simp add: roundPos_def Let_def m_def k_def flip: u_def)
  moreover have "\<not> 2 ^ 1024 \<le> of_nat m * pow2 u"
  proof -
    have "(1::rat) < 2 ^ 1024" by (rule one_less_power) simp_all
    with le show ?thesis by linarith
  qed
  ultimately show ?thesis using le u by (simp add: pow2_def)
qed (simp add: roundPos_def)

lemma round64_fraction:
  assumes "0 \<le> q" "q \<le> 1"
  shows "\<exists>x. round64 q = Some x \<and> 0 \<le> x \<and> x \<le> 1"
proof -
  obtain n d where nd: "quotient_of q = (n, d)" by fastforce
  then have d: "0 < d" and q: "q = of_int n / of_int d"
    by (simp_all add: quotient_of_denom_pos quotient_of_div)
  then have "0 \<le> n" "n \<le> d" using assms by (simp_all add: zero_le_divide_iff)
  with roundPos_fraction [of "nat d" "nat n"] d nd show ?thesis by (simp add: round64_def)
qed

lemma scoreConfidence_bounds:
  assumes "0 \<le> s" "s \<le> 100"
  shows "0 \<le> scoreConfidence s" "scoreConfidence s \<le> 1"
  using round64_fraction [of "s / 100"] assms by (auto simp: scoreConfidence_def)

section \<open>What normalization promises\<close>

lemma alertType_valid: "alertType c = Some t \<Longrightarrow> ValidHazardType t"
  by (auto simp: alertType_def ValidHazardType_def split: if_splits)

lemma normalizeAlert_cases:
  assumes "normalizeAlert a received = Inr ne"
  shows "\<exists>confirmed typ. parseRFC3339 (wa_Confirmed a) = Some confirmed \<and> alertType (wa_Category a) = Some typ \<and>
    wa_AlertID a \<noteq> [] \<and> wa_UnitRef a \<noteq> [] \<and> 0 \<le> wa_Score a \<and> wa_Score a \<le> 100 \<and>
    ne_ExternalDeviceID ne = wa_UnitRef a \<and> e_DedupKey (ne_Event ne) = wa_AlertID a \<and>
    e_Source (ne_Event ne) = ProviderAlphaSense \<and> e_Type (ne_Event ne) = typ \<and>
    e_Confidence (ne_Event ne) = scoreConfidence (wa_Score a) \<and> e_ConfirmedAt (ne_Event ne) = confirmed \<and>
    e_ReceivedAt (ne_Event ne) = received"
  using assms by (auto simp: normalizeAlert_def Let_def split: option.splits if_splits)

lemma normalizeAlert_time: "(\<exists>e. normalizeAlert a t = Inl e) \<longleftrightarrow> (\<exists>e. normalizeAlert a u = Inl e)"
  by (auto simp: normalizeAlert_def Let_def split: option.splits if_splits)

text \<open>An accepted alert carries exactly what the event validator asks for.\<close>

lemma normalized_event_valid:
  assumes "normalizeAlert a received = Inr ne"
  shows "valid_event ((ne_Event ne)\<lparr>e_DeviceID := dev\<rparr>) \<longleftrightarrow>
    dev \<noteq> [] \<and> \<not> IsZero (e_ConfirmedAt (ne_Event ne))"
  using normalizeAlert_cases [OF assms] scoreConfidence_bounds [of "wa_Score a"] alertType_valid
  by (auto simp: valid_event_def ValidProvider_def)

lemma set_accepted: "x \<in> set (accepted rs) \<longleftrightarrow> Inr x \<in> set rs"
  by (induction rs rule: accepted.induct) auto

lemma firstErr_None: "firstErr rs = None \<longleftrightarrow> (\<forall>e. Inl e \<notin> set rs)"
  by (induction rs rule: firstErr.induct) auto

text \<open>C28: what the adapter hands on is well formed. An alert that normalization accepts is an event of
  provider AlphaSense under the alert's own identifier, with a known hazard type and a confidence
  between 0 and 1, computed from a score between 0 and 100; once its device is resolved, event
  validation can only still object to a zero confirmation time. Every device it lists has a nonempty
  external identifier and one of the three statuses.\<close>

theorem alphasense_normalizes:
  "(\<forall>a received ne dev. normalizeAlert a received = Inr ne \<longrightarrow>
      e_Source (ne_Event ne) = ProviderAlphaSense \<and> e_DedupKey (ne_Event ne) = wa_AlertID a \<and>
      ne_ExternalDeviceID ne \<noteq> [] \<and>
      valid_event ((ne_Event ne)\<lparr>e_DeviceID := dev\<rparr>) = (dev \<noteq> [] \<and> \<not> IsZero (e_ConfirmedAt (ne_Event ne)))) \<and>
   (\<forall>u now d. normalizeUnit u now = Inr d \<longrightarrow>
      d_Provider d = ProviderAlphaSense \<and> d_ExternalID d = wu_UnitRef u \<and> d_ExternalID d \<noteq> [] \<and>
      d_Status d \<in> {DeviceOnline, DeviceOffline, DeviceUnknown})"
proof (intro conjI allI impI)
  fix a received ne dev
  assume n: "normalizeAlert a received = Inr ne"
  from normalizeAlert_cases [OF n]
  show "e_Source (ne_Event ne) = ProviderAlphaSense" "e_DedupKey (ne_Event ne) = wa_AlertID a"
    "ne_ExternalDeviceID ne \<noteq> []" by auto
  show "valid_event ((ne_Event ne)\<lparr>e_DeviceID := dev\<rparr>) = (dev \<noteq> [] \<and> \<not> IsZero (e_ConfirmedAt (ne_Event ne)))"
    by (rule normalized_event_valid [OF n])
qed (auto simp: normalizeUnit_def Let_def unitStatus_def split: if_splits)

definition demo_alert :: wireAlert where
  "demo_alert = \<lparr>wa_AlertID = ''a1'', wa_UnitRef = ''u1'', wa_Category = ''fire'', wa_Score = 50,
     wa_RaisedAt = [], wa_Confirmed = ''2024-01-01T00:00:00Z''\<rparr>"

lemma demo_alert_time: "parseRFC3339 ''2024-01-01T00:00:00Z'' = Some 1704067200000000000"
  by (simp add: parseRFC3339_def parseDate.simps parseClock.simps getYear_def getField_def getChar_def getnum_def
      getFraction_def getZone_def dateTime_def daysOf_def daysBefore_def monthLens_def epochDay_def
      natOf_def isDigit_def digitVal_def byte_def)

lemma alphasense_normalizes_witness:
  "valid_event ((ne_Event (projr (normalizeAlert demo_alert 5)))\<lparr>e_DeviceID := ''d1''\<rparr>)"
proof -
  obtain ne where n: "normalizeAlert demo_alert 5 = Inr ne"
    by (simp add: normalizeAlert_def demo_alert_def alertType_def demo_alert_time)
  moreover have "e_ConfirmedAt (ne_Event ne) = 1704067200000000000"
    using normalizeAlert_cases [OF n] by (simp add: demo_alert_def demo_alert_time)
  ultimately show ?thesis using alphasense_normalizes by (simp add: IsZero_def zeroTime_def)
qed

section \<open>Where a request goes\<close>

text \<open>
  \<open>alphaTraffic c r w w'\<close>: from \<open>w\<close> to \<open>w'\<close> only the token endpoint was contacted, without a
  bearer token, and the adapter's own request \<open>r token\<close> was sent.
\<close>

definition alphaTraffic :: "alpha_client \<Rightarrow> (string \<Rightarrow> http_request) \<Rightarrow> world \<Rightarrow> world \<Rightarrow> bool" where
  "alphaTraffic c r w w' \<longleftrightarrow> outbound w w' \<and>
     (\<exists>rs. w_sent w' = w_sent w @ rs \<and>
        (\<forall>q\<in>set rs. rq_url q = oc_TokenURL (ac_tokens c) \<and> rq_token q = [] \<or> (\<exists>t. t \<noteq> [] \<and> q = r t)))"

lemma alphaTraffic_refl [simp]: "alphaTraffic c r w w"
  by (simp add: alphaTraffic_def)

lemma alphaTraffic_trans [trans]:
  assumes "alphaTraffic c r w w'" "alphaTraffic c r w' w''"
  shows "alphaTraffic c r w w''"
proof -
  let ?ok = "\<lambda>q. rq_url q = oc_TokenURL (ac_tokens c) \<and> rq_token q = [] \<or> (\<exists>t. t \<noteq> [] \<and> q = r t)"
  from assms obtain rs rs' where "w_sent w' = w_sent w @ rs" "w_sent w'' = w_sent w' @ rs'"
    "\<forall>q\<in>set rs. ?ok q" "\<forall>q\<in>set rs'. ?ok q" "outbound w w''"
    using outbound_trans [of w w' w''] by (auto simp: alphaTraffic_def)
  then have "w_sent w'' = w_sent w @ (rs @ rs') \<and> (\<forall>q\<in>set (rs @ rs'). ?ok q)"
    unfolding set_append ball_Un by simp
  then show ?thesis using \<open>outbound w w''\<close> unfolding alphaTraffic_def by blast
qed

interpretation alpha_traffic: retry_frame "alphaTraffic c r" for c r
  by unfold_locales
    (auto intro: alphaTraffic_trans simp: alphaTraffic_def environment_defs outbound_def)

lemma alphaTraffic_quiet: "outbound w w' \<Longrightarrow> w_sent w' = w_sent w \<Longrightarrow> alphaTraffic c r w w'"
  by (simp add: alphaTraffic_def)

lemma AccessToken_traffic:
  assumes "AccessToken (ac_tokens c) w = (res, w')"
  shows "alphaTraffic c r w w'" "res = Inr t \<Longrightarrow> t \<noteq> []"
proof -
  note o = AccessToken_outcome [where cfg = "ac_tokens c" and w = w]
  from o assms obtain rs where "outbound w w'" "w_sent w' = w_sent w @ rs"
    "\<forall>q\<in>set rs. rq_url q = oc_TokenURL (ac_tokens c) \<and> rq_token q = []"
    by (auto simp: list_all_iff)
  then show "alphaTraffic c r w w'" by (auto simp: alphaTraffic_def)
  show "res = Inr t \<Longrightarrow> t \<noteq> []" using o assms by auto
qed

lemma alphaAnswer_traffic:
  assumes "alphaAnswer verb path dec resp (st, w) = (res, (st', w'))"
  shows "alphaTraffic c r w w'"
proof -
  have "alphaTraffic c r w (Invalidate w)"
    by (rule alphaTraffic_quiet) (simp_all add: Invalidate_def)
  then show ?thesis
    using assms by (cases st) (auto simp: alphaAnswer_def Let_def split: if_splits option.splits)
qed

lemma alphaOp_traffic:
  assumes "alphaOp c verb path body dec (st, w) = (res, (st', w'))"
  shows "alphaTraffic c (alphaRequest c verb path body) w w'"
proof (cases "AccessToken (ac_tokens c) w")
  case (Pair a w1)
  let ?R = "alphaTraffic c (alphaRequest c verb path body)"
  have first: "?R w w1" by (rule AccessToken_traffic [OF Pair])
  show ?thesis
  proof (cases a)
    case (Inl e)
    with assms Pair first show ?thesis by (simp add: alphaOp_def)
  next
    case (Inr token)
    let ?w2 = "snd (http_do (alphaRequest c verb path body token) w1)"
    have "token \<noteq> []" using AccessToken_traffic(2) [OF Pair Inr] .
    then have "?R w1 ?w2" using outbound_env(4) [of w1] by (auto simp: alphaTraffic_def) (auto simp: http_do_def)
    with first have second: "?R w ?w2" by (rule alphaTraffic_trans)
    from assms Pair Inr
    have "w' = w1 \<or> w' = ?w2 \<or> (\<exists>resp. alphaAnswer verb path dec resp (st, ?w2) = (res, (st', w')))"
      by (auto simp: alphaOp_def split: if_splits prod.splits sum.splits)
    then show ?thesis using first second alphaAnswer_traffic alphaTraffic_trans by blast
  qed
qed

lemma alphaDo_run:
  obtains out st' w' where "Do DefaultPolicy (alphaOp c verb path body dec) ((False, zero), w) = (out, (st', w'))"
    "snd (alphaDo c verb path body dec zero w) = w'" "out \<noteq> Panicked"
    "out = Returned None \<Longrightarrow> fst (alphaDo c verb path body dec zero w) = Inr (snd st')"
    "\<And>e. out = Returned (Some e) \<Longrightarrow> fst (alphaDo c verb path body dec zero w) = Inl e"
proof -
  obtain out st' w' where d: "Do DefaultPolicy (alphaOp c verb path body dec) ((False, zero), w) = (out, (st', w'))"
    by (metis prod.collapse)
  have "good_policy DefaultPolicy"
    by (simp add: good_policy_def DefaultPolicy_def duration_units maxDuration_def)
  from Do_no_panic [OF this d] have "out \<noteq> Panicked" .
  with d show ?thesis
    by (intro that [OF d]) (auto simp: alphaDo_def split: outcome.split option.split prod.split)
qed

lemma alphaDo_traffic:
  "alphaTraffic c (alphaRequest c verb path body) w (snd (alphaDo c verb path body dec zero w))"
proof -
  obtain out st' w' where d: "Do DefaultPolicy (alphaOp c verb path body dec) ((False, zero), w) = (out, (st', w'))"
    "snd (alphaDo c verb path body dec zero w) = w'"
    using alphaDo_run [of c verb path body dec zero w] by metis
  from alpha_traffic.Do_R [OF alphaOp_traffic d(1)] show ?thesis by (simp add: d(2))
qed

text \<open>The adapter keeps to its endpoints. Whatever the network answers, one call of the request
  routine changes nothing of the database, the counters or the hub, and every request it sends is either
  one to the token endpoint, which carries no bearer token, or the same request of the adapter (verb, URL
  under the base URL, body) with a nonempty token. A retried command thus always carries the same body
  and request reference, and the token is never sent elsewhere.\<close>

theorem alphasense_request_confined:
  "let w' = snd (alphaDo c verb path body dec zero w) in
   w_db w' = w_db w \<and> w_metrics w' = w_metrics w \<and> w_hub w' = w_hub w \<and>
   (\<exists>rs. w_sent w' = w_sent w @ rs \<and>
      list_all (\<lambda>q. rq_url q = oc_TokenURL (ac_tokens c) \<and> rq_token q = [] \<or>
        rq_token q \<noteq> [] \<and> q = alphaRequest c verb path body (rq_token q)) rs)"
proof -
  let ?w' = "snd (alphaDo c verb path body dec zero w)"
  note t = alphaDo_traffic [of c verb path body w dec zero]
  then obtain rs where rs: "w_sent ?w' = w_sent w @ rs"
    "\<forall>q\<in>set rs. rq_url q = oc_TokenURL (ac_tokens c) \<and> rq_token q = [] \<or>
       (\<exists>t. t \<noteq> [] \<and> q = alphaRequest c verb path body t)"
    by (auto simp: alphaTraffic_def)
  have "list_all (\<lambda>q. rq_url q = oc_TokenURL (ac_tokens c) \<and> rq_token q = [] \<or>
        rq_token q \<noteq> [] \<and> q = alphaRequest c verb path body (rq_token q)) rs"
    unfolding list_all_iff
  proof
    fix q assume "q \<in> set rs"
    with rs(2) show "rq_url q = oc_TokenURL (ac_tokens c) \<and> rq_token q = [] \<or>
        rq_token q \<noteq> [] \<and> q = alphaRequest c verb path body (rq_token q)"
      by (fastforce simp: alphaRequest_def)
  qed
  with rs(1) t show ?thesis by (auto simp: Let_def alphaTraffic_def dest: outboundD)
qed

section \<open>Answers\<close>

text \<open>The first attempt with a cached token: one request, and the answer decides.\<close>

lemma AccessToken_cached:
  "token_Valid (w_token w) (fst (timeNow w)) \<Longrightarrow>
   AccessToken cfg w = (Inr (tk_AccessToken (w_token w)), snd (timeNow w))"
  by (simp add: AccessToken_def timeNow_def)

definition attempted :: "alpha_client \<Rightarrow> string \<Rightarrow> string \<Rightarrow> string \<Rightarrow> world \<Rightarrow> world" where
  "attempted c verb path body w =
     snd (http_do (alphaRequest c verb path body (tk_AccessToken (w_token w))) (snd (timeNow w)))"

lemma alphaOp_cached:
  assumes "token_Valid (w_token w) (fst (timeNow w))" "\<not> hc_badURL (ac_http c) (ac_baseURL c @ path)"
    "answers_next w 0 resp"
  shows "alphaOp c verb path body dec (st, w) =
    alphaAnswer verb path dec resp (st, attempted c verb path body w)"
  using assms AccessToken_cached [OF assms(1), of "ac_tokens c"]
  by (simp add: alphaOp_def attempted_def http_do_def answers_next_def timeNow_def)

lemma ctxErr_calm:
  assumes "never_cancelled w"
  obtains w1 where "ctxErr w = (None, w1)" "w1 = snd (ctxErr w)" "never_cancelled w1"
    "w_token w1 = w_token w" "w_net w1 = w_net w" "w_sent w1 = w_sent w" "w_clock w1 = w_clock w"
  using assms by (auto simp: ctxErr_def never_cancelled_def)

lemma alphaDo_first:
  assumes "never_cancelled w" "token_Valid (w_token w) (fst (timeNow w))"
    "\<not> hc_badURL (ac_http c) (ac_baseURL c @ path)" "answers_next w 0 resp"
    "alphaAnswer verb path dec resp ((False, zero), attempted c verb path body (snd (ctxErr w))) = (r, ((f, out), w'))"
    "\<not> retried r"
  shows "alphaDo c verb path body dec zero w = ((case r of None \<Rightarrow> Inr out | Some e \<Rightarrow> Inl e), w')"
proof -
  obtain w1 where c: "ctxErr w = (None, w1)" "w1 = snd (ctxErr w)" "w_token w1 = w_token w"
    "w_net w1 = w_net w" "w_clock w1 = w_clock w"
    using ctxErr_calm [OF assms(1)] by metis
  have "token_Valid (w_token w1) (fst (timeNow w1))" "answers_next w1 0 resp"
    using assms(2,4) c by (simp_all add: timeNow_def answers_next_def)
  from alphaOp_cached [OF this(1) assms(3) this(2), of verb body dec "(False, zero)"]
  have "alphaOp c verb path body dec ((False, zero), w1) = (r, ((f, out), w'))"
    using assms(5) c(2) by simp
  from Do_first [of w w1 "alphaOp c verb path body dec" "(False, zero)", OF c(1) this assms(6)]
  show ?thesis by (cases r) (simp_all add: alphaDo_def)
qed

text \<open>The second attempt after a first one that failed in passing.\<close>

lemma Do_second:
  assumes "2 \<le> pl_Attempts p" "ctxErr w = (None, w1)" "op (s, w1) = (Some e, (s2, w2))" "\<not> final_error e"
    "backoff p 0 w2 = (Some d, w3)" "ctxErr w3 = (None, w4)" "ctxErr w4 = (None, w5)"
    "op (s2, w5) = (r, sw)" "\<not> retried r"
  shows "Do p op (s, w) = (Returned r, sw)"
proof -
  have "max 1 (pl_Attempts p) = pl_Attempts p" using assms(1) by simp
  moreover obtain left where "nat (pl_Attempts p) - Suc 0 = Suc left"
    using assms(1) by (cases "nat (pl_Attempts p) - Suc 0") auto
  moreover have "Do_loop p n op 0 (Suc left) (s, w) = (Returned r, sw)" for n
    using assms(2-)
    by (cases r; cases left; cases sw) (auto simp: Do_loop_more Do_loop_last)
  ultimately show ?thesis by (simp add: Do_def Let_def)
qed

lemma backoff_default:
  obtains d w' where "backoff DefaultPolicy n w = (Some d, w')" "w_token w' = w_token w" "w_net w' = w_net w"
    "w_sent w' = w_sent w" "w_clock w' = w_clock w" "never_cancelled w' = never_cancelled w"
proof -
  have good: "good_policy DefaultPolicy"
    by (simp add: good_policy_def DefaultPolicy_def duration_units maxDuration_def)
  obtain r w' where b: "backoff DefaultPolicy n w = (r, w')" by fastforce
  from backoff_range [OF good b] obtain d where "r = Some d" by blast
  moreover have "w' = w \<or> w' = snd (randNext w)"
    using b by (auto simp: backoff_def rand_N_def split: if_splits prod.splits)
  ultimately show ?thesis
    using b by (intro that [of d w']) (auto simp: randNext_def never_cancelled_def)
qed

text \<open>The first attempt is refused and drops the token; the second one gets a new token and succeeds.\<close>

lemma alphaOp_refused:
  assumes "token_Valid (w_token w) (fst (timeNow w))" "\<not> hc_badURL (ac_http c) (ac_baseURL c @ path)"
    "answers_next w 0 no" "rs_status no = 401" "never_cancelled w"
  obtains w' where "alphaOp c verb path body dec ((False, zero), w) =
      (Some (Errorf ''alphasense 401, retrying with fresh token'' []), ((True, zero), w'))"
    "w_token w' = zeroToken" "w_net w' = (fst (w_net w), Suc (snd (w_net w)))" "never_cancelled w'"
    "w_sent w' = w_sent w @ [alphaRequest c verb path body (tk_AccessToken (w_token w))]"
proof -
  define w' where "w' = Invalidate (attempted c verb path body w)"
  from alphaOp_cached [OF assms(1-3), of verb body dec "(False, zero)"]
  have "alphaOp c verb path body dec ((False, zero), w) =
      (Some (Errorf ''alphasense 401, retrying with fresh token'' []), ((True, zero), w'))"
    using assms(4) by (simp add: alphaAnswer_def w'_def)
  then show thesis
    by (rule that) (use assms(5) in \<open>auto simp: w'_def attempted_def Invalidate_def http_do_def timeNow_def never_cancelled_def\<close>)
qed

lemma AccessToken_regranted:
  assumes "w_token w = zeroToken" "never_cancelled w" "\<not> hc_badURL (oc_client cfg) (oc_TokenURL cfg)"
    "answers_next w 0 granted" "rs_status granted = 200"
    "decodeTokenResponse (take 65536 (rs_body granted)) = (tr, True)" "tr_AccessToken tr \<noteq> []" "0 < tr_ExpiresIn tr"
  obtains w' where "AccessToken cfg w = (Inr (tr_AccessToken tr), w')"
    "w_sent w' = w_sent w @ [grantRequest cfg (grantForm cfg credentialsForm)]"
    "w_net w' = (fst (w_net w), Suc (snd (w_net w)))"
proof -
  obtain now v where t: "timeNow w = (now, v)" by fastforce
  then have v: "never_cancelled v" "answers_next v 0 granted" "w_token v = zeroToken" "w_sent v = w_sent w" "w_net v = w_net w"
    using assms(1,2,4) by (auto simp: timeNow_def never_cancelled_def answers_next_def)
  from grant_granted [OF v(1) assms(3) v(2) assms(5-8), of credentialsForm] obtain tok w' where
    g: "grant cfg credentialsForm v = (Inr tok, w')" "tk_AccessToken tok = tr_AccessToken tr"
    "w_sent w' = w_sent v @ [grantRequest cfg (grantForm cfg credentialsForm)]"
    "w_net w' = (fst (w_net v), Suc (snd (w_net v)))" by blast
  show thesis
  proof (rule that)
    show "AccessToken cfg w = (Inr (tr_AccessToken tr), w'\<lparr>w_token := tok\<rparr>)"
      using t g(1,2) v(3) assms(1)
      by (simp add: AccessToken_def obtainLocked_def obtainFresh_def token_Valid_def zeroToken_def)
  qed (use g(3,4) v(4,5) in simp_all)
qed

text \<open>C27: a revoked token heals itself. When the adapter's cached token looks valid but the provider
  answers 401, one call drops it, obtains a new one with client credentials and repeats the request:
  exactly three requests are sent and the call returns what the second answer holds.\<close>

theorem alphasense_recovers_from_401:
  assumes "token_Valid (w_token w) (fst (timeNow w))" "never_cancelled w"
    "\<not> hc_badURL (ac_http c) (ac_baseURL c @ path)"
    "\<not> hc_badURL (oc_client (ac_tokens c)) (oc_TokenURL (ac_tokens c))"
    "answers_next w 0 no" "rs_status no = 401"
    "answers_next w 1 granted" "rs_status granted = 200"
    "decodeTokenResponse (take 65536 (rs_body granted)) = (tr, True)"
    "tr_AccessToken tr \<noteq> []" "0 < tr_ExpiresIn tr"
    "answers_next w 2 yes" "200 \<le> rs_status yes" "rs_status yes < 300"
    "dec (take 1048576 (rs_body yes)) = Some v"
  shows "fst (alphaDo c verb path body dec zero w) = Inr v \<and>
    w_sent (snd (alphaDo c verb path body dec zero w)) = w_sent w @
      [alphaRequest c verb path body (tk_AccessToken (w_token w)),
       grantRequest (ac_tokens c) (grantForm (ac_tokens c) credentialsForm),
       alphaRequest c verb path body (tr_AccessToken tr)]"
proof -
  let ?op = "alphaOp c verb path body dec" and ?cfg = "ac_tokens c"
  obtain w1 where c1: "ctxErr w = (None, w1)" "never_cancelled w1" "w_token w1 = w_token w"
    "w_net w1 = w_net w" "w_sent w1 = w_sent w" "w_clock w1 = w_clock w"
    using ctxErr_calm [OF assms(2)] by metis
  then have "token_Valid (w_token w1) (fst (timeNow w1))" "answers_next w1 0 no"
    using assms(1,5) by (simp_all add: timeNow_def answers_next_def)
  from alphaOp_refused [OF this(1) assms(3) this(2) assms(6) c1(2), of verb body dec zero] obtain w2 where
    o1: "?op ((False, zero), w1) = (Some (Errorf ''alphasense 401, retrying with fresh token'' []), ((True, zero), w2))"
    and w2: "w_token w2 = zeroToken" "w_net w2 = (fst (w_net w), Suc (snd (w_net w)))" "never_cancelled w2"
      "w_sent w2 = w_sent w @ [alphaRequest c verb path body (tk_AccessToken (w_token w))]"
    unfolding c1 by blast
  obtain d w3 where b: "backoff DefaultPolicy 0 w2 = (Some d, w3)" "w_token w3 = w_token w2"
    "w_net w3 = w_net w2" "w_sent w3 = w_sent w2" "never_cancelled w3"
    using backoff_default [of 0 w2] w2(3) by metis
  obtain w4 where c4: "ctxErr w3 = (None, w4)" "never_cancelled w4" "w_token w4 = w_token w3"
    "w_net w4 = w_net w3" "w_sent w4 = w_sent w3"
    using ctxErr_calm [OF b(5)] by metis
  obtain w5 where c5: "ctxErr w4 = (None, w5)" "never_cancelled w5" "w_token w5 = w_token w4"
    "w_net w5 = w_net w4" "w_sent w5 = w_sent w4"
    using ctxErr_calm [OF c4(2)] by metis
  have "w_token w5 = zeroToken" "answers_next w5 0 granted"
    using assms(7) w2 b c4 c5 by (auto simp: answers_next_def)
  from AccessToken_regranted [OF this(1) c5(2) assms(4) this(2) assms(8-11)] obtain w6 where
    at: "AccessToken ?cfg w5 = (Inr (tr_AccessToken tr), w6)"
    and w6: "w_sent w6 = w_sent w5 @ [grantRequest ?cfg (grantForm ?cfg credentialsForm)]"
      "w_net w6 = (fst (w_net w5), Suc (snd (w_net w5)))" .
  define w8 where "w8 = snd (http_do (alphaRequest c verb path body (tr_AccessToken tr)) w6)"
  have o2: "?op ((True, zero), w5) = (None, ((True, v), w8))"
    using assms(3,12-15) at w6(2) w2 b c4 c5
    by (simp add: alphaOp_def http_do_def answers_next_def alphaAnswer_def w8_def)
  have "Do DefaultPolicy ?op ((False, zero), w) = (Returned None, ((True, v), w8))"
    by (rule Do_second [OF _ c1(1) o1 _ b(1) c4(1) c5(1) o2])
      (simp_all add: DefaultPolicy_def final_error_def)
  then show ?thesis using w6(1) w2(4) b(4) c4(5) c5(5) by (simp add: alphaDo_def w8_def http_do_def)
qed

definition demo_alpha :: alpha_client where
  "demo_alpha = newAlphaSense ''http://as/'' demo_oauth \<lparr>hc_badURL = (\<lambda>_. False)\<rparr>"

definition demo_token :: Token where
  "demo_token = \<lparr>tk_AccessToken = ''t1'', tk_RefreshToken = [], tk_Expiry = 100 * Second\<rparr>"

lemma demo_alpha_simps [simp]:
  "ac_baseURL demo_alpha = ''http://as''" "ac_tokens demo_alpha = demo_oauth"
  "\<not> hc_badURL (ac_http demo_alpha) u" "\<not> hc_badURL (oc_client demo_oauth) u"
  by (simp_all add: demo_alpha_def newAlphaSense_def trimSlashes_def byte_def demo_oauth_def)

lemma demo_token_valid [simp]: "token_Valid demo_token 1000" "tk_AccessToken demo_token = ''t1''"
  by (simp_all add: token_Valid_def demo_token_def time_Before_def time_Add_def expirySkew_def duration_units)

definition answering :: "(nat \<Rightarrow> http_response) \<Rightarrow> world" where
  "answering f = (calm (demo_db []))\<lparr>w_net := (\<lambda>n rq. Inr (f n), 0), w_token := demo_token\<rparr>"

lemma answering_simps [simp]:
  "never_cancelled (answering f)" "answers_next (answering f) k resp = (resp = f k)"
  "w_token (answering f) = demo_token" "fst (timeNow (answering f)) = 1000"
  by (auto simp: answering_def never_cancelled_def answers_next_def demo_world_def timeNow_def)

lemma alphasense_recovers_from_401_witness:
  "fst (alphaDo demo_alpha ''POST'' ''/x'' ''b'' (\<lambda>_. Some ()) ()
     (answering (\<lambda>n. if n = 0 then \<lparr>rs_status = 401, rs_body = []\<rparr>
        else if n = 1 then \<lparr>rs_status = 200, rs_body = demo_grant_body\<rparr>
        else \<lparr>rs_status = 202, rs_body = []\<rparr>))) = Inr ()"
proof -
  have body: "take 65536 demo_grant_body = demo_grant_body"
    by (simp add: demo_grant_body_def)
  have "decodeTokenResponse demo_grant_body =
      (\<lparr>tr_AccessToken = ''t2'', tr_RefreshToken = [], tr_ExpiresIn = 60, tr_Error = []\<rparr>, True)"
    by (simp add: decodeTokenResponse_def demo_grant_body_def json_run decode_run)
  then show ?thesis
    by (intro alphasense_recovers_from_401 [where no = "\<lparr>rs_status = 401, rs_body = []\<rparr>" and
          granted = "\<lparr>rs_status = 200, rs_body = demo_grant_body\<rparr>" and yes = "\<lparr>rs_status = 202, rs_body = []\<rparr>" and
          tr = "\<lparr>tr_AccessToken = ''t2'', tr_RefreshToken = [], tr_ExpiresIn = 60, tr_Error = []\<rparr>",
          THEN conjunct1]) (simp_all add: body)
qed

section \<open>A malformed alert\<close>

lemma FetchEvents_reports:
  assumes "alphaGet c (alertsPath since) unmarshalAlerts w = (Inr as, w1)" "a \<in> set as"
    "normalizeAlert a t = Inl e"
  obtains evs err w2 where "FetchEvents c since w = ((evs, Some err), w2)" "w_db w2 = w_db w"
proof -
  obtain now w2 where now: "timeNow w1 = (now, w2)" by fastforce
  let ?rs = "map (\<lambda>a. normalizeAlert a now) as"
  obtain e' where "normalizeAlert a now = Inl e'"
    using normalizeAlert_time [of a t now] assms(3) by blast
  then have "Inl e' \<in> set ?rs" using assms(2) by (metis image_eqI list.set_map)
  then obtain err where err: "firstErr ?rs = Some err" using firstErr_None [of ?rs] by blast
  have "w_db w1 = w_db w"
    using alphaDo_traffic [of c "''GET''" "alertsPath since" "[]" w unmarshalAlerts "[]"] assms(1)
    by (auto simp: alphaGet_def alphaTraffic_def dest: outboundD)
  moreover have "w_db w2 = w_db w1" using w_db_env(1) [of w1] now by simp
  ultimately show ?thesis
    by (intro that [of "accepted ?rs" err w2]) (simp_all add: FetchEvents_def assms(1) now err Let_def)
qed

text \<open>C37: one malformed alert holds up all of them. If the provider's list of alerts holds one entry that
  normalization rejects, the cycle hands none of the other alerts on, stores nothing of them and keeps its
  watermark, so the next cycle asks for the same window again.\<close>

theorem malformed_alert_stalls:
  assumes "pr_Provider p = alphaProvider c"
    "alphaGet c (alertsPath (time_Add since (- pr_Overlap p))) unmarshalAlerts
       (metricInc (ProviderRequests ProviderAlphaSense ''fetch_events'') (pollDevices p (snd (timeNow w)))) = (Inr as, w1)"
    "a \<in> set as" "normalizeAlert a t = Inl e"
  shows "offers p since w = None \<and> fst (cycle p since w) = since \<and>
    w_db (snd (cycle p since w)) = w_db (pollDevices p (snd (timeNow w)))"
proof -
  obtain evs err w2 where f: "FetchEvents c (time_Add since (- pr_Overlap p))
      (metricInc (ProviderRequests ProviderAlphaSense ''fetch_events'') (pollDevices p (snd (timeNow w)))) =
      ((evs, Some err), w2)" "w_db w2 = w_db (pollDevices p (snd (timeNow w)))"
    using FetchEvents_reports [OF assms(2-4)] by (metis w_db_env(7))
  moreover obtain start w0 where "timeNow w = (start, w0)" by fastforce
  ultimately show ?thesis
    by (simp add: offers_def cycle_def pollEvents_def assms(1) alphaProvider_def Let_def)
qed

lemma attempted_simps [simp]:
  "w_token (attempted c verb path body w) = w_token w"
  "never_cancelled (attempted c verb path body w) = never_cancelled w"
  "answers_next (attempted c verb path body w) k resp = answers_next w (Suc k) resp"
  "fst (w_clock (attempted c verb path body w)) = fst (w_clock w)"
  by (simp_all add: attempted_def http_do_def timeNow_def never_cancelled_def answers_next_def)

lemma step_simps [simp]:
  "never_cancelled (snd (ctxErr w)) = never_cancelled w" "never_cancelled (snd (timeNow w)) = never_cancelled w"
  "never_cancelled (metricInc m w) = never_cancelled w"
  "answers_next (snd (ctxErr w)) k resp = answers_next w k resp"
  "answers_next (snd (timeNow w)) k resp = answers_next w k resp"
  "answers_next (metricInc m w) k resp = answers_next w k resp"
  "w_token (snd (ctxErr w)) = w_token w" "w_token (snd (timeNow w)) = w_token w"
  "w_token (metricInc m w) = w_token w"
  "fst (w_clock (snd (ctxErr w))) = fst (w_clock w)" "fst (w_clock (snd (timeNow w))) = fst (w_clock w)"
  "fst (w_clock (metricInc m w)) = fst (w_clock w)"
  by (simp_all add: environment_defs metricInc_def never_cancelled_def answers_next_def)

lemma cached_always: "(\<forall>n. fst (w_clock w) n = 1000) \<Longrightarrow> fst (timeNow w) = 1000"
  by (simp add: timeNow_def draw_def)

lemma answering_clock [simp]: "fst (w_clock (answering f)) n = 1000"
  by (simp add: answering_def demo_world_def)

definition demo_bad_alerts :: string where
  "demo_bad_alerts = ''{\"alerts\":[{\"alert_id\":\"a1\",\"category\":\"flood\"}]}''"

definition demo_alpha_poller :: poller where
  "demo_alpha_poller = \<lparr>pr_Provider = alphaProvider demo_alpha, pr_Devices = UpsertDevice,
     pr_Events = AcceptFromProvider storage_event_store, pr_Interval = 10, pr_Overlap = 100\<rparr>"

lemma malformed_alert_stalls_witness:
  "fst (cycle demo_alpha_poller 500 (answering (\<lambda>n. if n = 0 then \<lparr>rs_status = 404, rs_body = []\<rparr>
     else \<lparr>rs_status = 200, rs_body = demo_bad_alerts\<rparr>))) = 500"
proof -
  let ?w = "answering (\<lambda>n. if n = 0 then \<lparr>rs_status = 404, rs_body = []\<rparr>
     else \<lparr>rs_status = 200, rs_body = demo_bad_alerts\<rparr>)"
  let ?bad = "zeroAlert\<lparr>wa_AlertID := ''a1'', wa_Category := ''flood''\<rparr>"
  define v where "v = metricInc (ProviderRequests ProviderAlphaSense ''fetch_devices'') (snd (timeNow ?w))"
  define v1 where "v1 = attempted demo_alpha ''GET'' ''/api/v2/units'' [] (snd (ctxErr v))"
  have v: "never_cancelled v" "token_Valid (w_token v) (fst (timeNow v))"
    "answers_next v 0 \<lparr>rs_status = 404, rs_body = []\<rparr>"
    "answers_next v 1 \<lparr>rs_status = 200, rs_body = demo_bad_alerts\<rparr>"
    by (simp_all add: v_def cached_always)
  have "\<exists>e. alphaGet demo_alpha ''/api/v2/units'' unmarshalUnits v = (Inl e, v1)"
    unfolding alphaGet_def using v
    by (subst alphaDo_first) (auto simp: alphaAnswer_def v1_def final_error_def)
  then obtain e where units: "alphaGet demo_alpha ''/api/v2/units'' unmarshalUnits v = (Inl e, v1)" ..
  define m where "m = ProviderRequestErrors ProviderAlphaSense ''fetch_devices'' (errKind e)"
  have w1: "pollDevices demo_alpha_poller (snd (timeNow ?w)) = metricInc m v1"
    using units by (simp add: pollDevices_def demo_alpha_poller_def alphaProvider_def FetchDevices_def v_def m_def)
  define u where "u = metricInc (ProviderRequests ProviderAlphaSense ''fetch_events'') (metricInc m v1)"
  have u: "never_cancelled u" "token_Valid (w_token u) (fst (timeNow u))"
    "answers_next u 0 \<lparr>rs_status = 200, rs_body = demo_bad_alerts\<rparr>"
    using v by (simp_all add: u_def v1_def cached_always v_def)
  have dec: "unmarshalAlerts (take 1048576 demo_bad_alerts) = Some [?bad]"
    by (simp add: unmarshalAlerts_def unmarshalList_def demo_bad_alerts_def json_run decode_run listStep_def
        alertStep_def zeroAlert_def)
  have "\<exists>w1. alphaGet demo_alpha (alertsPath 400) unmarshalAlerts u = (Inr [?bad], w1)"
    unfolding alphaGet_def using u dec
    by (subst alphaDo_first) (auto simp: alphaAnswer_def final_error_def)
  then obtain w1' where "alphaGet demo_alpha (alertsPath (time_Add 500 (- pr_Overlap demo_alpha_poller)))
      unmarshalAlerts (metricInc (ProviderRequests ProviderAlphaSense ''fetch_events'')
        (pollDevices demo_alpha_poller (snd (timeNow ?w)))) = (Inr [?bad], w1')"
    unfolding w1 u_def [symmetric] by (auto simp: demo_alpha_poller_def time_Add_def)
  from malformed_alert_stalls [OF _ this, of ?bad 0] show ?thesis
    by (simp add: demo_alpha_poller_def normalizeAlert_def alertType_def)
qed

section \<open>Requests for alerts and instructions\<close>

text \<open>The window of a poll survives the wire. For any instant of the years 0 to 9999 the query of
  the alert request carries, escaped, a text that the RFC 3339 parser reads back as that instant rounded
  down to the whole second: the provider is asked for a window that starts no later than intended and
  less than a second earlier.\<close>

theorem since_roundtrip:
  assumes "civil (since div 1000000000 div 86400) = (y, m, d)" "0 \<le> y" "y < 10000"
  shows "\<exists>txt t. alertsPath since = ''/api/v2/alerts?since='' @ queryEscape txt \<and>
    parseRFC3339 txt = Some t \<and> t \<le> since \<and> since < t + Second"
proof -
  let ?t = "since div 1000000000 * 1000000000"
  have "alertsPath since = ''/api/v2/alerts?since='' @ queryEscape (formatRFC3339 since)"
    by (simp add: alertsPath_def formEncode_def queryEscape_def isUnreserved_def byte_def)
  moreover have "?t \<le> since \<and> since < ?t + Second"
    using div_mult_mod_eq [of since 1000000000] pos_mod_bound [of 1000000000 since]
      pos_mod_sign [of 1000000000 since] by (simp add: Second_def) linarith
  ultimately show ?thesis using parse_format [OF assms] by blast
qed

lemma since_roundtrip_witness:
  "\<exists>txt t. alertsPath 1704067200500000000 = ''/api/v2/alerts?since='' @ queryEscape txt \<and>
    parseRFC3339 txt = Some t \<and> t \<le> 1704067200500000000 \<and> 1704067200500000000 < t + Second"
proof -
  have "civil ((1704067200500000000 :: Time) div 1000000000 div 86400) = (2024, 1, 1)"
    by (simp add: civil_def epochDay_def Let_def splitYear.simps yearLen_def leapYear_def monthLens_def)
  from since_roundtrip [OF this] show ?thesis by simp
qed

lemma instructionOf_vocabulary: "instructionOf t = [] \<longleftrightarrow> \<not> ValidCommandType t"
  by (auto simp: instructionOf_def ValidCommandType_def)

text \<open>The outcome of a pushed command, whatever the network does.\<close>

lemma alphaSendCommand_outcome:
  "case alphaSendCommand c ext cmd w of (r, w') \<Rightarrow>
     w_db w' = w_db w \<and>
     (if ValidCommandType (c_Type cmd)
      then (\<forall>state msg. r = Inr (state, msg) \<longrightarrow> state = CommandDelivered \<and> msg = Str ''accepted by alphasense'') \<and>
           alphaTraffic c (alphaRequest c ''POST'' (instructionsPath ext)
             (instructionBody (instructionOf (c_Type cmd)) cmd)) w w'
      else (\<exists>e. r = Inl (Permanent e)) \<and> w' = w)"
proof (cases "ValidCommandType (c_Type cmd)")
  case False
  then show ?thesis by (simp add: alphaSendCommand_def instructionOf_vocabulary)
next
  case True
  let ?body = "instructionBody (instructionOf (c_Type cmd)) cmd"
  obtain r w1 where d: "alphaDo c ''POST'' (instructionsPath ext) ?body (\<lambda>_. Some ()) () w = (r, w1)"
    by fastforce
  then have t: "alphaTraffic c (alphaRequest c ''POST'' (instructionsPath ext) ?body) w w1"
    using alphaDo_traffic [of c "''POST''" "instructionsPath ext" ?body w "\<lambda>_. Some ()" "()"] by simp
  then have "w_db w1 = w_db w" by (auto simp: alphaTraffic_def dest: outboundD)
  with True d t show ?thesis
    by (cases r) (simp_all add: alphaSendCommand_def instructionOf_vocabulary Let_def)
qed

end
