(* ===== verification/Migrate.thy ===== *)
theory Migrate
  imports Demo "HOL-Library.Char_ord" "HOL-Library.List_Lexorder"
begin

text \<open>
  Start-up of the storage layer (\<^verbatim>\<open>Open\<close>, \<^verbatim>\<open>Ping\<close> and \<^verbatim>\<open>migrate\<close> of
  \<^verbatim>\<open>internal/storage/storage.go\<close>). A migration is its file name and what PostgreSQL makes of its
  SQL text, a parameter; a transaction works on a copy of the tables that \<^verbatim>\<open>Commit\<close> installs.
\<close>

type_synonym script = "Time \<Rightarrow> database \<Rightarrow> error + database"
type_synonym migration = "string \<times> script"

section \<open>Transactions\<close>

text \<open>A statement of a transaction; any error aborts it, and the copy is dropped.\<close>

definition tx_exec :: "script \<Rightarrow> database \<Rightarrow> world \<Rightarrow> database res \<times> world" where
  "tx_exec stmt db w =
     (let (now, w1) = sqlNow w;
          (flt, w2) = nextFault w1
      in case flt of
           NoFault \<Rightarrow> (stmt now db, w2)
         | FailBefore d \<Rightarrow> (Inl (Driver d), w2)
         | FailAfter d \<Rightarrow> (Inl (Driver d), w2))"

definition tx_begin :: "world \<Rightarrow> database res \<times> world" where
  "tx_begin w =
     (let (flt, w1) = nextFault w
      in case flt of
           NoFault \<Rightarrow> (Inr (w_db w1), w1)
         | FailBefore d \<Rightarrow> (Inl (Driver d), w1)
         | FailAfter d \<Rightarrow> (Inl (Driver d), w1))"

text \<open>The connection can be lost before the server commits, or after.\<close>

definition tx_commit :: "database \<Rightarrow> world \<Rightarrow> error option \<times> world" where
  "tx_commit db w =
     (let (flt, w1) = nextFault w
      in case flt of
           NoFault \<Rightarrow> (None, w1\<lparr>w_db := db\<rparr>)
         | FailBefore d \<Rightarrow> (Some (Driver d), w1)
         | FailAfter d \<Rightarrow> (Some (Driver d), w1\<lparr>w_db := db\<rparr>))"

section \<open>Migrations\<close>

definition createMigrations_sql :: "unit stmt" where
  "createMigrations_sql now db = Inr ((), db)"

definition migrationApplied_sql :: "string \<Rightarrow> bool stmt" where
  "migrationApplied_sql name now db = Inr (name \<in> set (t_migrations db), db)"

definition recordMigration_sql :: "string \<Rightarrow> script" where
  "recordMigration_sql name now db =
     (if name \<in> set (t_migrations db) then Inl (unique_violation)
      else Inr (db\<lparr>t_migrations := t_migrations db @ [name]\<rparr>))"

definition applyMigration :: "migration \<Rightarrow> world \<Rightarrow> error option \<times> world" where
  "applyMigration m w =
     (case tx_begin w of
        (Inl e, w1) \<Rightarrow> (Some e, w1)
      | (Inr db, w1) \<Rightarrow>
          (case tx_exec (snd m) db w1 of
             (Inl e, w2) \<Rightarrow> (Some (Wrapf ''applying %s: %w'' [AStr (fst m)] e), w2)
           | (Inr db1, w2) \<Rightarrow>
               (case tx_exec (recordMigration_sql (fst m)) db1 w2 of
                  (Inl e, w3) \<Rightarrow> (Some e, w3)
                | (Inr db2, w3) \<Rightarrow> tx_commit db2 w3)))"

fun migrateAll :: "migration list \<Rightarrow> world \<Rightarrow> error option \<times> world" where
  "migrateAll [] w = (None, w)"
| "migrateAll (m # ms) w =
     (case exec_sql (migrationApplied_sql (fst m)) w of
        (Inl e, w1) \<Rightarrow> (Some e, w1)
      | (Inr True, w1) \<Rightarrow> migrateAll ms w1
      | (Inr False, w1) \<Rightarrow>
          (case applyMigration m w1 of
             (Some e, w2) \<Rightarrow> (Some e, w2)
           | (None, w2) \<Rightarrow> migrateAll ms w2))"

definition migrate :: "migration list \<Rightarrow> world \<Rightarrow> error option \<times> world" where
  "migrate files w =
     (case exec_sql createMigrations_sql w of
        (Inl e, w1) \<Rightarrow> (Some e, w1)
      | (Inr _, w1) \<Rightarrow> migrateAll (sort_key fst files) w1)"

definition Ping :: "world \<Rightarrow> error option \<times> world" where
  "Ping w =
     (case exec_sql (\<lambda>now db. Inr ((), db)) w of
        (Inl e, w1) \<Rightarrow> (Some e, w1)
      | (Inr _, w1) \<Rightarrow> (None, w1))"

text \<open>What \<^verbatim>\<open>pgxpool\<close> says of the URL, and of building the pool, are parameters.\<close>

record pool_params =
  pp_ParseConfig :: "string \<Rightarrow> error option"
  pp_NewWithConfig :: "string \<Rightarrow> error option"

definition Open :: "pool_params \<Rightarrow> migration list \<Rightarrow> string \<Rightarrow> world \<Rightarrow> error option \<times> world" where
  "Open pool files url w =
     (case pp_ParseConfig pool url of
        Some e \<Rightarrow> (Some (Wrapf ''parsing DATABASE_URL: %w'' [] e), w)
      | None \<Rightarrow>
          (case pp_NewWithConfig pool url of
             Some e \<Rightarrow> (Some e, w)
           | None \<Rightarrow>
               (case Ping w of
                  (Some e, w1) \<Rightarrow> (Some (Wrapf ''database unreachable: %w'' [] e), w1)
                | (None, w1) \<Rightarrow>
                    (case migrate files w1 of
                       (Some e, w2) \<Rightarrow> (Some (Wrapf ''migrating: %w'' [] e), w2)
                     | (None, w2) \<Rightarrow> (None, w2)))))"

section \<open>Each migration once, in order\<close>

text \<open>\<open>migrated ms db db'\<close>: \<open>db'\<close> results from the scripts of \<open>ms\<close>, each recorded after its effect.\<close>

inductive migrated :: "migration list \<Rightarrow> database \<Rightarrow> database \<Rightarrow> bool" where
  none: "migrated [] db db"
| one: "snd m now db = Inr db1 \<Longrightarrow>
    migrated ms (db1\<lparr>t_migrations := t_migrations db1 @ [fst m]\<rparr>) db' \<Longrightarrow> migrated (m # ms) db db'"

inductive_cases migrated_ConsE: "migrated (m # ms) db db'"

lemma migrated_append:
  "migrated ms db db1 \<Longrightarrow> migrated ns db1 db' \<Longrightarrow> migrated (ms @ ns) db db'"
  by (induction rule: migrated.induct) (auto intro: migrated.intros)

text \<open>The bookkeeping of a script list: names distinct, and no script touches the record of versions.\<close>

definition well_behaved :: "migration list \<Rightarrow> bool" where
  "well_behaved ms \<longleftrightarrow> distinct (map fst ms) \<and>
     (\<forall>m\<in>set ms. \<forall>now db db'. snd m now db = Inr db' \<longrightarrow> t_migrations db' = t_migrations db)"

lemma recordMigration_Inr:
  "recordMigration_sql name now db = Inr db' \<Longrightarrow> db' = db\<lparr>t_migrations := t_migrations db @ [name]\<rparr>"
  by (simp add: recordMigration_sql_def split: if_splits)

lemma applyMigration_effect:
  assumes "applyMigration m w = (r, w')"
  shows "w_db w' = w_db w \<and> r \<noteq> None \<or> migrated [m] (w_db w) (w_db w')"
proof -
  have env: "nextFault v = (f, v') \<Longrightarrow> w_db v' = w_db v" "sqlNow v = (t, v') \<Longrightarrow> w_db v' = w_db v" for v v' f t
    by (auto simp: environment_defs)
  obtain b w1 where b: "tx_begin w = (b, w1)" by fastforce
  then have w1: "w_db w1 = w_db w" "b = Inr db \<Longrightarrow> db = w_db w" for db
    using env by (auto simp: tx_begin_def split: prod.splits fault.splits)
  have exec: "w_db v' = w_db v" "x = Inr db2 \<Longrightarrow> \<exists>now. s now db1 = Inr db2"
    if "tx_exec s db1 v = (x, v')" for s db1 v x v' db2
    using that env by (auto simp: tx_exec_def split: prod.splits fault.splits)
  show ?thesis
  proof (cases b)
    case (Inl e)
    with assms b w1 show ?thesis by (auto simp: applyMigration_def)
  next
    case (Inr db)
    obtain x w2 where x: "tx_exec (snd m) db w1 = (x, w2)" by fastforce
    show ?thesis
    proof (cases x)
      case (Inl e)
      with assms b Inr x w1 exec(1) [OF x] show ?thesis by (auto simp: applyMigration_def)
    next
      case X: (Inr db1)
      obtain y w3 where y: "tx_exec (recordMigration_sql (fst m)) db1 w2 = (y, w3)" by fastforce
      show ?thesis
      proof (cases y)
        case (Inl e)
        with assms b Inr x X y w1 exec(1) [OF x] exec(1) [OF y] show ?thesis by (auto simp: applyMigration_def)
      next
        case Y: (Inr db2)
        have c: "tx_commit db2 w3 = (r, w')" using assms b Inr x X y Y by (simp add: applyMigration_def)
        obtain now now2 where "snd m now db = Inr db1" "recordMigration_sql (fst m) now2 db1 = Inr db2"
          using exec(2) [OF x X] exec(2) [OF y Y] by blast
        then have "migrated [m] (w_db w) db2"
          using w1(2) [OF Inr] recordMigration_Inr migrated.intros by metis
        moreover have "w_db w3 = w_db w" using exec(1) [OF x] exec(1) [OF y] w1 by simp
        ultimately show ?thesis
          using c env by (auto simp: tx_commit_def split: prod.splits fault.splits)
      qed
    qed
  qed
qed

lemma migrated_one:
  assumes "migrated [m] db db'" "well_behaved (dn @ m # ms)"
  shows "t_migrations db' = t_migrations db @ [fst m]"
  using assms by (auto elim!: migrated_ConsE elim: migrated.cases simp: well_behaved_def)

text \<open>One step of the loop: the statement fails, the migration is on record already, or it is applied.\<close>

lemma migrateAll_Cons_cases:
  assumes "migrateAll (m # ms) w = (r, w')" "well_behaved (dn @ m # ms)"
  obtains (failed) "r \<noteq> None" "w_db w' = w_db w"
  | (recorded) w1 where "fst m \<in> set (t_migrations (w_db w))" "w_db w1 = w_db w" "migrateAll ms w1 = (r, w')"
  | (stuck) "fst m \<notin> set (t_migrations (w_db w))" "r \<noteq> None" "migrated [m] (w_db w) (w_db w')"
      "t_migrations (w_db w') = t_migrations (w_db w) @ [fst m]"
  | (applied) w1 where "fst m \<notin> set (t_migrations (w_db w))" "migrated [m] (w_db w) (w_db w1)"
      "t_migrations (w_db w1) = t_migrations (w_db w) @ [fst m]" "migrateAll ms w1 = (r, w')"
proof -
  obtain b w1 where x: "exec_sql (migrationApplied_sql (fst m)) w = (b, w1)" by fastforce
  then have w1: "w_db w1 = w_db w" "b = Inr t \<Longrightarrow> t \<longleftrightarrow> fst m \<in> set (t_migrations (w_db w))" for t
    by (auto simp: exec_sql_def migrationApplied_sql_def environment_defs Let_def split: fault.splits)
  obtain r1 w2 where a: "applyMigration m w1 = (r1, w2)" by fastforce
  consider e where "b = Inl e" | "b = Inr True" | "b = Inr False" by (cases b) auto
  then show thesis
  proof cases
    case 1
    with assms(1) x w1 show thesis by (intro failed) auto
  next
    case 2
    with assms(1) x w1 show thesis by (intro recorded [of w1]) simp_all
  next
    case 3
    then have fresh: "fst m \<notin> set (t_migrations (w_db w))" using w1(2) [of False] by simp
    have rest: "case r1 of None \<Rightarrow> migrateAll ms w2 = (r, w') | Some e \<Rightarrow> r \<noteq> None \<and> w' = w2"
      using assms(1) x 3 a by (auto split: option.splits)
    show thesis
    proof (cases "w_db w2 = w_db w1 \<and> r1 \<noteq> None")
      case True
      with rest w1 show thesis by (intro failed) (auto split: option.splits)
    next
      case False
      then have one: "migrated [m] (w_db w) (w_db w2)" using applyMigration_effect [OF a] w1 by auto
      note t2 = migrated_one [OF one assms(2)]
      show thesis
        using rest stuck [OF fresh] applied [OF fresh one t2] one t2 by (cases r1) auto
    qed
  qed
qed

lemma migrateAll_effect:
  assumes "migrateAll ms w = (r, w')" "t_migrations (w_db w) = map fst (dn @ take j ms)"
    "well_behaved (dn @ ms)" "j \<le> length ms"
  shows "\<exists>k\<ge>j. k \<le> length ms \<and> t_migrations (w_db w') = map fst (dn @ take k ms) \<and>
    migrated (take (k - j) (drop j ms)) (w_db w) (w_db w') \<and> (r \<noteq> None \<or> k = length ms)"
  using assms
proof (induction ms arbitrary: dn j w)
  case Nil
  then show ?case by (simp add: migrated.none)
next
  case (Cons m ms)
  have wb: "well_behaved ((dn @ [m]) @ ms)" using Cons.prems(3) by simp
  have j: "fst m \<in> set (t_migrations (w_db w)) \<longleftrightarrow> j \<noteq> 0"
    using Cons.prems(2,3) by (cases j) (auto simp: well_behaved_def)
  from Cons.prems(1,3) show ?case
  proof (cases rule: migrateAll_Cons_cases)
    case failed
    with Cons.prems show ?thesis by (intro exI [of _ j]) (auto intro: migrated.none)
  next
    case (recorded w1)
    then obtain i where i: "j = Suc i" using j by (cases j) auto
    from Cons.IH [OF recorded(3) _ wb, of i] Cons.prems(2,4) recorded(2) i
    obtain k where "i \<le> k" "k \<le> length ms" "t_migrations (w_db w') = map fst ((dn @ [m]) @ take k ms)"
      "migrated (take (k - i) (drop i ms)) (w_db w) (w_db w')" "r \<noteq> None \<or> k = length ms" by auto
    then show ?thesis using i by (intro exI [of _ "Suc k"]) auto
  next
    case stuck
    with Cons.prems(2) j show ?thesis by (intro exI [of _ 1]) simp
  next
    case (applied w1)
    then have 0: "j = 0" using j by simp
    with applied(3) Cons.prems(2) have "t_migrations (w_db w1) = map fst ((dn @ [m]) @ take 0 ms)" by simp
    from Cons.IH [OF applied(4) this wb] obtain k where "k \<le> length ms"
      "t_migrations (w_db w') = map fst ((dn @ [m]) @ take k ms)"
      "migrated (take k ms) (w_db w1) (w_db w')" "r \<noteq> None \<or> k = length ms" by auto
    then show ?thesis
      using migrated_append [OF applied(2), of "take k ms" "w_db w'"] 0 by (intro exI [of _ "Suc k"]) simp
  qed
qed

text \<open>C30: every migration takes effect exactly once, in the order of the names. However often the process
  is restarted and whichever statements or commits fail, a call of migrate on a database that holds the
  first k migrations leaves one that holds the first k', obtained from it by the scripts in between, each
  applied once and recorded with its effect; when the call succeeds none is missing.\<close>

theorem migrate_once:
  assumes "migrate files w = (r, w')" "sort_key fst files = ms" "well_behaved ms"
    "t_migrations (w_db w) = map fst (take k ms)" "k \<le> length ms"
  shows "\<exists>k'. k \<le> k' \<and> k' \<le> length ms \<and> t_migrations (w_db w') = map fst (take k' ms) \<and>
    migrated (take (k' - k) (drop k ms)) (w_db w) (w_db w') \<and> (r \<noteq> None \<or> k' = length ms)"
proof -
  obtain b w1 where x: "exec_sql createMigrations_sql w = (b, w1)" by fastforce
  then have w1: "w_db w1 = w_db w"
    by (auto simp: exec_sql_def createMigrations_sql_def environment_defs Let_def split: fault.splits)
  show ?thesis
  proof (cases b)
    case (Inl e)
    then have "r \<noteq> None" "w' = w1" using assms(1) x by (auto simp: migrate_def)
    then show ?thesis using w1 assms(4,5) by (intro exI [of _ k]) (simp add: migrated.none)
  next
    case (Inr u)
    then have "migrateAll ms w1 = (r, w')" using assms(1,2) x by (simp add: migrate_def)
    from migrateAll_effect [OF this, of "[]" k] assms(3-5) w1 show ?thesis by auto
  qed
qed

text \<open>The repository's one migration, on a database it has not reached, with the answer to the commit lost.\<close>

definition demo_migration :: migration where
  "demo_migration = (''0001_init.sql'', \<lambda>now db. if t_devices db = [] then Inr db else Inl (PgError ''duplicate_table''))"

lemma migrate_once_witness:
  "t_migrations (w_db (snd (migrate [demo_migration]
     (demo_world (\<lambda>n. if n = 5 then FailAfter DrvCanceled else NoFault) empty_database)))) = [''0001_init.sql'']"
proof -
  let ?w = "demo_world (\<lambda>n. if n = 5 then FailAfter DrvCanceled else NoFault) empty_database"
  have run: "t_migrations (w_db (snd (migrate [demo_migration] ?w))) \<noteq> []"
    by (simp add: migrate_def demo_migration_def exec_sql_def createMigrations_sql_def migrationApplied_sql_def
        applyMigration_def tx_begin_def tx_exec_def tx_commit_def recordMigration_sql_def environment_defs
        demo_world_def empty_database_def Let_def)
  obtain r w' where m: "migrate [demo_migration] ?w = (r, w')" by fastforce
  have "well_behaved [demo_migration]" by (auto simp: well_behaved_def demo_migration_def split: if_splits)
  from migrate_once [OF m _ this, of 0] obtain k' where
    "k' \<le> 1" "t_migrations (w_db w') = map fst (take k' [demo_migration])"
    by (auto simp: empty_database_def)
  then show ?thesis using m run by (cases k') (auto simp: demo_migration_def)
qed

end
