(* ===== verification/Observability.thy ===== *)
theory Observability
  imports HttpServer Metrics Calendar Migrate
begin

text \<open>
  The HTTP side of \<^verbatim>\<open>internal/observability/observability.go\<close>: correlation identifiers, the
  middleware around every handler, liveness and readiness, and the choice of the log level.
  Log lines are not modelled beyond the attributes a logger carries.
\<close>

section \<open>Correlation\<close>

text \<open>A context carries at most one request identifier; a deadline is the business of \<open>ctxErr\<close>.\<close>

type_synonym context_values = "string option"

definition WithRequestID :: "context_values \<Rightarrow> string \<Rightarrow> context_values" where
  "WithRequestID ctx rid = Some rid"

definition RequestID :: "context_values \<Rightarrow> string" where
  "RequestID ctx = (case ctx of Some rid \<Rightarrow> rid | None \<Rightarrow> [])"

type_synonym logger = "(string \<times> string) list"

definition LoggerFrom :: "context_values \<Rightarrow> logger \<Rightarrow> logger" where
  "LoggerFrom ctx base =
     (let rid = RequestID ctx in if rid \<noteq> [] then base @ [(''request_id'', rid)] else base)"

datatype log_level = LevelDebug | LevelInfo | LevelWarn | LevelError

definition NewLogger :: "string \<Rightarrow> log_level" where
  "NewLogger level =
     (if level = ''debug'' then LevelDebug
      else if level = ''warn'' then LevelWarn
      else if level = ''error'' then LevelError
      else LevelInfo)"

section \<open>Middleware\<close>

text \<open>
  The recorder forwards \<^verbatim>\<open>WriteHeader\<close> and remembers the code; a handler that never calls it
  answers 200.
\<close>

record statusRecorder =
  sr_status :: int

definition newRecorder :: statusRecorder where
  "newRecorder = \<lparr>sr_status = StatusOK\<rparr>"

definition WriteHeader :: "int \<Rightarrow> statusRecorder \<Rightarrow> statusRecorder" where
  "WriteHeader code r = r\<lparr>sr_status := code\<rparr>"

definition incomingID :: "http_in \<Rightarrow> world \<Rightarrow> string \<times> world" where
  "incomingID rq w =
     (let rid = in_header rq ''X-Request-ID'' in if rid = [] then uuidNew w else (rid, w))"

text \<open>The reply with its \<^verbatim>\<open>X-Request-ID\<close> header. The histogram counts one sample per request.\<close>

definition Middleware :: "handler \<Rightarrow> string \<Rightarrow> http_in \<Rightarrow> world \<Rightarrow> (string \<times> http_reply) \<times> world" where
  "Middleware nextHandler route rq w =
     (let (rid, w1) = incomingID rq w;
          (start, w2) = timeNow w1;
          (reply, w3) = nextHandler rq w2;
          rec = WriteHeader (rp_status reply) newRecorder;
          (stop, w4) = timeNow w3
      in ((rid, reply), metricInc (HTTPDuration route (in_method rq) (itoa (sr_status rec))) w4))"

section \<open>Health\<close>

definition statusDoc :: "string \<Rightarrow> json" where
  "statusDoc s = JObj [(''status'', JStr s)]"

definition HealthHandler :: handler where
  "HealthHandler rq w = (jsonReply StatusOK (statusDoc ''ok''), w)"

definition ReadyHandler :: "(world \<Rightarrow> error option \<times> world) \<Rightarrow> handler" where
  "ReadyHandler ready rq w =
     (case ready w of
        (Some err, w1) \<Rightarrow> (jsonReply StatusServiceUnavailable (statusDoc ''unavailable''), w1)
      | (None, w1) \<Rightarrow> (jsonReply StatusOK (statusDoc ''ready''), w1))"

section \<open>What they promise\<close>

lemma natOf_digits_inj: "natDigits m = natDigits n \<Longrightarrow> m = n"
  by (metis natOf_natDigits)

text \<open>The middleware is transparent and traceable. The answer is exactly what the wrapped handler
  answers, run on a world in which only a clock was read and an identifier may have been drawn; the
  database ends as that handler left it. The correlation identifier is the caller's when it sent one and
  a fresh one otherwise, and exactly one sample is counted, under the static route and the status that was
  answered.\<close>

theorem Middleware_correct:
  "case Middleware nextHandler route rq w of ((rid, reply), w') \<Rightarrow>
     \<exists>w2 w3. nextHandler rq w2 = (reply, w3) \<and> w_db w2 = w_db w \<and> w_metrics w2 = w_metrics w \<and>
       w_hub w2 = w_hub w \<and> w_db w' = w_db w3 \<and> w_hub w' = w_hub w3 \<and>
       rid = (if in_header rq ''X-Request-ID'' = [] then fst (uuidNew w) else in_header rq ''X-Request-ID'') \<and>
       w_metrics w' = Inc (HTTPDuration route (in_method rq) (itoa (rp_status reply))) (w_metrics w3)"
proof -
  obtain rid w1 where i: "incomingID rq w = (rid, w1)" by fastforce
  then have rid: "rid = (if in_header rq ''X-Request-ID'' = [] then fst (uuidNew w) else in_header rq ''X-Request-ID'')"
    and w1: "w_db w1 = w_db w" "w_metrics w1 = w_metrics w" "w_hub w1 = w_hub w"
    by (auto simp: incomingID_def Let_def uuidNew_def split: if_splits)
  obtain start w2 where t: "timeNow w1 = (start, w2)" by fastforce
  then have w2: "w_db w2 = w_db w1" "w_metrics w2 = w_metrics w1" "w_hub w2 = w_hub w1"
    by (auto simp: timeNow_def)
  obtain reply w3 where n: "nextHandler rq w2 = (reply, w3)" by fastforce
  obtain stop w4 where t': "timeNow w3 = (stop, w4)" by fastforce
  then have w4: "w_db w4 = w_db w3" "w_metrics w4 = w_metrics w3" "w_hub w4 = w_hub w3"
    by (auto simp: timeNow_def)
  have run: "Middleware nextHandler route rq w =
      ((rid, reply), metricInc (HTTPDuration route (in_method rq) (itoa (rp_status reply))) w4)"
    by (simp add: Middleware_def i t n t' WriteHeader_def newRecorder_def)
  show ?thesis
    unfolding run prod.case
    by (rule exI [of _ w2], rule exI [of _ w3]) (simp add: rid w1 w2 w4 n metricInc_def)
qed

text \<open>Readiness tells whether the database answers; asking changes nothing.\<close>

lemma Ping_db: "w_db (snd (Ping w)) = w_db w"
  by (auto simp: Ping_def exec_sql_def environment_defs Let_def split: fault.split)

lemma ready_iff_ping:
  "rp_status (fst (ReadyHandler Ping rq w)) = (if fst (Ping w) = None then 200 else 503)"
  "w_db (snd (ReadyHandler Ping rq w)) = w_db w"
  using Ping_db [of w] by (auto simp: ReadyHandler_def split: prod.splits option.split)

end
