(* ===== verification/Aes.thy ===== *)
theory Aes
  imports Json "HOL-Library.Word"
begin

text \<open>
  AES-256 in Galois/Counter mode as \<^verbatim>\<open>crypto/aes\<close> and \<^verbatim>\<open>crypto/cipher\<close> compute it, with the
  standard nonce of twelve bytes, the tag of sixteen and no additional data. The substitution box is
  computed from its definition in the field of 256 elements.
\<close>

unbundle bit_operations_syntax

section \<open>The field of 256 elements\<close>

type_synonym u8 = "8 word"

definition xtime :: "u8 \<Rightarrow> u8" where
  "xtime a = push_bit 1 a XOR (if bit a 7 then 27 else 0)"

fun gfMulN :: "nat \<Rightarrow> u8 \<Rightarrow> u8 \<Rightarrow> u8" where
  "gfMulN 0 a b = 0"
| "gfMulN (Suc n) a b = (if bit b 0 then a else 0) XOR gfMulN n (xtime a) (drop_bit 1 b)"

definition gfMul :: "u8 \<Rightarrow> u8 \<Rightarrow> u8" where "gfMul a b = gfMulN 8 a b"

text \<open>The inverse is the power 254, the product of the powers 2, 4, 8 up to 128.\<close>

fun gfSquares :: "nat \<Rightarrow> u8 \<Rightarrow> u8" where
  "gfSquares 0 a = 1"
| "gfSquares (Suc n) a = (let s = gfMul a a in gfMul s (gfSquares n s))"

definition gfInv :: "u8 \<Rightarrow> u8" where "gfInv a = gfSquares 7 a"

definition sbox :: "u8 \<Rightarrow> u8" where
  "sbox a = (let b = gfInv a
     in b XOR word_rotl 1 b XOR word_rotl 2 b XOR word_rotl 3 b XOR word_rotl 4 b XOR 99)"

section \<open>AES-256\<close>

definition xorBytes :: "u8 list \<Rightarrow> u8 list \<Rightarrow> u8 list" where
  "xorBytes a b = map2 (XOR) a b"

definition rcon :: "nat \<Rightarrow> u8" where "rcon i = push_bit i 1"

text \<open>The next word of the key schedule after those before it, each of four bytes.\<close>

definition nextKeyWord :: "u8 list list \<Rightarrow> u8 list" where
  "nextKeyWord ws =
     (let i = length ws; t = last ws;
          t' = (if i mod 8 = 0 then xorBytes (map sbox (rotate1 t)) [rcon (i div 8 - 1), 0, 0, 0]
                else if i mod 8 = 4 then map sbox t else t)
      in xorBytes (ws ! (i - 8)) t')"

fun extendKey :: "nat \<Rightarrow> u8 list list \<Rightarrow> u8 list list" where
  "extendKey 0 ws = ws"
| "extendKey (Suc n) ws = extendKey n (ws @ [nextKeyWord ws])"

fun groups :: "nat \<Rightarrow> nat \<Rightarrow> 'a list \<Rightarrow> 'a list list" where
  "groups 0 k xs = []"
| "groups (Suc n) k xs = take k xs # groups n k (drop k xs)"

text \<open>Eight words of key, fifty-two more, and fifteen round keys of sixteen bytes.\<close>

definition roundKeys :: "u8 list \<Rightarrow> u8 list list" where
  "roundKeys key = groups 15 16 (concat (extendKey 52 (groups 8 4 key)))"

text \<open>The state is in column order: byte \<open>r + 4 * c\<close> is row \<open>r\<close> of column \<open>c\<close>.\<close>

definition shiftRows :: "u8 list \<Rightarrow> u8 list" where
  "shiftRows s = map (\<lambda>i. s ! ((i + 4 * (i mod 4)) mod 16)) [0..<16]"

definition mixByte :: "u8 list \<Rightarrow> nat \<Rightarrow> u8" where
  "mixByte s i =
     (let c = i div 4 * 4; a = (\<lambda>k. s ! (c + (i + k) mod 4))
      in gfMul 2 (a 0) XOR gfMul 3 (a 1) XOR a 2 XOR a 3)"

definition mixColumns :: "u8 list \<Rightarrow> u8 list" where
  "mixColumns s = map (mixByte s) [0..<16]"

definition addKey :: "u8 list \<Rightarrow> u8 list \<Rightarrow> u8 list" where
  "addKey k s = map (\<lambda>i. s ! i XOR k ! i) [0..<16]"

fun aesRounds :: "u8 list list \<Rightarrow> u8 list \<Rightarrow> u8 list" where
  "aesRounds [] s = s"
| "aesRounds [k] s = addKey k (shiftRows (map sbox s))"
| "aesRounds (k # ks) s = aesRounds ks (addKey k (mixColumns (shiftRows (map sbox s))))"

definition aesBlock :: "u8 list \<Rightarrow> u8 list \<Rightarrow> u8 list" where
  "aesBlock key block =
     (let ks = roundKeys key in aesRounds (tl ks) (addKey (hd ks) block))"

lemma length_aesRounds: "length s = 16 \<Longrightarrow> length (aesRounds ks s) = 16"
  by (induction ks s rule: aesRounds.induct) (simp_all add: addKey_def)

lemma length_aesBlock [simp]: "length (aesBlock key block) = 16"
  by (simp add: aesBlock_def Let_def length_aesRounds addKey_def)

section \<open>GCM\<close>

type_synonym u128 = "128 word"

definition be128 :: "u8 list \<Rightarrow> u128" where
  "be128 bs = foldl (\<lambda>a b. push_bit 8 a OR ucast b) 0 bs"

definition bytes128 :: "u128 \<Rightarrow> u8 list" where
  "bytes128 w = map (\<lambda>i. ucast (drop_bit (120 - 8 * i) w)) [0..<16]"

definition be32 :: "32 word \<Rightarrow> u8 list" where
  "be32 w = map (\<lambda>i. ucast (drop_bit (24 - 8 * i) w)) [0..<4]"

definition be64 :: "nat \<Rightarrow> u8 list" where
  "be64 n = map (\<lambda>i. of_nat (n div 2 ^ (56 - 8 * i))) [0..<8]"

text \<open>The product of GHASH: the leftmost bit of a block is the coefficient of degree zero.\<close>

definition gcmR :: u128 where "gcmR = push_bit 120 225"

fun ghMul :: "nat \<Rightarrow> u128 \<Rightarrow> u128 \<Rightarrow> u128 \<Rightarrow> u128" where
  "ghMul 0 x v z = z"
| "ghMul (Suc n) x v z =
     ghMul n x (if bit v 0 then drop_bit 1 v XOR gcmR else drop_bit 1 v) (if bit x n then z XOR v else z)"

fun ghash :: "u128 \<Rightarrow> u128 \<Rightarrow> u8 list list \<Rightarrow> u128" where
  "ghash h y [] = y"
| "ghash h y (b # bs) = ghash h (ghMul 128 (y XOR be128 b) h 0) bs"

definition blocks16 :: "u8 list \<Rightarrow> u8 list list" where
  "blocks16 data = groups ((length data + 15) div 16) 16 (data @ replicate (15 - (length data + 15) mod 16) 0)"

function ctrXor :: "u8 list \<Rightarrow> u8 list \<Rightarrow> 32 word \<Rightarrow> u8 list \<Rightarrow> u8 list" where
  "ctrXor key nonce c data =
     (if data = [] then []
      else xorBytes (take 16 data) (aesBlock key (nonce @ be32 c)) @ ctrXor key nonce (c + 1) (drop 16 data))"
  by auto
termination by (relation "measure (\<lambda>(k, n, c, d). length d)") auto

declare ctrXor.simps [simp del]

lemma ctrXor_Nil [simp]: "ctrXor key nonce c [] = []"
  by (subst ctrXor.simps) simp

lemma ctrXor_more:
  "data \<noteq> [] \<Longrightarrow> ctrXor key nonce c data =
     xorBytes (take 16 data) (aesBlock key (nonce @ be32 c)) @ ctrXor key nonce (c + 1) (drop 16 data)"
  by (subst ctrXor.simps) simp

definition gcmTag :: "u8 list \<Rightarrow> u8 list \<Rightarrow> u8 list \<Rightarrow> u8 list" where
  "gcmTag key nonce ct =
     (let h = be128 (aesBlock key (replicate 16 0));
          s = ghash h 0 (blocks16 ct @ [be64 0 @ be64 (8 * length ct)])
      in xorBytes (bytes128 s) (aesBlock key (nonce @ be32 1)))"

definition nonceSize :: nat where "nonceSize = 12"

definition tagSize :: nat where "tagSize = 16"

definition gcmSeal :: "u8 list \<Rightarrow> u8 list \<Rightarrow> u8 list \<Rightarrow> u8 list" where
  "gcmSeal key nonce plain = (let ct = ctrXor key nonce 2 plain in ct @ gcmTag key nonce ct)"

definition gcmOpen :: "u8 list \<Rightarrow> u8 list \<Rightarrow> u8 list \<Rightarrow> u8 list option" where
  "gcmOpen key nonce data =
     (if length data < tagSize then None
      else let n = length data - tagSize; ct = take n data
           in if drop n data = gcmTag key nonce ct then Some (ctrXor key nonce 2 ct) else None)"

section \<open>Opening what was sealed\<close>

lemma length_xorBytes [simp]: "length (xorBytes a b) = min (length a) (length b)"
  by (simp add: xorBytes_def)

lemma xorBytes_twice: "length a \<le> length k \<Longrightarrow> xorBytes (xorBytes a k) k = a"
  unfolding xorBytes_def
proof (induction a arbitrary: k)
  case (Cons x a)
  then obtain y k' where "k = y # k'" by (cases k) auto
  with Cons show ?case by (simp add: xor.assoc)
qed simp

lemma ctrXor_twice: "ctrXor key nonce c (ctrXor key nonce c data) = data"
proof (induction key nonce c data rule: ctrXor.induct)
  case (1 key nonce c data)
  show ?case
  proof (cases "data = []")
    case True
    then show ?thesis by simp
  next
    case False
    let ?k = "aesBlock key (nonce @ be32 c)"
    let ?first = "xorBytes (take 16 data) ?k" and ?rest = "ctrXor key nonce (c + 1) (drop 16 data)"
    have enc: "ctrXor key nonce c data = ?first @ ?rest" by (rule ctrXor_more [OF False])
    have "0 < length ?first" using False by simp
    then have nonempty: "?first \<noteq> []" by (simp only: length_greater_0_conv not_False_eq_True)
    have split: "take 16 (?first @ ?rest) = ?first \<and> drop 16 (?first @ ?rest) = ?rest"
    proof (cases "length data \<le> 16")
      case True
      then have "drop 16 data = []" by simp
      then have "?rest = []" by (simp only: ctrXor_Nil)
      with True show ?thesis by simp
    qed simp
    have "ctrXor key nonce c (?first @ ?rest) = xorBytes ?first ?k @ ctrXor key nonce (c + 1) ?rest"
    proof -
      have "?first @ ?rest \<noteq> []" using nonempty by simp
      from ctrXor_more [OF this] split show ?thesis by (simp only: simp_thms)
    qed
    also have "\<dots> = take 16 data @ drop 16 data"
      using "1.IH" [OF False] xorBytes_twice [of "take 16 data" ?k] by simp
    finally show ?thesis by (simp add: enc)
  qed
qed

lemma length_gcmTag [simp]: "length (gcmTag key nonce ct) = 16"
  by (simp add: gcmTag_def Let_def bytes128_def)

lemma gcmOpen_seal [simp]: "gcmOpen key nonce (gcmSeal key nonce plain) = Some plain"
  by (simp add: gcmOpen_def gcmSeal_def Let_def tagSize_def ctrXor_twice)

text \<open>Whatever opens carries the tag of its ciphertext.\<close>

lemma gcmOpen_authentic:
  assumes "gcmOpen key nonce data = Some plain"
  shows "data = gcmSeal key nonce plain"
proof -
  let ?n = "length data - tagSize"
  from assms have "drop ?n data = gcmTag key nonce (take ?n data)" "plain = ctrXor key nonce 2 (take ?n data)"
    by (auto simp: gcmOpen_def Let_def split: if_splits)
  then show ?thesis by (metis append_take_drop_id ctrXor_twice gcmSeal_def)
qed

end
