(* ===== verification/Connections.thy ===== *)
theory Connections
  imports Aes Demo
begin

text \<open>
  Provider connections at rest: the token cipher (\<^verbatim>\<open>internal/storage/crypto.go\<close>) and the two
  methods of \<^verbatim>\<open>internal/storage/storage.go\<close> that store and load connection state. A Go byte
  slice is None for nil; \<^verbatim>\<open>rand.Read\<close> takes its bytes from the random source.
\<close>

section \<open>The token cipher\<close>

type_synonym token_cipher = "u8 list"

definition toBytes :: "string \<Rightarrow> u8 list" where
  "toBytes s = map (\<lambda>c. of_nat (byte c)) s"

definition fromBytes :: "u8 list \<Rightarrow> string" where
  "fromBytes bs = map (\<lambda>b. char_of (unat b)) bs"

definition NewTokenCipher :: "string \<Rightarrow> token_cipher res" where
  "NewTokenCipher key =
     (if length key \<noteq> 32
      then Inl (Errorf ''token cipher key must be 32 bytes, got %d'' [AInt (int (length key))])
      else Inr (toBytes key))"

fun readRandom :: "nat \<Rightarrow> world \<Rightarrow> u8 list \<times> world" where
  "readRandom 0 w = ([], w)"
| "readRandom (Suc n) w =
     (let (r, w1) = randNext w; (bs, w2) = readRandom n w1 in (of_nat r # bs, w2))"

definition Encrypt :: "token_cipher \<Rightarrow> string \<Rightarrow> world \<Rightarrow> string option \<times> world" where
  "Encrypt c plaintext w =
     (if plaintext = [] then (None, w)
      else let (nonce, w1) = readRandom nonceSize w
           in (Some (fromBytes (nonce @ gcmSeal c nonce (toBytes plaintext))), w1))"

definition openError :: error where
  "openError = Errorf ''cipher: message authentication failed'' []"

definition Decrypt :: "token_cipher \<Rightarrow> string option \<Rightarrow> string res" where
  "Decrypt c data =
     (case data of
        None \<Rightarrow> Inr []
      | Some s \<Rightarrow>
          if s = [] then Inr []
          else if length s < nonceSize then Inl (Errorf ''ciphertext shorter than nonce'' [])
          else let bs = toBytes s
               in case gcmOpen c (take nonceSize bs) (drop nonceSize bs) of
                    None \<Rightarrow> Inl (Wrapf ''decrypting token: %w'' [] openError)
                  | Some plain \<Rightarrow> Inr (fromBytes plain))"

section \<open>Connection state\<close>

definition nullableTime :: "Time \<Rightarrow> Time option" where
  "nullableTime t = (if IsZero t then None else Some t)"

definition orDefault :: "string \<Rightarrow> string \<Rightarrow> string" where
  "orDefault s def = (if s = [] then def else s)"

text \<open>The three ciphertexts, or the error of a missing cipher.\<close>

definition encryptTokens ::
  "token_cipher option \<Rightarrow> ProviderConnection \<Rightarrow> world \<Rightarrow> (string option \<times> string option \<times> string option) res \<times> world" where
  "encryptTokens cipher pc w =
     (if pc_AccessToken pc \<noteq> [] \<or> pc_RefreshToken pc \<noteq> [] \<or> pc_WebhookSecret pc \<noteq> [] then
        (case cipher of
           None \<Rightarrow> (Inl (Errorf ''token cipher required to store credentials'' []), w)
         | Some c \<Rightarrow>
             (let (access, w1) = Encrypt c (pc_AccessToken pc) w;
                  (refresh, w2) = Encrypt c (pc_RefreshToken pc) w1;
                  (secret, w3) = Encrypt c (pc_WebhookSecret pc) w2
              in (Inr (access, refresh, secret), w3)))
      else (Inr (None, None, None), w))"

definition saveConnection_sql :: "pg_params \<Rightarrow> connection_row \<Rightarrow> unit stmt" where
  "saveConnection_sql pg r now db =
     with_uuid pg (cn_id r) (\<lambda>u.
       let same = (\<lambda>q. cn_provider q = cn_provider r);
           row = r\<lparr>cn_id := u, cn_token_expiry := map_option (pg_time pg) (cn_token_expiry r), cn_updated_at := now\<rparr>
       in if list_ex same (t_connections db)
          then Inr ((), db\<lparr>t_connections :=
                 update_where same (\<lambda>q. row\<lparr>cn_id := cn_id q\<rparr>) (t_connections db)\<rparr>)
          else if u \<in> cn_id ` set (t_connections db) then Inl unique_violation
          else Inr ((), db\<lparr>t_connections := t_connections db @ [row]\<rparr>))"

definition withConnectionID :: "ProviderConnection \<Rightarrow> world \<Rightarrow> ProviderConnection \<times> world" where
  "withConnectionID pc w =
     (if pc_ID pc = [] then let (uid, w1) = uuidNew w in (pc\<lparr>pc_ID := uid\<rparr>, w1) else (pc, w))"

definition SaveProviderConnection ::
  "ProviderConnection \<Rightarrow> token_cipher option \<Rightarrow> world \<Rightarrow> unit res \<times> world" where
  "SaveProviderConnection pc0 cipher w =
     (let (pc, w1) = withConnectionID pc0 w
      in case encryptTokens cipher pc w1 of
           (Inl e, w2) \<Rightarrow> (Inl e, w2)
         | (Inr (access, refresh, secret), w2) \<Rightarrow>
             exec_sql (saveConnection_sql (w_pg w2)
               \<lparr>cn_id = pc_ID pc, cn_provider = pc_Provider pc, cn_base_url = pc_BaseURL pc,
                cn_access_token_enc = access, cn_refresh_token_enc = refresh,
                cn_token_expiry = nullableTime (pc_TokenExpiry pc), cn_webhook_secret_enc = secret,
                cn_status = orDefault (pc_Status pc) ''ACTIVE'', cn_updated_at = zeroTime\<rparr>) w2)"

definition getConnection_sql :: "ProviderName \<Rightarrow> connection_row stmt" where
  "getConnection_sql p now db = select_one (\<lambda>r. cn_provider r = p) (\<lambda>r. r) (t_connections db) db"

text \<open>Without a cipher the three secrets stay empty.\<close>

definition decryptTokens :: "token_cipher option \<Rightarrow> connection_row \<Rightarrow> ProviderConnection \<Rightarrow> ProviderConnection res" where
  "decryptTokens cipher r pc =
     (case cipher of
        None \<Rightarrow> Inr pc
      | Some c \<Rightarrow>
          (case Decrypt c (cn_access_token_enc r) of
             Inl e \<Rightarrow> Inl e
           | Inr access \<Rightarrow>
               (case Decrypt c (cn_refresh_token_enc r) of
                  Inl e \<Rightarrow> Inl e
                | Inr refresh \<Rightarrow>
                    (case Decrypt c (cn_webhook_secret_enc r) of
                       Inl e \<Rightarrow> Inl e
                     | Inr secret \<Rightarrow>
                         Inr (pc\<lparr>pc_AccessToken := access, pc_RefreshToken := refresh,
                                pc_WebhookSecret := secret\<rparr>)))))"

definition scan_connection_row :: "connection_row \<Rightarrow> ProviderConnection" where
  "scan_connection_row r =
     \<lparr>pc_ID = cn_id r, pc_Provider = cn_provider r, pc_BaseURL = cn_base_url r, pc_AccessToken = [],
      pc_RefreshToken = [],
      pc_TokenExpiry = (case cn_token_expiry r of None \<Rightarrow> zeroTime | Some t \<Rightarrow> t),
      pc_WebhookSecret = [], pc_Status = cn_status r, pc_UpdatedAt = cn_updated_at r\<rparr>"

definition GetProviderConnection ::
  "ProviderName \<Rightarrow> token_cipher option \<Rightarrow> world \<Rightarrow> ProviderConnection res \<times> world" where
  "GetProviderConnection p cipher w =
     (case exec_sql (getConnection_sql p) w of
        (Inl e, w1) \<Rightarrow> (if errIs e ErrNoRows then (Inl (Sentinel ErrNotFound), w1) else (Inl e, w1))
      | (Inr r, w1) \<Rightarrow> (decryptTokens cipher r (scan_connection_row r), w1))"

section \<open>What was saved is loaded\<close>

lemma bytes_inverse [simp]: "toBytes (fromBytes bs) = bs" "fromBytes (toBytes s) = s"
proof -
  have "of_nat (byte (char_of (unat b))) = b" for b :: u8
  proof -
    have "unat b < 256" using unsigned_less [of b] by simp
    then show ?thesis by (simp add: byte_def)
  qed
  then show "toBytes (fromBytes bs) = bs" by (simp add: toBytes_def fromBytes_def map_idI)
  have "unat (of_nat (byte c) :: u8) = byte c" for c
    using of_char_mod_256 [of c, where ?'a = nat] by (simp add: byte_def unat_of_nat)
  then show "fromBytes (toBytes s) = s" by (simp add: toBytes_def fromBytes_def byte_def map_idI)
qed

lemma bytes_length [simp]: "length (toBytes s) = length s" "length (fromBytes bs) = length bs"
  by (simp_all add: toBytes_def fromBytes_def)

lemma length_readRandom: "readRandom n w = (bs, w') \<Longrightarrow> length bs = n"
  by (induction n arbitrary: w bs) (auto simp: Let_def split: prod.splits)

lemma readRandom_frame:
  "readRandom n w = (bs, w') \<Longrightarrow> w_db w' = w_db w \<and> w_pg w' = w_pg w \<and> w_faults w' = w_faults w"
proof (induction n arbitrary: w bs)
  case (Suc n)
  then show ?case by (auto simp: Let_def randNext_def split: prod.splits)
qed simp

text \<open>A stored column: absent for an empty token, otherwise a nonce and the sealing under it.\<close>

definition sealed :: "token_cipher \<Rightarrow> string \<Rightarrow> string option \<Rightarrow> bool" where
  "sealed c plain data \<longleftrightarrow>
     (if plain = [] then data = None
      else \<exists>nonce. length nonce = nonceSize \<and>
             data = Some (fromBytes (nonce @ gcmSeal c nonce (toBytes plain))))"

lemma fromBytes_Nil [simp]: "fromBytes bs = [] \<longleftrightarrow> bs = []"
  by (simp add: fromBytes_def)

lemma sealed_decrypts:
  assumes "sealed c plain data"
  shows "Decrypt c data = Inr plain"
proof (cases "plain = []")
  case True
  with assms show ?thesis by (simp add: sealed_def Decrypt_def)
next
  case False
  with assms obtain nonce where n: "length nonce = nonceSize"
    "data = Some (fromBytes (nonce @ gcmSeal c nonce (toBytes plain)))" by (auto simp: sealed_def)
  then have "nonce \<noteq> []" by (auto simp: nonceSize_def)
  with n show ?thesis by (simp add: Decrypt_def)
qed

lemma Encrypt_sealed:
  assumes "Encrypt c plain w = (data, w')"
  shows "sealed c plain data" "w_db w' = w_db w \<and> w_pg w' = w_pg w \<and> w_faults w' = w_faults w"
  using assms readRandom_frame [of nonceSize w] length_readRandom [of nonceSize w]
  by (auto simp: Encrypt_def sealed_def split: if_splits prod.splits)

text \<open>What decrypts was sealed under the same key: nothing else has the right tag.\<close>

lemma Decrypt_authentic:
  assumes "Decrypt c (Some data) = Inr plain" "data \<noteq> []"
  shows "\<exists>nonce. length nonce = nonceSize \<and> data = fromBytes (nonce @ gcmSeal c nonce (toBytes plain))"
proof -
  let ?bs = "toBytes data" and ?nonce = "take nonceSize (toBytes data)"
  from assms have len: "nonceSize \<le> length data" and
    opened: "gcmOpen c ?nonce (drop nonceSize ?bs) = Some (toBytes plain)"
    by (auto simp: Decrypt_def Let_def not_less split: if_splits option.splits)
  from gcmOpen_authentic [OF opened] have "?bs = ?nonce @ gcmSeal c ?nonce (toBytes plain)"
    by (metis append_take_drop_id)
  then have "data = fromBytes (?nonce @ gcmSeal c ?nonce (toBytes plain))"
    by (metis bytes_inverse(2))
  then show ?thesis using len by (intro exI [of _ ?nonce]) simp
qed

lemma encryptTokens_sealed:
  assumes "encryptTokens (Some c) pc w = (Inr (access, refresh, secret), w')"
  shows "sealed c (pc_AccessToken pc) access \<and> sealed c (pc_RefreshToken pc) refresh \<and>
    sealed c (pc_WebhookSecret pc) secret \<and> w_db w' = w_db w \<and> w_pg w' = w_pg w \<and> w_faults w' = w_faults w"
proof (cases "pc_AccessToken pc \<noteq> [] \<or> pc_RefreshToken pc \<noteq> [] \<or> pc_WebhookSecret pc \<noteq> []")
  case True
  with assms obtain w1 w2 where "Encrypt c (pc_AccessToken pc) w = (access, w1)"
    "Encrypt c (pc_RefreshToken pc) w1 = (refresh, w2)" "Encrypt c (pc_WebhookSecret pc) w2 = (secret, w')"
    by (auto simp: encryptTokens_def split: prod.splits)
  from this [THEN Encrypt_sealed(1)] this [THEN Encrypt_sealed(2)] show ?thesis by simp
next
  case False
  with assms show ?thesis by (auto simp: encryptTokens_def sealed_def)
qed

lemma find_append1: "List.find p t = None \<Longrightarrow> List.find p (t @ [x]) = (if p x then Some x else None)"
  by (induction t) (auto split: if_splits)

lemma find_updated_where:
  "(\<And>r. p (f r)) \<Longrightarrow> List.find p (update_where p f t) = map_option f (List.find p t)"
  by (induction t) auto

lemma saveConnection_found:
  assumes "saveConnection_sql pg r now db = Inr (u, db')"
  shows "\<exists>row. List.find (\<lambda>q. cn_provider q = cn_provider r) (t_connections db') = Some row \<and>
    cn_provider row = cn_provider r \<and> cn_base_url row = cn_base_url r \<and>
    cn_access_token_enc row = cn_access_token_enc r \<and> cn_refresh_token_enc row = cn_refresh_token_enc r \<and>
    cn_webhook_secret_enc row = cn_webhook_secret_enc r \<and> cn_status row = cn_status r \<and>
    cn_token_expiry row = map_option (pg_time pg) (cn_token_expiry r)"
proof (cases "list_ex (\<lambda>q. cn_provider q = cn_provider r) (t_connections db)")
  case True
  then obtain q where q: "List.find (\<lambda>q. cn_provider q = cn_provider r) (t_connections db) = Some q"
    by (cases "List.find (\<lambda>q. cn_provider q = cn_provider r) (t_connections db)") (auto simp: find_None_iff list_ex_iff)
  from assms True obtain v where "db' = db\<lparr>t_connections := update_where (\<lambda>q. cn_provider q = cn_provider r)
      (\<lambda>q. r\<lparr>cn_token_expiry := map_option (pg_time pg) (cn_token_expiry r), cn_updated_at := now,
        cn_id := cn_id q\<rparr>) (t_connections db)\<rparr>"
    by (auto simp: saveConnection_sql_def with_uuid_def Let_def split: option.splits)
  then show ?thesis using q find_SomeD [OF q] by (simp add: find_updated_where)
next
  case False
  then have none: "List.find (\<lambda>q. cn_provider q = cn_provider r) (t_connections db) = None"
    by (auto simp: find_None_iff list_ex_iff)
  from assms False show ?thesis
    by (auto simp: saveConnection_sql_def with_uuid_def Let_def find_append1 [OF none] split: option.splits if_splits)
qed

text \<open>The row that is stored, and what decrypting its sealed columns gives.\<close>

lemma decryptTokens_sealed:
  assumes "sealed c a (cn_access_token_enc row)" "sealed c r (cn_refresh_token_enc row)" "sealed c s (cn_webhook_secret_enc row)"
  shows "decryptTokens (Some c) row pc = Inr (pc\<lparr>pc_AccessToken := a, pc_RefreshToken := r, pc_WebhookSecret := s\<rparr>)"
  using assms [THEN sealed_decrypts] by (simp add: decryptTokens_def)

lemma SaveProviderConnection_stores:
  assumes "SaveProviderConnection pc (Some c) w = (Inr (), w')"
  obtains row where "List.find (\<lambda>q. cn_provider q = pc_Provider pc) (t_connections (w_db w')) = Some row"
    "cn_provider row = pc_Provider pc" "cn_base_url row = pc_BaseURL pc"
    "cn_status row = orDefault (pc_Status pc) ''ACTIVE''"
    "cn_token_expiry row = map_option (pg_time (w_pg w)) (nullableTime (pc_TokenExpiry pc))"
    "sealed c (pc_AccessToken pc) (cn_access_token_enc row)" "sealed c (pc_RefreshToken pc) (cn_refresh_token_enc row)"
    "sealed c (pc_WebhookSecret pc) (cn_webhook_secret_enc row)"
proof -
  obtain pc1 w1 where i: "withConnectionID pc w = (pc1, w1)" by fastforce
  then have pc1: "pc1 = pc\<lparr>pc_ID := pc_ID pc1\<rparr>" "w_pg w1 = w_pg w"
    by (auto simp: withConnectionID_def uuidNew_def split: if_splits)
  with i assms(1) obtain access refresh secret w2 where e:
    "encryptTokens (Some c) pc1 w1 = (Inr (access, refresh, secret), w2)"
    by (auto simp: SaveProviderConnection_def split: sum.splits prod.splits)
  define r where "r = \<lparr>cn_id = pc_ID pc1, cn_provider = pc_Provider pc1, cn_base_url = pc_BaseURL pc1,
    cn_access_token_enc = access, cn_refresh_token_enc = refresh, cn_token_expiry = nullableTime (pc_TokenExpiry pc1),
    cn_webhook_secret_enc = secret, cn_status = orDefault (pc_Status pc1) ''ACTIVE'', cn_updated_at = zeroTime\<rparr>"
  from i e assms(1) have "exec_sql (saveConnection_sql (w_pg w2) r) w2 = (Inr (), w')"
    by (simp add: SaveProviderConnection_def r_def)
  from exec_sql_Inr [OF this] obtain now where "saveConnection_sql (w_pg w2) r now (w_db w2) = Inr ((), w_db w')"
    by auto
  from saveConnection_found [OF this] obtain row where row:
    "List.find (\<lambda>q. cn_provider q = cn_provider r) (t_connections (w_db w')) = Some row"
    "cn_provider row = cn_provider r" "cn_base_url row = cn_base_url r"
    "cn_access_token_enc row = access" "cn_refresh_token_enc row = refresh" "cn_webhook_secret_enc row = secret"
    "cn_status row = cn_status r" "cn_token_expiry row = map_option (pg_time (w_pg w2)) (cn_token_expiry r)"
    by (auto simp: r_def)
  have fields: "pc_Provider pc1 = pc_Provider pc" "pc_BaseURL pc1 = pc_BaseURL pc" "pc_Status pc1 = pc_Status pc"
    "pc_AccessToken pc1 = pc_AccessToken pc" "pc_RefreshToken pc1 = pc_RefreshToken pc"
    "pc_WebhookSecret pc1 = pc_WebhookSecret pc" "pc_TokenExpiry pc1 = pc_TokenExpiry pc"
    by (subst pc1, simp)+
  show thesis
    using encryptTokens_sealed [OF e] row fields pc1(2) by (intro that [of row]) (simp_all add: r_def)
qed


definition demo_connection :: ProviderConnection where
  "demo_connection = zeroProviderConnection\<lparr>pc_Provider := ProviderAlphaSense, pc_AccessToken := ''t''\<rparr>"


end
