(* ===== verification/Safety.thy ===== *)
theory Safety
  imports Migrate Observability Connections AlphaSense CommandService Webhook Ingest GrpcApi
begin

text \<open>
  What every operation of the connector may do to the shared state: the tables change by steps of the
  database machine, a sound subscriber hub stays sound, counters only grow, and only series that the
  registry accepts are counted.
\<close>

section \<open>Counters\<close>

text \<open>Counters only grow, and only those that \<^verbatim>\<open>WithLabelValues\<close> accepts grow at all.\<close>

definition metrics_grow :: "metrics \<Rightarrow> metrics \<Rightarrow> bool" where
  "metrics_grow ms ms' \<longleftrightarrow> (\<forall>m. ms m \<le> ms' m \<and> (admissible m \<or> ms' m = ms m))"

lemma metrics_grow_refl: "metrics_grow ms ms"
  by (simp add: metrics_grow_def)

lemma metrics_grow_trans: "metrics_grow a b \<Longrightarrow> metrics_grow b c \<Longrightarrow> metrics_grow a c"
  unfolding metrics_grow_def by (metis order_trans)

lemma metrics_grow_inc: "metrics_grow ms ms' \<Longrightarrow> admissible m \<Longrightarrow> metrics_grow ms (Inc m ms')"
  by (auto simp: metrics_grow_def Inc_def le_SucI)

lemma label_values [simp]:
  "utf8Valid ProviderGuardianEdge" "utf8Valid ProviderAlphaSense" "utf8Valid ProviderBetaGrid"
  "utf8Valid CommandDelivered" "utf8Valid CommandAcknowledged" "utf8Valid CommandFailed"
  "utf8Valid (errKind e)" "ValidCommandType typ \<Longrightarrow> utf8Valid typ"
  by (auto simp: provider_consts command_state_consts errKind_def ValidCommandType_def command_type_consts byte_def)

lemma itoa_valid: "utf8Valid (itoa n)"
proof -
  have "list_all (\<lambda>c. byte c < 128) (natDigits k)" for k
    by (rule list.pred_mono_strong [OF natDigits_shape(1)]) (auto simp: isDigit_def)
  then show ?thesis by (simp add: itoa_def byte_def)
qed

section \<open>Safe changes\<close>

text \<open>
  \<open>safe w w'\<close>: the tables went through steps of the database machine, a sound hub stayed sound,
  the counters grew, and the database is the same. The rules of \<open>safe_intros\<close> follow the control flow of a handler from its end.
\<close>

definition safe :: "world \<Rightarrow> world \<Rightarrow> bool" where
  "safe w w' \<longleftrightarrow> db_steps (w_db w) (w_db w') \<and> (hub_inv (w_hub w) \<longrightarrow> hub_inv (w_hub w')) \<and>
     metrics_grow (w_metrics w) (w_metrics w') \<and> w_pg w' = w_pg w"

named_theorems safe_intros

lemma safe_refl: "safe w w"
  by (simp add: safe_def metrics_grow_refl)

lemma safe_trans: "safe w w' \<Longrightarrow> safe w' w'' \<Longrightarrow> safe w w''"
  by (auto simp: safe_def intro: metrics_grow_trans)

lemma safe_control [safe_intros]:
  "safe w0 w \<Longrightarrow> safe w0 (snd (r, w))"
  "safe w0 (snd p) \<Longrightarrow> (\<And>r w. safe w0 w \<Longrightarrow> safe w0 (snd (f r w))) \<Longrightarrow> safe w0 (snd (case p of (r, w) \<Rightarrow> f r w))"
  "(\<And>e. safe w0 (snd (g e))) \<Longrightarrow> (\<And>a. s = Inr a \<Longrightarrow> safe w0 (snd (h a))) \<Longrightarrow>
     safe w0 (snd (case s of Inl e \<Rightarrow> g e | Inr a \<Rightarrow> h a))"
  "safe w0 (snd x) \<Longrightarrow> (\<And>a. opt = Some a \<Longrightarrow> safe w0 (snd (h' a))) \<Longrightarrow>
     safe w0 (snd (case opt of None \<Rightarrow> x | Some a \<Rightarrow> h' a))"
  "(b \<Longrightarrow> safe w0 (snd x)) \<Longrightarrow> (\<not> b \<Longrightarrow> safe w0 (snd y)) \<Longrightarrow> safe w0 (snd (if b then x else y))"
  by (auto split: prod.split sum.split option.split)

lemma safe_world_control [safe_intros]:
  "safe w0 (snd p) \<Longrightarrow> (\<And>r w. safe w0 w \<Longrightarrow> safe w0 (f' r w)) \<Longrightarrow> safe w0 (case p of (r, w) \<Rightarrow> f' r w)"
  "(\<And>e. safe w0 (g' e)) \<Longrightarrow> (\<And>a. safe w0 (h' a)) \<Longrightarrow> safe w0 (case s of Inl e \<Rightarrow> g' e | Inr a \<Rightarrow> h' a)"
  "safe w0 v \<Longrightarrow> safe w0 v' \<Longrightarrow> safe w0 (if b then v else v')"
  by (auto split: prod.split sum.split)

lemma safe_data_control [safe_intros]:
  fixes q :: "CommandState \<times> message" and oc :: create_outcome
  shows "(\<And>x y. safe w0 (snd (f x y))) \<Longrightarrow> safe w0 (snd (case q of (x, y) \<Rightarrow> f x y))"
    "(\<And>e. safe w0 (snd (g e))) \<Longrightarrow> (\<And>c. safe w0 (snd (h c))) \<Longrightarrow> (\<And>c. safe w0 (snd (k c))) \<Longrightarrow>
       safe w0 (snd (case oc of CmdError e \<Rightarrow> g e | CmdExisting c \<Rightarrow> h c | CmdCreated c \<Rightarrow> k c))"
  by (simp_all split: prod.split create_outcome.split)

lemma safe_store: "store_effect w w' \<Longrightarrow> safe w0 w \<Longrightarrow> safe w0 w'"
  using store_effectD [of w w'] by (auto simp: safe_def)

lemma safe_storage [safe_intros]:
  assumes "safe w0 w"
  shows "safe w0 (snd (UpsertDevice d w))" "safe w0 (snd (TouchDevice dev st seen w))"
    "safe w0 (snd (InsertTelemetry t w))" "safe w0 (snd (InsertHazardEvent e w))"
    "safe w0 (snd (RecordWebhookDelivery p key w))" "safe w0 (snd (InsertDeadLetter src why body w))"
    "safe w0 (snd (CreateCommand c w))" "safe w0 (snd (FetchPendingCommands dev limit w))"
    "safe w0 (snd (TransitionCommand uid to msg w))" "safe w0 (snd (ExpireCommands w))"
    "safe w0 (snd (GetDevice uid w))" "safe w0 (snd (FindDeviceByExternalID p ext w))"
    "safe w0 (snd (ListDevices w))" "safe w0 (snd (ListRecentEvents n w))" "safe w0 (snd (GetCommand uid w))"
  by (simp_all add: safe_store [OF _ assms] steps_intros)

lemma safe_env [safe_intros]:
  assumes "safe w0 w"
  shows "safe w0 (snd (timeNow w))" "safe w0 (snd (uuidNew w))"
    "admissible m \<Longrightarrow> safe w0 (metricInc m w)" "admissible m \<Longrightarrow> safe w0 ((metricInc m ^^ n) w)"
    "utf8Valid reason \<Longrightarrow> safe w0 (snd (reject code reason w))"
proof -
  show inc: "safe w0 (metricInc m w)" if "admissible m" for m
    using assms that by (auto simp: safe_def intro: metrics_grow_inc)
  show "safe w0 ((metricInc m ^^ n) w)" if "admissible m"
    using assms that by (induction n) (auto simp: safe_def intro: metrics_grow_inc)
  show "safe w0 (snd (reject code reason w))" if "utf8Valid reason"
    unfolding reject_def using inc that by simp
qed (use assms in \<open>simp_all add: safe_def\<close>)

lemma safe_hub [safe_intros]:
  assumes "safe w0 w"
  shows "safe w0 (publish e w)" "safe w0 (snd (Subscribe w))" "safe w0 (cancelSubscription i w)"
  using assms by (auto simp: safe_def publish_def Subscribe_def cancelSubscription_def
      intro: hubPublish_inv hubSubscribe_inv hubCancel_inv)

lemma safe_outbound: "outbound w w' \<Longrightarrow> safe w0 w \<Longrightarrow> safe w0 w'"
  by (auto simp: safe_def dest: outboundD)

lemmas store_fields = storage_event_store_def storage_webhook_store_def storage_ingest_store_def
  storage_command_store_def storage_grpc_store_def

lemma safe_accept [safe_intros]:
  "utf8Valid (e_Source e) \<Longrightarrow> safe w0 w \<Longrightarrow> safe w0 (snd (Accept storage_event_store e w))"
  unfolding Accept_def Let_def store_fields event_store.simps by (intro safe_intros; simp add: byte_def)

lemma safe_pipeline [safe_intros]:
  assumes "safe w0 w"
  shows "utf8Valid (e_Source (ne_Event ne)) \<Longrightarrow> safe w0 (snd (AcceptFromProvider storage_event_store ne w))"
    "utf8Valid src \<Longrightarrow> safe w0 (DeadLetter storage_event_store src why body w)"
proof -
  have "es_UpsertDevice storage_event_store = UpsertDevice" by (simp add: store_fields)
  then show "safe w0 (snd (AcceptFromProvider storage_event_store ne w))" if "utf8Valid (e_Source (ne_Event ne))"
    unfolding AcceptFromProvider_def using that assms by (simp only:) (intro safe_intros; simp add: byte_def)
  show "safe w0 (DeadLetter storage_event_store src why body w)" if "utf8Valid src"
    unfolding DeadLetter_def store_fields event_store.simps using that assms
    by (intro safe_intros; simp add: byte_def)
qed

text \<open>The command service, over senders that are themselves safe and report a state that can be counted.\<close>

definition safe_senders :: "(ProviderName \<Rightarrow> command_sender option) \<Rightarrow> bool" where
  "safe_senders senders \<longleftrightarrow> (\<forall>p send ext cmd w. senders p = Some send \<longrightarrow>
     safe w (snd (send ext cmd w)) \<and> pred_sum (\<lambda>_. True) (utf8Valid \<circ> fst) (fst (send ext cmd w)))"

lemma safe_dispatch:
  assumes "safe_senders senders" "senders p = Some send" "safe w0 w"
  shows "safe w0 (snd (dispatch (service ttl senders) send device cmd w))"
proof -
  obtain r w1 where send: "send (d_ExternalID device) cmd w = (r, w1)" by fastforce
  with assms(1,2) have r: "pred_sum (\<lambda>_. True) (utf8Valid \<circ> fst) r" and "safe w w1"
    unfolding safe_senders_def by (metis fst_conv snd_conv)+
  then have w1: "safe w0 w1" using assms(3) safe_trans by blast
  show ?thesis
  proof (cases r)
    case (Inl err)
    show ?thesis
      unfolding dispatch_def send Inl service_simps store_fields command_store.simps prod.case sum.case
      using w1 by (intro safe_intros; simp)
  next
    case (Inr q)
    obtain state msg where q: "q = (state, msg)" by fastforce
    with r Inr have "utf8Valid state" by simp
    then show ?thesis
      unfolding dispatch_def send Inr q service_simps store_fields command_store.simps prod.case sum.case
      using w1 by (intro safe_intros; simp)
  qed
qed

lemma safe_create [safe_intros]:
  assumes "safe_senders senders" "safe w0 w"
  shows "safe w0 (snd (Create (service ttl senders) dev typ payload key w))"
proof -
  have enqueue: "safe w0 (snd (enqueue (service ttl senders) (senders p) device c v))"
    if "safe w0 v" "utf8Valid (c_Type c)" for p device c v
  proof (cases "senders p")
    case None
    show ?thesis
      unfolding enqueue_def None service_simps store_fields command_store.simps Let_def option.case
      by (intro safe_intros that(1); simp add: that(2))
  next
    case (Some send)
    show ?thesis
      unfolding enqueue_def Some service_simps store_fields command_store.simps Let_def option.case
      by (intro safe_intros safe_dispatch [OF assms(1) Some] that(1); simp add: that(2))
  qed
  show ?thesis
    unfolding Create_def Let_def service_simps store_methods
    by (intro safe_intros enqueue assms(2); simp add: newCommand_def)
qed

lemma safe_command_service [safe_intros]:
  assumes "safe w0 w"
  shows "safe w0 (snd (Poll (service ttl senders) dev limit w))"
    "safe w0 (snd (ReportResult (service ttl senders) uid ok msg w))"
    "safe w0 (snd (getCommand (service ttl senders) uid w))"
    "safe w0 (reaperTick (service ttl senders) w)"
proof -
  show "safe w0 (snd (Poll (service ttl senders) dev limit w))"
    unfolding Poll_def service_simps store_methods repeatInc_def by (intro safe_intros assms; simp)
  show "safe w0 (snd (ReportResult (service ttl senders) uid ok msg w))"
    unfolding ReportResult_def service_simps store_methods Let_def by (intro safe_intros assms; simp)
  show "safe w0 (snd (getCommand (service ttl senders) uid w))"
    unfolding getCommand_def service_simps store_methods by (intro safe_intros assms)
  have "safe w0 (((\<lambda>v. metricInc m (metricInc m' v)) ^^ n) v)" if "safe w0 v" "admissible m" "admissible m'" for v n m m'
    using that by (induction n) (simp_all add: safe_env)
  then show "safe w0 (reaperTick (service ttl senders) w)"
    unfolding reaperTick_def service_simps store_methods by (intro safe_intros assms; simp)
qed

section \<open>The interfaces\<close>

lemma Parse_source:
  assumes "Parse body now = Inr d" "del_Event d = Some ne"
  shows "e_Source (ne_Event ne) = ProviderBetaGrid"
  using assms
  by (auto simp: Parse_def parseHazard_def Let_def split: option.splits if_splits sum.splits)

lemma safe_webhook [safe_intros]:
  assumes "safe w0 w"
  shows "safe w0 (snd (BetaGrid (newWebhook secret skew maxBytes) rq w))"
proof -
  let ?h = "newWebhook secret skew maxBytes"
  have fields: "wk_events ?h = storage_event_store" "wk_store ?h = storage_webhook_store"
    by (simp_all add: newWebhook_def)
  have process: "safe w0 (snd (processDelivery ?h body d v))" if "safe w0 v" "Parse body' now = Inr d" for body body' now d v
    unfolding processDelivery_def processEvent_def processHeartbeat_def fields store_fields webhook_store.simps
    unfolding store_fields [symmetric]
    by (intro safe_intros that(1); simp add: byte_def Parse_source [OF that(2)])
  have gate: "safe w0 (snd (gateDelivery ?h body d v))" if "safe w0 v" "Parse body' now = Inr d" for body body' now d v
    unfolding gateDelivery_def fields storage_webhook_store_def webhook_store.simps
    by (intro safe_intros process [OF _ that(2)] that(1); simp add: byte_def)
  have authentic: "safe w0 (snd (handleAuthentic ?h body v))" if "safe w0 v" for body v
    unfolding handleAuthentic_def fields Let_def by (intro safe_intros that; (erule gate; assumption)?; simp add: byte_def)
  show ?thesis
    unfolding BetaGrid_def
    by (auto simp: byte_def split: bounded_body.split intro!: safe_intros authentic assms)
qed

text \<open>The commands of the edge interface and of the platform interface, over safe senders.\<close>

lemma safe_ingest:
  assumes "safe_senders senders" "(pat, h, route) \<in> set (ingestRoutes (newIngest (service ttl senders) token maxBytes))"
    "safe w0 w"
  shows "safe w0 (snd (h rq w))"
proof -
  let ?a = "newIngest (service ttl senders) token maxBytes"
  have telemetry: "safe w0 (snd (postTelemetry ?a rq w))"
    unfolding postTelemetry_def ingest_simps storage_ingest_store_def ingest_store.simps Let_def
    by (intro safe_intros assms(3); simp)
  have edge: "utf8Valid (e_Source (eventOf req dev now))" for req dev now
    by (simp add: eventOf_def)
  have event: "safe w0 (snd (postEvent ?a rq w))"
    unfolding postEvent_def ingest_simps storage_ingest_store_def ingest_store.simps Let_def
    by (intro safe_intros edge assms(3))
  have commands: "safe w0 (snd (getCommands ?a rq w))"
    unfolding getCommands_def ingest_simps storage_ingest_store_def ingest_store.simps Let_def
    by (intro safe_intros assms(3))
  have result: "safe w0 (snd (postCommandResult ?a rq w))"
    unfolding postCommandResult_def ingest_simps by (intro safe_intros assms(3))
  have guarded: "safe w0 (snd (g rq w)) \<Longrightarrow> safe w0 (snd (auth ?a g rq w))" for g :: handler
    using assms(3) by (simp add: auth_def)
  from assms(2) show ?thesis
    unfolding ingestRoutes_def using telemetry event commands result by (auto intro: guarded)
qed

lemma safe_rpc [safe_intros]:
  assumes "gv_store s = storage_grpc_store" "gv_commands s = service ttl senders" "safe_senders senders" "safe w0 w"
  shows "safe w0 (snd (rpcGetDevice s uid w))" "safe w0 (snd (rpcListDevices s w))"
    "safe w0 (snd (rpcListRecentEvents s n w))" "safe w0 (snd (rpcGetCommand s uid w))"
    "safe w0 (snd (rpcSendCommand s req w))"
proof -
  note fields = assms(1,2) storage_grpc_store_def grpc_store.simps Let_def
  show "safe w0 (snd (rpcGetDevice s uid w))"
    unfolding rpcGetDevice_def fields by (intro safe_intros assms(4))
  show "safe w0 (snd (rpcListDevices s w))"
    unfolding rpcListDevices_def fields by (intro safe_intros assms(4))
  show "safe w0 (snd (rpcListRecentEvents s n w))"
    unfolding rpcListRecentEvents_def fields by (intro safe_intros assms(4))
  show "safe w0 (snd (rpcGetCommand s uid w))"
    unfolding rpcGetCommand_def fields by (intro safe_intros assms(4))
  show "safe w0 (snd (rpcSendCommand s req w))"
    unfolding rpcSendCommand_def fields by (intro safe_intros assms(3,4))
qed

lemma safe_alphaDo: "safe w0 w \<Longrightarrow> safe w0 (snd (alphaDo c verb path body dec zero w))"
  using alphaDo_traffic [of c verb path body w dec zero] by (auto simp: alphaTraffic_def intro: safe_outbound)

lemma safe_alpha_sender:
  "safe w (snd (alphaSendCommand c ext cmd w))"
  "pred_sum (\<lambda>_. True) (utf8Valid \<circ> fst) (fst (alphaSendCommand c ext cmd w))"
proof -
  show "safe w (snd (alphaSendCommand c ext cmd w))"
    unfolding alphaSendCommand_def Let_def by (intro safe_intros safe_alphaDo safe_refl)
  show "pred_sum (\<lambda>_. True) (utf8Valid \<circ> fst) (fst (alphaSendCommand c ext cmd w))"
    by (auto simp: alphaSendCommand_def Let_def split: prod.split sum.split)
qed

lemma safe_middleware:
  assumes "\<And>v. safe w0 v \<Longrightarrow> safe w0 (snd (h rq v))" "utf8Valid route" "utf8Valid (in_method rq)" "safe w0 w"
  shows "safe w0 (snd (Middleware h route rq w))"
  unfolding Middleware_def incomingID_def Let_def
  by (intro safe_intros assms(1,4); simp add: assms(2,3) itoa_valid)

lemma safe_fold: "(\<And>x v. x \<in> set xs \<Longrightarrow> safe w0 v \<Longrightarrow> safe w0 (f x v)) \<Longrightarrow> safe w0 w \<Longrightarrow> safe w0 (fold f xs w)"
  by (induction xs arbitrary: w) auto

lemma safe_fetch:
  assumes "safe w0 w"
  shows "safe w0 (snd (FetchDevices c w))" "safe w0 (snd (FetchEvents c since w))"
proof -
  have get: "safe w0 (snd (alphaGet c path dec w))" for path and dec :: "string \<Rightarrow> 'a list option"
    unfolding alphaGet_def by (rule safe_alphaDo [OF assms])
  show "safe w0 (snd (FetchDevices c w))"
    unfolding FetchDevices_def Let_def by (intro safe_intros get)
  show "safe w0 (snd (FetchEvents c since w))"
    unfolding FetchEvents_def Let_def by (intro safe_intros get)
qed

lemma FetchEvents_source:
  assumes "FetchEvents c since w = ((evs, err), w')" "ne \<in> set evs"
  shows "e_Source (ne_Event ne) = ProviderAlphaSense"
proof -
  have accepted: "x \<in> set (accepted rs) \<Longrightarrow> Inr x \<in> set rs" for x and rs :: "NormalizedEvent res list"
    by (induction rs rule: accepted.induct) auto
  from assms obtain as received where "ne \<in> set (accepted (map (\<lambda>a. normalizeAlert a received) as))"
    by (auto simp: FetchEvents_def Let_def split: prod.splits sum.splits)
  from accepted [OF this] obtain a where "normalizeAlert a received = Inr ne" by (auto dest: sym)
  then show ?thesis using normalizeAlert_cases by blast
qed

lemma safe_cycle:
  assumes "pr_Provider p = alphaProvider c" "pr_Devices p = UpsertDevice"
    "pr_Events p = AcceptFromProvider storage_event_store" "safe w0 w"
  shows "safe w0 (snd (cycle p since w))"
proof -
  have devices: "safe w0 (pollDevices p v)" if "safe w0 v" for v
    unfolding pollDevices_def assms(1,2) alphaProvider_def provider.simps Let_def option.case
    by (intro safe_intros safe_fold safe_fetch that; simp add: byte_def)
  have events: "safe w0 (snd (pollEvents p start since v))" if "safe w0 v" for v start
  proof -
    let ?v = "metricInc (ProviderRequests ProviderAlphaSense ''fetch_events'') v"
    obtain evs err v' where f: "FetchEvents c (time_Add since (- pr_Overlap p)) ?v = ((evs, err), v')"
      by (metis prod.collapse)
    have "safe w0 ?v" by (intro safe_intros that; simp add: byte_def)
    from safe_fetch(2) [OF this, of c "time_Add since (- pr_Overlap p)"] f have v': "safe w0 v'" by simp
    have "safe w0 (fold (\<lambda>ne w. snd (AcceptFromProvider storage_event_store ne w)) evs v')"
      by (intro safe_fold safe_intros v'; simp add: FetchEvents_source [OF f])
    with v' f show ?thesis
      by (cases err) (simp_all add: pollEvents_def assms(1,3) alphaProvider_def safe_env byte_def)
  qed
  show ?thesis unfolding cycle_def Let_def by (intro safe_intros events devices assms(4))
qed

end
