(* ===== verification/HttpForm.thy ===== *)
theory HttpForm
  imports HttpClient HttpServer Hmac
begin

text \<open>
  Form encoding read back as a server does: \<^verbatim>\<open>url.QueryUnescape\<close>, \<^verbatim>\<open>url.ParseQuery\<close> and
  \<^verbatim>\<open>ParseForm\<close> of \<^verbatim>\<open>net/http\<close>, and that it undoes the client's \<open>formEncode\<close>.
\<close>

section \<open>Parsing\<close>

fun queryUnescape :: "string \<Rightarrow> string option" where
  "queryUnescape [] = Some []"
| "queryUnescape (c # cs) =
     (if byte c = 37 then
        (case cs of
           a # b # r \<Rightarrow>
             (case (hexVal a, hexVal b) of
                (Some x, Some y) \<Rightarrow> map_option (\<lambda>t. char_of (16 * x + y) # t) (queryUnescape r)
              | _ \<Rightarrow> None)
         | _ \<Rightarrow> None)
      else if byte c = 43 then map_option (\<lambda>t. CHR '' '' # t) (queryUnescape cs)
      else map_option (\<lambda>t. c # t) (queryUnescape cs))"

text \<open>\<^verbatim>\<open>strings.Cut\<close> at one byte.\<close>

definition cutAt :: "nat \<Rightarrow> string \<Rightarrow> string \<times> string" where
  "cutAt b s = (takeWhile (\<lambda>c. byte c \<noteq> b) s, tl (dropWhile (\<lambda>c. byte c \<noteq> b) s))"

text \<open>One setting of a query: None is an error, \<^verbatim>\<open>Some None\<close> an empty setting that is skipped.\<close>

definition parsePair :: "string \<Rightarrow> (string \<times> string) option option" where
  "parsePair p =
     (if list_ex (\<lambda>c. byte c = 59) p then None
      else if p = [] then Some None
      else let (k, v) = cutAt 61 p
           in case (queryUnescape k, queryUnescape v) of
                (Some k', Some v') \<Rightarrow> Some (Some (k', v'))
              | _ \<Rightarrow> None)"

text \<open>The settings in order; a faulty one makes the whole parse fail in the end.\<close>

function parseQuery :: "string \<Rightarrow> form option" where
  "parseQuery s =
     (if s = [] then Some []
      else let (p, rest) = cutAt 38 s
           in case (parsePair p, parseQuery rest) of
                (Some (Some kv), Some f) \<Rightarrow> Some (kv # f)
              | (Some None, Some f) \<Rightarrow> Some f
              | _ \<Rightarrow> None)"
  by pat_completeness auto
termination
proof (relation "measure length", goal_cases)
  case (2 s x p rest)
  then have "rest = tl (dropWhile (\<lambda>c. byte c \<noteq> 38) s)" by (simp add: cutAt_def)
  then show ?case using 2(1) length_dropWhile_le [of "\<lambda>c. byte c \<noteq> 38" s] by (cases s) auto
qed simp

declare parseQuery.simps [simp del]

text \<open>The first value of a key, empty when there is none.\<close>

definition formGet :: "string \<Rightarrow> form \<Rightarrow> string" where
  "formGet k f = (case map_of f k of None \<Rightarrow> [] | Some v \<Rightarrow> v)"

text \<open>
  \<^verbatim>\<open>ParseForm\<close> of a POST: the body counts only under the form content type and up to 10 MB.
\<close>

definition formType :: string where "formType = ''application/x-www-form-urlencoded''"

definition ParseForm :: "http_in \<Rightarrow> form option" where
  "ParseForm r =
     (if in_header r ''Content-Type'' \<noteq> formType then Some []
      else if in_broken r \<or> 10485760 < length (in_body r) then None
      else parseQuery (in_body r))"

section \<open>It undoes the encoding\<close>

lemma hexVal_upper:
  assumes "n < 16"
  shows "hexVal (hexDigitUpper n) = Some n" "byte (hexDigitUpper n) \<notin> {38, 59, 61}"
proof -
  from assms have "n \<in> {0, 1, 2, 3, 4, 5, 6, 7, 8, 9, 10, 11, 12, 13, 14, 15}" by (simp, presburger)
  then show "hexVal (hexDigitUpper n) = Some n" "byte (hexDigitUpper n) \<notin> {38, 59, 61}"
    by (auto simp: hexVal_def hexDigitUpper_def byte_def)
qed

lemma percentByte_digits:
  "percentByte c = [CHR ''%'', hexDigitUpper (byte c div 16), hexDigitUpper (byte c mod 16)]"
  "byte c div 16 < 16" "byte c mod 16 < 16"
proof -
  show "percentByte c = [CHR ''%'', hexDigitUpper (byte c div 16), hexDigitUpper (byte c mod 16)]"
    by (simp add: percentByte_def)
  show "byte c div 16 < 16" using byte_bound [of c] by linarith
qed simp

lemma queryUnescape_percent: "queryUnescape (percentByte c @ s) = map_option (\<lambda>t. c # t) (queryUnescape s)"
proof -
  have "char_of (16 * (byte c div 16) + byte c mod 16) = c" by (simp add: byte_def)
  moreover have "byte (CHR ''%'') = 37" by (simp add: byte_def)
  ultimately show ?thesis
    using hexVal_upper(1) [OF percentByte_digits(2)] hexVal_upper(1) [OF percentByte_digits(3)]
    by (simp add: percentByte_digits(1) del: mult_div_mod_eq)
qed

lemma queryEscape_Cons:
  "queryEscape (c # s) =
     (if isUnreserved c then [c] else if byte c = 32 then ''+'' else percentByte c) @ queryEscape s"
  by (simp add: queryEscape_def)

lemma byte_eq_iff: "byte c = byte d \<longleftrightarrow> c = d"
  by (metis byte_def char_of_char)

lemma queryUnescape_escape [simp]: "queryUnescape (queryEscape s) = Some s"
proof (induction s)
  case Nil
  show ?case by (simp add: queryEscape_def)
next
  case (Cons c s)
  have plus: "byte (CHR ''+'') = 43" by (simp add: byte_def)
  then have space: "queryUnescape (''+'' @ t) = map_option (\<lambda>t. CHR '' '' # t) (queryUnescape t)" for t
    by simp
  have "byte c = 32 \<Longrightarrow> c = CHR '' ''"
    using byte_eq_iff [of c "CHR '' ''"] by (simp add: byte_def)
  moreover have "isUnreserved c \<Longrightarrow> byte c \<noteq> 37 \<and> byte c \<noteq> 43" by (auto simp: isUnreserved_def Let_def)
  ultimately show ?case
    using Cons by (auto simp: queryEscape_Cons queryUnescape_percent space plus)
qed

lemma percentByte_clean: "x \<in> set (percentByte c) \<Longrightarrow> byte x \<notin> {38, 59, 61}"
proof -
  assume "x \<in> set (percentByte c)"
  then have "x = CHR ''%'' \<or> x = hexDigitUpper (byte c div 16) \<or> x = hexDigitUpper (byte c mod 16)"
    by (simp only: percentByte_digits(1) list.set insert_iff empty_iff) blast
  moreover have "byte (CHR ''%'') = 37" by (simp add: byte_def)
  ultimately show ?thesis
    using hexVal_upper(2) [OF percentByte_digits(2)] hexVal_upper(2) [OF percentByte_digits(3)] by fastforce
qed

lemma queryEscape_clean: "x \<in> set (queryEscape s) \<Longrightarrow> byte x \<notin> {38, 59, 61}"
proof (induction s)
  case (Cons c s)
  have "byte (CHR ''+'') = 43" by (simp add: byte_def)
  moreover have "isUnreserved c \<Longrightarrow> byte c \<notin> {38, 59, 61}" by (auto simp: isUnreserved_def Let_def)
  ultimately show ?case
    using Cons percentByte_clean [of x c] by (auto simp: queryEscape_Cons split: if_splits)
qed (simp add: queryEscape_def)

lemma cutAt_clean:
  "(\<And>c. c \<in> set s \<Longrightarrow> byte c \<noteq> b) \<Longrightarrow> cutAt b s = (s, [])"
  "(\<And>c. c \<in> set s \<Longrightarrow> byte c \<noteq> b) \<Longrightarrow> byte e = b \<Longrightarrow> cutAt b (s @ e # t) = (s, t)"
  by (simp_all add: cutAt_def takeWhile_append2 dropWhile_append2 takeWhile_eq_all_conv [THEN iffD2]
      dropWhile_eq_Nil_conv [THEN iffD2])

definition encodePair :: "string \<times> string \<Rightarrow> string" where
  "encodePair = (\<lambda>(k, v). queryEscape k @ CHR ''='' # queryEscape v)"

lemma encodePair_clean: "x \<in> set (encodePair kv) \<Longrightarrow> byte x \<notin> {38, 59}"
  using queryEscape_clean by (auto simp: encodePair_def byte_def split: prod.splits)

lemma parsePair_encode: "parsePair (encodePair kv) = Some (Some kv)"
proof -
  obtain k v where kv: "kv = (k, v)" by fastforce
  have "\<not> list_ex (\<lambda>c. byte c = 59) (encodePair kv)"
    using encodePair_clean by (auto simp: list_ex_iff)
  moreover have "cutAt 61 (encodePair kv) = (queryEscape k, queryEscape v)"
    using queryEscape_clean unfolding kv encodePair_def prod.case
    by (intro cutAt_clean(2)) (auto simp: byte_def)
  moreover have "encodePair kv \<noteq> []" by (simp add: kv encodePair_def)
  ultimately show ?thesis by (simp add: parsePair_def kv)
qed

lemma parseQuery_joined:
  "parseQuery (encodePair kv @ concat (map (\<lambda>q. CHR ''&'' # encodePair q) f)) = Some (kv # f)"
proof (induction f arbitrary: kv)
  case Nil
  have "cutAt 38 (encodePair kv) = (encodePair kv, [])"
    using encodePair_clean by (intro cutAt_clean(1)) auto
  moreover have "encodePair kv \<noteq> []" by (simp add: encodePair_def split: prod.split)
  ultimately show ?case by (simp add: parseQuery.simps [of "encodePair kv"] parseQuery.simps [of "[]"] parsePair_encode)
next
  case (Cons q f)
  let ?rest = "encodePair q @ concat (map (\<lambda>q. CHR ''&'' # encodePair q) f)"
  have "cutAt 38 (encodePair kv @ CHR ''&'' # ?rest) = (encodePair kv, ?rest)"
    using encodePair_clean by (intro cutAt_clean(2)) (auto simp: byte_def)
  then show ?case
    using Cons by (subst parseQuery.simps) (simp add: parsePair_encode)
qed

lemma parseQuery_formEncode: "parseQuery (formEncode f) = Some (sort_key fst f)"
proof (cases "sort_key fst f")
  case Nil
  then show ?thesis by (simp add: formEncode_def parseQuery.simps)
next
  case (Cons kv rest)
  have "formEncode f = encodePair kv @ concat (map (\<lambda>q. CHR ''&'' # encodePair q) rest)"
    by (simp add: formEncode_def Cons encodePair_def case_prod_unfold comp_def)
  then show ?thesis using Cons by (simp add: parseQuery_joined)
qed

text \<open>With distinct keys the order does not matter.\<close>

lemma formGet_sorted: "distinct (map fst f) \<Longrightarrow> formGet k (sort_key fst f) = formGet k f"
proof -
  assume "distinct (map fst f)"
  moreover from this have "distinct (map fst (sort_key fst f))"
    by (metis distinct_map set_sort distinct_sort)
  ultimately have "map_of (sort_key fst f) = map_of f"
    by (metis map_of_inject_set set_sort)
  then show ?thesis by (simp add: formGet_def)
qed

end
