(* ===== verification/Mux.thy ===== *)
theory Mux
  imports HttpForm
begin

text \<open>
  The request multiplexer (\<^verbatim>\<open>http.ServeMux\<close>) for patterns of the shape the connector registers:
  a method, a space, and a path of literal segments and single wildcards. GET also serves HEAD, a path
  that is not in canonical form is redirected, a path that is known under another method gets 405 and
  any other one 404. The path of a request is its escaped path.
\<close>

section \<open>Patterns\<close>

datatype pattern_seg = Lit string | Wild string

fun splitSlash :: "string \<Rightarrow> string list" where
  "splitSlash [] = [[]]"
| "splitSlash (c # cs) =
     (if byte c = 47 then [] # splitSlash cs
      else case splitSlash cs of [] \<Rightarrow> [[c]] | s # ss \<Rightarrow> (c # s) # ss)"

definition parseSeg :: "string \<Rightarrow> pattern_seg" where
  "parseSeg s =
     (if s \<noteq> [] \<and> byte (hd s) = 123 then Wild (takeWhile (\<lambda>c. byte c \<noteq> 125) (tl s)) else Lit s)"

definition parsePattern :: "string \<Rightarrow> string \<times> pattern_seg list" where
  "parsePattern p = (case cutAt 32 p of (verb, path) \<Rightarrow> (verb, map parseSeg (splitSlash (tl path))))"

section \<open>Paths\<close>

text \<open>\<^verbatim>\<open>url.PathUnescape\<close>; a segment with a broken escape stands for itself.\<close>

fun percentDecode :: "string \<Rightarrow> string option" where
  "percentDecode [] = Some []"
| "percentDecode (c # cs) =
     (if byte c = 37 then
        (case cs of
           a # b # r \<Rightarrow>
             (case (hexVal a, hexVal b) of
                (Some x, Some y) \<Rightarrow> map_option (\<lambda>t. char_of (16 * x + y) # t) (percentDecode r)
              | _ \<Rightarrow> None)
         | _ \<Rightarrow> None)
      else map_option (\<lambda>t. c # t) (percentDecode cs))"

definition pathUnescape :: "string \<Rightarrow> string" where
  "pathUnescape s = (case percentDecode s of None \<Rightarrow> s | Some t \<Rightarrow> t)"

text \<open>The segments of a path; a slash at the end is a segment of its own, written as a slash.\<close>

fun segmentsOf :: "string list \<Rightarrow> string list" where
  "segmentsOf [] = []"
| "segmentsOf [s] = [if s = [] then ''/'' else pathUnescape s]"
| "segmentsOf (s # t # ss) = pathUnescape s # segmentsOf (t # ss)"

definition pathSegments :: "string \<Rightarrow> string list" where
  "pathSegments p = (if p = [] then [] else segmentsOf (splitSlash (tl p)))"

text \<open>Whether \<^verbatim>\<open>cleanPath\<close> leaves a path as it is.\<close>

definition canonicalPath :: "string \<Rightarrow> bool" where
  "canonicalPath p \<longleftrightarrow>
     p \<noteq> [] \<and> byte (hd p) = 47 \<and> [] \<notin> set (butlast (splitSlash (tl p))) \<and>
     list_all (\<lambda>s. s \<noteq> ''.'' \<and> s \<noteq> ''..'') (splitSlash (tl p))"

section \<open>Matching\<close>

text \<open>The values of the wildcards, or None. A wildcard takes any segment but a slash.\<close>

fun matchSegs :: "pattern_seg list \<Rightarrow> string list \<Rightarrow> (string \<times> string) list option" where
  "matchSegs [] [] = Some []"
| "matchSegs (Lit l # ps) (s # ss) = (if s = l then matchSegs ps ss else None)"
| "matchSegs (Wild x # ps) (s # ss) =
     (if s = ''/'' then None else map_option (\<lambda>vs. (x, s) # vs) (matchSegs ps ss))"
| "matchSegs _ _ = None"

definition verbMatches :: "string \<Rightarrow> string \<Rightarrow> bool" where
  "verbMatches verb requested \<longleftrightarrow> requested = verb \<or> verb = ''GET'' \<and> requested = ''HEAD''"

datatype 'h mux_result =
    MuxBadRequest
  | MuxRedirect
  | MuxNotFound
  | MuxNotAllowed
  | MuxFound 'h "(string \<times> string) list"

text \<open>The handlers whose path matches, each with its method and the wildcards' values.\<close>

definition pathMatches :: "(string \<times> 'h) list \<Rightarrow> string \<Rightarrow> (string \<times> 'h \<times> (string \<times> string) list) list" where
  "pathMatches routes path =
     concat (map (\<lambda>(pat, h). case parsePattern pat of (verb, segs) \<Rightarrow>
       (case matchSegs segs (pathSegments path) of None \<Rightarrow> [] | Some vs \<Rightarrow> [(verb, h, vs)])) routes)"

definition muxFind :: "(string \<times> 'h) list \<Rightarrow> string \<Rightarrow> string \<Rightarrow> 'h mux_result" where
  "muxFind routes requested path =
     (if path = ''*'' then MuxBadRequest
      else if requested \<noteq> ''CONNECT'' \<and> \<not> canonicalPath path then MuxRedirect
      else case filter (\<lambda>(verb, _). verbMatches verb requested) (pathMatches routes path) of
             (_, h, vs) # _ \<Rightarrow> MuxFound h vs
           | [] \<Rightarrow> if pathMatches routes path = [] then MuxNotFound else MuxNotAllowed)"

text \<open>The request as the chosen handler sees it.\<close>

definition withPathValues :: "(string \<times> string) list \<Rightarrow> http_in \<Rightarrow> http_in" where
  "withPathValues vs rq = rq\<lparr>in_pathValue := (\<lambda>x. case map_of vs x of None \<Rightarrow> [] | Some v \<Rightarrow> v)\<rparr>"

section \<open>Conflicts\<close>

text \<open>
  Registering a pattern that overlaps another one of the same method panics unless one of the two is
  more specific; patterns that do not overlap never conflict, and their order does not matter.
\<close>

fun overlap :: "pattern_seg list \<Rightarrow> pattern_seg list \<Rightarrow> bool" where
  "overlap [] [] = True"
| "overlap (Lit a # ps) (Lit b # qs) = (a = b \<and> overlap ps qs)"
| "overlap (_ # ps) (_ # qs) = overlap ps qs"
| "overlap _ _ = False"

definition verbsMeet :: "string \<Rightarrow> string \<Rightarrow> bool" where
  "verbsMeet v v' \<longleftrightarrow> v = v' \<or> v = ''GET'' \<and> v' = ''HEAD'' \<or> v = ''HEAD'' \<and> v' = ''GET''"

definition conflictFree :: "string list \<Rightarrow> bool" where
  "conflictFree pats \<longleftrightarrow>
     sorted_wrt (\<lambda>(v, ps) (v', qs). \<not> verbsMeet v v' \<or> \<not> overlap ps qs) (map parsePattern pats)"

lemma overlap_iff:
  assumes "matchSegs ps ss = Some vs" "matchSegs qs ss = Some us"
  shows "overlap ps qs"
  using assms
proof (induction ps ss arbitrary: qs vs us rule: matchSegs.induct)
  case (2 l ps s ss)
  then show ?case by (cases qs; cases "hd qs") (auto split: if_splits)
next
  case (3 x ps s ss)
  then show ?case by (cases qs; cases "hd qs") (auto split: if_splits)
next
  case 1
  then show ?case by (cases qs; cases "hd qs") auto
qed auto

text \<open>A handler that is found is registered, under a pattern that the method and the path match.\<close>

lemma muxFind_found:
  assumes "muxFind routes requested path = MuxFound h vs"
  shows "\<exists>pat verb segs. (pat, h) \<in> set routes \<and> parsePattern pat = (verb, segs) \<and>
    verbMatches verb requested \<and> matchSegs segs (pathSegments path) = Some vs"
proof -
  from assms obtain verb rest where
    "filter (\<lambda>(verb, _). verbMatches verb requested) (pathMatches routes path) = (verb, h, vs) # rest"
    by (auto simp: muxFind_def split: if_splits list.splits)
  then have "(verb, h, vs) \<in> set (filter (\<lambda>(verb, _). verbMatches verb requested) (pathMatches routes path))"
    by simp
  then show ?thesis
    by (force simp: pathMatches_def split: prod.splits option.splits)
qed

lemma overlap_sym: "overlap ps qs = overlap qs ps"
  by (induction ps qs rule: overlap.induct) auto

text \<open>
  A multiplexer whose patterns do not conflict: a request that matches a pattern gets the handler of that
  pattern, whatever the order of registration.
\<close>

locale mux =
  fixes routes :: "(string \<times> 'h) list"
  assumes conflict_free: "conflictFree (map fst routes)"
begin

lemma takes:
  assumes "(pat, h) \<in> set routes" "parsePattern pat = (verb, segs)" "verbMatches verb requested"
    "matchSegs segs (pathSegments path) = Some vs" "canonicalPath path"
  shows "muxFind routes requested path = MuxFound h vs"
proof -
  have path: "path \<noteq> ''*''" using assms(5) by (auto simp: canonicalPath_def byte_def)
  have "(verb, h, vs) \<in> set (filter (\<lambda>(verb, _). verbMatches verb requested) (pathMatches routes path))"
    using assms(1-4) by (force simp: pathMatches_def split: prod.splits)
  then obtain verb' h' vs' where found: "muxFind routes requested path = MuxFound h' vs'"
    using path assms(5)
    by (cases "filter (\<lambda>(verb, _). verbMatches verb requested) (pathMatches routes path)")
      (auto simp: muxFind_def)
  from muxFind_found [OF this] obtain pat' verb' segs' where p: "(pat', h') \<in> set routes"
    "parsePattern pat' = (verb', segs')" "verbMatches verb' requested"
    "matchSegs segs' (pathSegments path) = Some vs'" by blast
  have meet: "verbsMeet verb verb'" "overlap segs segs'" "verbsMeet verb' verb" "overlap segs' segs"
    using assms(3) p(3) overlap_iff [OF assms(4) p(4)] overlap_sym by (auto simp: verbMatches_def verbsMeet_def)
  obtain i where i: "i < length routes" "routes ! i = (pat, h)" using assms(1) by (auto simp: in_set_conv_nth)
  obtain j where j: "j < length routes" "routes ! j = (pat', h')" using p(1) by (auto simp: in_set_conv_nth)
  have apart: "\<not> verbsMeet v v' \<or> \<not> overlap ps qs"
    if "k < l" "l < length routes" "parsePattern (fst (routes ! k)) = (v, ps)" "parsePattern (fst (routes ! l)) = (v', qs)"
    for k l v v' ps qs
    using conflict_free that by (fastforce simp: conflictFree_def sorted_wrt_iff_nth_less)
  have "i = j"
    using apart [of i j] apart [of j i] i j meet assms(2) p(2) by (metis fst_conv linorder_neqE_nat)
  then show ?thesis using i j p(2,4) assms(2,4) found by simp
qed

lemma unmatched:
  assumes "\<And>pat h verb segs. (pat, h) \<in> set routes \<Longrightarrow> parsePattern pat = (verb, segs) \<Longrightarrow>
    verbMatches verb requested \<Longrightarrow> matchSegs segs (pathSegments path) = None"
  shows "muxFind routes requested path \<noteq> MuxFound h vs"
  using muxFind_found [of routes requested path h vs] assms by fastforce

end

end
