(* ===== verification/Config.thy ===== *)
theory Config
  imports Calendar Hmac
begin

text \<open>
  The configuration (\<^verbatim>\<open>internal/config/config.go\<close>), read from the environment: a function
  from names to values, empty for an unset name. \<^verbatim>\<open>time.ParseDuration\<close> and
  \<^verbatim>\<open>strconv.ParseInt\<close> are modelled with their overflow rules.
\<close>

section \<open>Durations\<close>

definition byteIs :: "nat \<Rightarrow> string \<Rightarrow> bool" where
  "byteIs b s = (case s of [] \<Rightarrow> False | c # _ \<Rightarrow> byte c = b)"

text \<open>Overflow is checked before and after each digit; None is overflow.\<close>

fun leadingInt :: "nat \<Rightarrow> string \<Rightarrow> (nat \<times> string) option" where
  "leadingInt x [] = Some (x, [])"
| "leadingInt x (c # cs) =
     (if \<not> isDigit c then Some (x, c # cs)
      else if 2 ^ 63 div 10 < x then None
      else let y = x * 10 + digitVal c in if 2 ^ 63 < y then None else leadingInt y cs)"

text \<open>Once the fraction no longer fits, its further digits are skipped.\<close>

fun leadingFraction :: "nat \<Rightarrow> nat \<Rightarrow> string \<Rightarrow> nat \<times> nat \<times> string" where
  "leadingFraction x scale [] = (x, scale, [])"
| "leadingFraction x scale (c # cs) =
     (if \<not> isDigit c then (x, scale, c # cs)
      else if (2 ^ 63 - 1) div 10 < x \<or> 2 ^ 63 < x * 10 + digitVal c
      then (x, scale, dropWhile isDigit cs)
      else leadingFraction (x * 10 + digitVal c) (scale * 10) cs)"

definition unitMap :: "string \<Rightarrow> nat option" where
  "unitMap u =
     (if u = ''ns'' then Some 1
      else if u = ''us'' \<or> map byte u = [194, 181, 115] \<or> map byte u = [206, 188, 115] then Some 1000
      else if u = ''ms'' then Some 1000000
      else if u = ''s'' then Some 1000000000
      else if u = ''m'' then Some 60000000000
      else if u = ''h'' then Some 3600000000000
      else None)"

definition round64' :: "rat \<Rightarrow> rat" where
  "round64' q = (case round64 q of None \<Rightarrow> 0 | Some x \<Rightarrow> x)"

text \<open>\<^verbatim>\<open>uint64(float64(f) * (float64(unit) / scale))\<close>; the scale is at most \<open>10 ^ 19\<close>, which is exact.\<close>

definition fractionOf :: "nat \<Rightarrow> nat \<Rightarrow> nat \<Rightarrow> nat" where
  "fractionOf f unit scale =
     nat \<lfloor>round64' (round64' (of_nat f) * round64' (of_nat unit / of_nat scale))\<rfloor>"

definition unitChar :: "char \<Rightarrow> bool" where "unitChar c \<longleftrightarrow> byte c \<noteq> 46 \<and> \<not> isDigit c"

text \<open>One number with its unit: its value in nanoseconds and what follows.\<close>

definition durationTerm :: "string \<Rightarrow> (nat \<times> string) option" where
  "durationTerm s =
     (if \<not> byteIs 46 s \<and> takeWhile isDigit s = [] then None
      else case leadingInt 0 s of
        None \<Rightarrow> None
      | Some (v, s1) \<Rightarrow>
          (let pre = length s1 \<noteq> length s;
               (f, scale, s2) = (if byteIs 46 s1 then leadingFraction 0 1 (tl s1) else (0, 1, s1));
               post = byteIs 46 s1 \<and> length s2 \<noteq> length (tl s1);
               u = takeWhile unitChar s2; rest = dropWhile unitChar s2
           in if \<not> pre \<and> \<not> post \<or> u = [] then None
              else case unitMap u of
                     None \<Rightarrow> None
                   | Some unit \<Rightarrow>
                       if 2 ^ 63 div unit < v then None
                       else let v1 = v * unit; v2 = (if 0 < f then v1 + fractionOf f unit scale else v1)
                            in if 0 < f \<and> 2 ^ 63 < v2 then None else Some (v2, rest)))"

text \<open>The terms add up in a \<^verbatim>\<open>uint64\<close>; the fuel is the number of bytes, of which each term uses one.\<close>

fun durationTerms :: "nat \<Rightarrow> nat \<Rightarrow> string \<Rightarrow> nat option" where
  "durationTerms fuel d [] = Some d"
| "durationTerms 0 d (c # cs) = None"
| "durationTerms (Suc fuel) d (c # cs) =
     (case durationTerm (c # cs) of
        None \<Rightarrow> None
      | Some (v, rest) \<Rightarrow>
          (let d' = (d + v) mod 2 ^ 64 in if 2 ^ 63 < d' then None else durationTerms fuel d' rest))"

definition ParseDuration :: "string \<Rightarrow> Duration option" where
  "ParseDuration s =
     (let neg = byteIs 45 s;
          s1 = (if byteIs 45 s \<or> byteIs 43 s then tl s else s)
      in if s1 = ''0'' then Some 0
         else if s1 = [] then None
         else case durationTerms (length s1) 0 s1 of
                None \<Rightarrow> None
              | Some d \<Rightarrow>
                  if neg then Some (wrap64 (- int d))
                  else if 2 ^ 63 - 1 < d then None
                  else Some (int d))"

text \<open>\<^verbatim>\<open>strconv.ParseInt(s, 10, 64)\<close> takes a plus sign as well.\<close>

definition ParseInt10 :: "string \<Rightarrow> int option" where
  "ParseInt10 s = (if byteIs 43 s then (if byteIs 45 (tl s) then None else parseIntLit 64 (tl s))
     else parseIntLit 64 s)"

section \<open>The environment\<close>

type_synonym env = "string \<Rightarrow> string"

definition getenv :: "env \<Rightarrow> string \<Rightarrow> string \<Rightarrow> string" where
  "getenv env key def = (let v = env key in if v \<noteq> [] then v else def)"

definition getdur :: "env \<Rightarrow> string \<Rightarrow> Duration \<Rightarrow> Duration" where
  "getdur env key def =
     (let v = env key
      in if v \<noteq> [] then (case ParseDuration v of Some d \<Rightarrow> d | None \<Rightarrow> def) else def)"

definition getint64 :: "env \<Rightarrow> string \<Rightarrow> int \<Rightarrow> int" where
  "getint64 env key def =
     (let v = env key
      in if v \<noteq> [] then (case ParseInt10 v of Some n \<Rightarrow> n | None \<Rightarrow> def) else def)"

record AlphaSenseConfig =
  as_BaseURL :: string
  as_TokenURL :: string
  as_ClientID :: string
  as_ClientSecret :: string
  as_PollInterval :: Duration

record config =
  cf_HTTPAddr :: string
  cf_GRPCAddr :: string
  cf_DatabaseURL :: string
  cf_EdgeAPIToken :: string
  cf_TokenCipherKey :: string
  cf_BetaGridWebhookSecret :: string
  cf_WebhookMaxSkew :: Duration
  cf_AlphaSense :: AlphaSenseConfig
  cf_CommandTTL :: Duration
  cf_RequestTimeout :: Duration
  cf_MaxBodyBytes :: int
  cf_LogLevel :: string

definition hexError :: error where "hexError = Errorf ''encoding/hex'' []"

text \<open>The values as they are read, before anything is checked.\<close>

definition readConfig :: "env \<Rightarrow> config" where
  "readConfig env =
     \<lparr>cf_HTTPAddr = getenv env ''CONNECTOR_HTTP_ADDR'' '':8080'',
      cf_GRPCAddr = getenv env ''CONNECTOR_GRPC_ADDR'' '':9090'',
      cf_DatabaseURL = env ''DATABASE_URL'',
      cf_EdgeAPIToken = env ''EDGE_API_TOKEN'',
      cf_TokenCipherKey = [],
      cf_BetaGridWebhookSecret = env ''BETAGRID_WEBHOOK_SECRET'',
      cf_WebhookMaxSkew = getdur env ''WEBHOOK_MAX_SKEW'' (5 * Minute),
      cf_AlphaSense =
        \<lparr>as_BaseURL = env ''ALPHASENSE_BASE_URL'', as_TokenURL = env ''ALPHASENSE_TOKEN_URL'',
         as_ClientID = env ''ALPHASENSE_CLIENT_ID'', as_ClientSecret = env ''ALPHASENSE_CLIENT_SECRET'',
         as_PollInterval = getdur env ''ALPHASENSE_POLL_INTERVAL'' (30 * Second)\<rparr>,
      cf_CommandTTL = getdur env ''COMMAND_TTL'' (24 * Hour),
      cf_RequestTimeout = getdur env ''REQUEST_TIMEOUT'' (15 * Second),
      cf_MaxBodyBytes = getint64 env ''MAX_BODY_BYTES'' (2 ^ 20),
      cf_LogLevel = getenv env ''LOG_LEVEL'' ''info''\<rparr>"

definition withCipherKey :: "env \<Rightarrow> config \<Rightarrow> config res" where
  "withCipherKey env cfg =
     (let keyHex = env ''TOKEN_CIPHER_KEY''
      in if keyHex = [] then Inr cfg
         else case hexDecode keyHex of
                None \<Rightarrow> Inl (Wrapf ''TOKEN_CIPHER_KEY is not valid hex: %w'' [] hexError)
              | Some key \<Rightarrow>
                  if length key \<noteq> 32 then
                    Inl (Errorf ''TOKEN_CIPHER_KEY must be 32 bytes (64 hex chars), got %d bytes'' [AInt (int (length key))])
                  else Inr (cfg\<lparr>cf_TokenCipherKey := key\<rparr>))"

definition Load :: "env \<Rightarrow> config res" where
  "Load env =
     (let cfg = readConfig env
      in if cf_DatabaseURL cfg = [] then Inl (Errorf ''DATABASE_URL is required'' [])
         else case withCipherKey env cfg of
                Inl e \<Rightarrow> Inl e
              | Inr cfg' \<Rightarrow>
                  (let a = cf_AlphaSense cfg'
                   in if as_BaseURL a \<noteq> [] \<and> (as_TokenURL a = [] \<or> as_ClientID a = [] \<or> as_ClientSecret a = [])
                      then Inl (Errorf ''ALPHASENSE_BASE_URL is set but token URL / client id / client secret are incomplete'' [])
                      else Inr cfg'))"

section \<open>What parsing guarantees\<close>

lemma leadingInt_length: "leadingInt x s = Some (v, r) \<Longrightarrow> length r \<le> length s"
  by (induction x s rule: leadingInt.induct) (auto simp: Let_def split: if_splits)

lemma leadingFraction_length: "leadingFraction x k s = (f, scale, r) \<Longrightarrow> length r \<le> length s"
proof (induction x k s rule: leadingFraction.induct)
  case (2 x scale c cs)
  then show ?case using length_dropWhile_le [of isDigit cs] by (auto split: if_splits)
qed simp

lemma durationTerm_shorter:
  assumes "durationTerm s = Some (v, r)"
  shows "length r < length s"
proof -
  from assms obtain n s1 f scale s2 where
    i: "leadingInt 0 s = Some (n, s1)" and
    f: "(if byteIs 46 s1 then leadingFraction 0 1 (tl s1) else (0, 1, s1)) = (f, scale, s2)" and
    u: "takeWhile unitChar s2 \<noteq> []" "r = dropWhile unitChar s2"
    by (auto simp: durationTerm_def Let_def split: option.splits if_splits prod.splits)
  have "length s2 \<le> length s1"
    using f leadingFraction_length [of 0 1 "tl s1" f scale s2] by (auto split: if_splits)
  moreover have "length s1 \<le> length s" by (rule leadingInt_length [OF i])
  moreover have "length (takeWhile unitChar s2) + length r = length s2"
    unfolding u(2) by (metis length_append takeWhile_dropWhile_id)
  moreover have "0 < length (takeWhile unitChar s2)" using u(1) by simp
  ultimately show ?thesis by linarith
qed

text \<open>The number of bytes is fuel enough: more of it changes nothing.\<close>

lemma durationTerms_fuel:
  "length s \<le> n \<Longrightarrow> length s \<le> k \<Longrightarrow> durationTerms n d s = durationTerms k d s"
proof (induction n d s arbitrary: k rule: durationTerms.induct)
  case (3 fuel d c cs)
  then obtain k' where k: "k = Suc k'" by (cases k) auto
  show ?case
  proof (cases "durationTerm (c # cs)")
    case (Some p)
    obtain v rest where p: "p = (v, rest)" by fastforce
    have "length rest \<le> length cs" using durationTerm_shorter [OF Some [unfolded p]] by simp
    then have "length rest \<le> fuel" "length rest \<le> k'" using 3(2,3) k by simp_all
    then have "\<not> 2 ^ 63 < (d + v) mod 2 ^ 64 \<Longrightarrow>
        durationTerms fuel ((d + v) mod 2 ^ 64) rest = durationTerms k' ((d + v) mod 2 ^ 64) rest"
      using 3(1) [OF Some p [symmetric] refl] by blast
    then show ?thesis using Some p k by (simp add: Let_def)
  qed (simp add: k)
qed simp_all

lemma durationTerms_bound: "durationTerms n d s = Some v \<Longrightarrow> d \<le> 2 ^ 63 \<Longrightarrow> v \<le> 2 ^ 63"
  by (induction n d s rule: durationTerms.induct) (auto simp: Let_def split: option.splits if_splits)

lemma ParseDuration_range:
  assumes "ParseDuration s = Some d"
  shows "minDuration \<le> d" "d \<le> maxDuration"
proof -
  from assms have "d = 0 \<or> (\<exists>n. d = wrap64 n) \<or> (\<exists>n. n \<le> 2 ^ 63 - 1 \<and> d = int n)"
    by (auto simp: ParseDuration_def Let_def not_less split: if_splits option.splits)
  then show "minDuration \<le> d" "d \<le> maxDuration"
    using wrap64_bounds by (auto simp: duration_bounds)
qed

lemma getdur_range:
  "minDuration \<le> def \<Longrightarrow> def \<le> maxDuration \<Longrightarrow> minDuration \<le> getdur env key def \<and> getdur env key def \<le> maxDuration"
  using ParseDuration_range by (auto simp: getdur_def Let_def split: option.split)

lemma ParseInt10_range: "ParseInt10 s = Some n \<Longrightarrow> - (2 ^ 63) \<le> n \<and> n < 2 ^ 63"
  using parseIntLit_bounds [of 64] by (auto simp: ParseInt10_def split: if_splits)

text \<open>What the rest of the program may rely on once the configuration is loaded.\<close>

definition config_ok :: "config \<Rightarrow> bool" where
  "config_ok cfg \<longleftrightarrow>
     cf_HTTPAddr cfg \<noteq> [] \<and> cf_GRPCAddr cfg \<noteq> [] \<and> cf_DatabaseURL cfg \<noteq> [] \<and> cf_LogLevel cfg \<noteq> [] \<and>
     length (cf_TokenCipherKey cfg) \<in> {0, 32} \<and>
     (as_BaseURL (cf_AlphaSense cfg) = [] \<or> as_TokenURL (cf_AlphaSense cfg) \<noteq> [] \<and>
        as_ClientID (cf_AlphaSense cfg) \<noteq> [] \<and> as_ClientSecret (cf_AlphaSense cfg) \<noteq> []) \<and>
     list_all (\<lambda>d. minDuration \<le> d \<and> d \<le> maxDuration)
       [cf_WebhookMaxSkew cfg, cf_CommandTTL cfg, cf_RequestTimeout cfg, as_PollInterval (cf_AlphaSense cfg)] \<and>
     - (2 ^ 63) \<le> cf_MaxBodyBytes cfg \<and> cf_MaxBodyBytes cfg < 2 ^ 63"

lemma readConfig_ok:
  "cf_HTTPAddr (readConfig env) \<noteq> []" "cf_GRPCAddr (readConfig env) \<noteq> []" "cf_LogLevel (readConfig env) \<noteq> []"
  "list_all (\<lambda>d. minDuration \<le> d \<and> d \<le> maxDuration)
     [cf_WebhookMaxSkew (readConfig env), cf_CommandTTL (readConfig env), cf_RequestTimeout (readConfig env),
      as_PollInterval (cf_AlphaSense (readConfig env))]"
  "- (2 ^ 63) \<le> cf_MaxBodyBytes (readConfig env) \<and> cf_MaxBodyBytes (readConfig env) < 2 ^ 63"
  using getdur_range by (simp_all add: readConfig_def getenv_def Let_def duration_units duration_bounds)
    (auto simp: getint64_def Let_def dest: ParseInt10_range split: option.split)

lemma readConfig_fields [simp]:
  "cf_DatabaseURL (readConfig env) = env ''DATABASE_URL''" "cf_TokenCipherKey (readConfig env) = []"
  "as_BaseURL (cf_AlphaSense (readConfig env)) = env ''ALPHASENSE_BASE_URL''"
  "as_TokenURL (cf_AlphaSense (readConfig env)) = env ''ALPHASENSE_TOKEN_URL''"
  "as_ClientID (cf_AlphaSense (readConfig env)) = env ''ALPHASENSE_CLIENT_ID''"
  "as_ClientSecret (cf_AlphaSense (readConfig env)) = env ''ALPHASENSE_CLIENT_SECRET''"
  by (simp_all add: readConfig_def)

definition cipherKeyOk :: "string \<Rightarrow> bool" where
  "cipherKeyOk h \<longleftrightarrow> h = [] \<or> (\<exists>k. hexDecode h = Some k \<and> length k = 32)"

text \<open>The settings that Load accepts.\<close>

definition settings_ok :: "env \<Rightarrow> bool" where
  "settings_ok env \<longleftrightarrow>
     env ''DATABASE_URL'' \<noteq> [] \<and> cipherKeyOk (env ''TOKEN_CIPHER_KEY'') \<and>
     (env ''ALPHASENSE_BASE_URL'' = [] \<or>
        env ''ALPHASENSE_TOKEN_URL'' \<noteq> [] \<and> env ''ALPHASENSE_CLIENT_ID'' \<noteq> [] \<and> env ''ALPHASENSE_CLIENT_SECRET'' \<noteq> [])"

lemma withCipherKey_accepts:
  "cipherKeyOk (env ''TOKEN_CIPHER_KEY'') \<Longrightarrow> cf_TokenCipherKey cfg = [] \<Longrightarrow>
     withCipherKey env cfg = Inr (cfg\<lparr>cf_TokenCipherKey := the (hexDecode (env ''TOKEN_CIPHER_KEY''))\<rparr>)"
  by (auto simp: withCipherKey_def cipherKeyOk_def Let_def)

lemma withCipherKey_refuses:
  "\<not> cipherKeyOk (env ''TOKEN_CIPHER_KEY'') \<Longrightarrow> \<exists>e. withCipherKey env cfg = Inl e"
  by (auto simp: withCipherKey_def cipherKeyOk_def Let_def split: option.split)

lemma cipherKey_length: "cipherKeyOk h \<Longrightarrow> length (the (hexDecode h)) \<in> {0, 32}"
  by (auto simp: cipherKeyOk_def)

lemma Load_accepts:
  "settings_ok env \<Longrightarrow> Load env = Inr ((readConfig env)\<lparr>cf_TokenCipherKey := the (hexDecode (env ''TOKEN_CIPHER_KEY''))\<rparr>)"
  by (auto simp: Load_def settings_ok_def withCipherKey_accepts Let_def)

lemma Load_refuses: "\<not> settings_ok env \<Longrightarrow> \<exists>e. Load env = Inl e"
  using withCipherKey_refuses [of env "readConfig env"] withCipherKey_accepts [of env "readConfig env"]
  by (cases "cipherKeyOk (env ''TOKEN_CIPHER_KEY'')") (auto simp: Load_def settings_ok_def Let_def)

text \<open>C33: configuration is complete or refused. Load fails exactly on settings that are not acceptable:
  acceptable means that a database URL is set, that the cipher key is absent or 32 bytes of valid
  hexadecimal, and that AlphaSense is either off or has its token URL and both client credentials. What it
  returns is the settings as they were read with the decoded key, and it has nonempty listen addresses, a
  key of 0 or 32 bytes and durations that are 64-bit values, whatever text the environment holds.\<close>

theorem Load_correct:
  "case Load env of
     Inl e \<Rightarrow> \<not> settings_ok env
   | Inr cfg \<Rightarrow> settings_ok env \<and> config_ok cfg \<and>
       cfg = (readConfig env)\<lparr>cf_TokenCipherKey := the (hexDecode (env ''TOKEN_CIPHER_KEY''))\<rparr>"
proof (cases "settings_ok env")
  case True
  then have "config_ok ((readConfig env)\<lparr>cf_TokenCipherKey := the (hexDecode (env ''TOKEN_CIPHER_KEY''))\<rparr>)"
    using readConfig_ok [of env] cipherKey_length by (auto simp: config_ok_def settings_ok_def)
  with True show ?thesis by (simp add: Load_accepts)
next
  case False
  with Load_refuses show ?thesis by fastforce
qed

lemmas duration_run = ParseDuration_def durationTerm_def Let_def byteIs_def byte_def isDigit_def digitVal_def
  unitMap_def unitChar_def

text \<open>Some texts and their values, by evaluation.\<close>

lemma ParseDuration_examples:
  "ParseDuration ''5m'' = Some (5 * Minute)" "ParseDuration ''0s'' = Some 0"
  "ParseDuration ''1h2ms'' = Some (Hour + 2 * Millisecond)" "ParseDuration ''-3ns'' = Some (- 3)"
  "ParseDuration ''5'' = None" "ParseDuration ''5d'' = None" "ParseDuration [] = None"
  by (simp_all add: duration_run duration_units wrap64_def)

end
