(* ===== verification/Connector.thy ===== *)
theory Connector
  imports Safety Mux Config
begin

text \<open>
  The process (\<^verbatim>\<open>cmd/connector/main.go\<close>): how the configuration becomes services, pollers and
  routes, and every way in which the outside world or a timer enters the program. The theory then
  shows that each entry only takes steps of the database machine and keeps the subscriber hub sound.
\<close>

section \<open>Wiring\<close>

text \<open>The HTTP client of the adapters is a parameter; \<^verbatim>\<open>nil\<close> clients get the default one.\<close>

definition alphaOauth :: "config \<Rightarrow> http_client \<Rightarrow> oauth_config" where
  "alphaOauth cfg client = \<lparr>oc_TokenURL = as_TokenURL (cf_AlphaSense cfg),
     oc_ClientID = as_ClientID (cf_AlphaSense cfg), oc_ClientSecret = as_ClientSecret (cf_AlphaSense cfg),
     oc_client = client\<rparr>"

definition alphaClientOf :: "config \<Rightarrow> http_client \<Rightarrow> alpha_client" where
  "alphaClientOf cfg client =
     newAlphaSense (as_BaseURL (cf_AlphaSense cfg)) (alphaOauth cfg client) client"

definition sendersOf :: "config \<Rightarrow> http_client \<Rightarrow> ProviderName \<Rightarrow> command_sender option" where
  "sendersOf cfg client =
     (if as_BaseURL (cf_AlphaSense cfg) \<noteq> []
      then [ProviderAlphaSense \<mapsto> alphaSendCommand (alphaClientOf cfg client)] else Map.empty)"

definition pollersOf :: "config \<Rightarrow> http_client \<Rightarrow> poller list" where
  "pollersOf cfg client =
     (if as_BaseURL (cf_AlphaSense cfg) \<noteq> []
      then [\<lparr>pr_Provider = alphaProvider (alphaClientOf cfg client), pr_Devices = UpsertDevice,
             pr_Events = AcceptFromProvider storage_event_store,
             pr_Interval = as_PollInterval (cf_AlphaSense cfg), pr_Overlap = 0\<rparr>]
      else [])"

definition commandSvc :: "config \<Rightarrow> http_client \<Rightarrow> command_service" where
  "commandSvc cfg client = service (cf_CommandTTL cfg) (sendersOf cfg client)"

definition webhookHandler :: "config \<Rightarrow> webhook_handler" where
  "webhookHandler cfg = newWebhook (cf_BetaGridWebhookSecret cfg) (cf_WebhookMaxSkew cfg) (cf_MaxBodyBytes cfg)"

definition edgeAPI :: "config \<Rightarrow> http_client \<Rightarrow> ingest_api" where
  "edgeAPI cfg client = newIngest (commandSvc cfg client) (cf_EdgeAPIToken cfg) (cf_MaxBodyBytes cfg)"

definition grpcServer :: "config \<Rightarrow> http_client \<Rightarrow> grpc_server" where
  "grpcServer cfg client = \<lparr>gv_store = storage_grpc_store, gv_commands = commandSvc cfg client\<rparr>"

text \<open>
  The routes under the middleware, and those outside it. \<^verbatim>\<open>/metrics\<close> shows the counters in the text
  format of the Prometheus library, which is a parameter.
\<close>

record externals =
  ex_client :: http_client
  ex_expose :: "metrics \<Rightarrow> http_reply"

definition MetricsHandler :: "(metrics \<Rightarrow> http_reply) \<Rightarrow> handler" where
  "MetricsHandler expose rq w = (expose (w_metrics w), w)"

definition wrappedRoutes :: "config \<Rightarrow> http_client \<Rightarrow> (string \<times> handler \<times> string) list" where
  "wrappedRoutes cfg client =
     ingestRoutes (edgeAPI cfg client) @
     [(''POST /v1/webhooks/betagrid'', BetaGrid (webhookHandler cfg), ''webhook_betagrid'')]"

definition plainRoutes :: "externals \<Rightarrow> (string \<times> handler) list" where
  "plainRoutes ex =
     [(''GET /healthz'', HealthHandler), (''GET /readyz'', ReadyHandler Ping),
      (''GET /metrics'', MetricsHandler (ex_expose ex))]"

text \<open>A reply with the correlation identifier the middleware set, if it was on the way.\<close>

type_synonym served = "http_in \<Rightarrow> world \<Rightarrow> (string option \<times> http_reply) \<times> world"

definition wrap :: "handler \<Rightarrow> string \<Rightarrow> served" where
  "wrap h route rq w = (case Middleware h route rq w of ((rid, reply), w') \<Rightarrow> ((Some rid, reply), w'))"

definition bare :: "handler \<Rightarrow> served" where
  "bare h rq w = (case h rq w of (reply, w') \<Rightarrow> ((None, reply), w'))"

definition routes :: "config \<Rightarrow> externals \<Rightarrow> (string \<times> served) list" where
  "routes cfg ex =
     map (\<lambda>(pattern, h, route). (pattern, wrap h route)) (wrappedRoutes cfg (ex_client ex)) @
     map (\<lambda>(pattern, h). (pattern, bare h)) (plainRoutes ex)"

text \<open>What the HTTP server does with a request; the body of a redirect is left out.\<close>

definition serve :: "config \<Rightarrow> externals \<Rightarrow> served" where
  "serve cfg ex rq w =
     (case muxFind (routes cfg ex) (in_method rq) (in_path rq) of
        MuxBadRequest \<Rightarrow> ((None, httpError (Str []) StatusBadRequest), w)
      | MuxRedirect \<Rightarrow> ((None, httpError (Str []) 301), w)
      | MuxNotFound \<Rightarrow> ((None, httpError (Str ''404 page not found'') StatusNotFound), w)
      | MuxNotAllowed \<Rightarrow> ((None, httpError (Str ''Method Not Allowed'') 405), w)
      | MuxFound h vs \<Rightarrow> h (withPathValues vs rq) w)"

text \<open>
  Waiting for the database. Each element of the list is what happens in the two seconds between
  attempts and whether the context was done meanwhile; None is a process still waiting.
\<close>

fun waitForStore ::
  "pool_params \<Rightarrow> migration list \<Rightarrow> string \<Rightarrow> (sentinel option \<times> (world \<Rightarrow> world)) list \<Rightarrow> world \<Rightarrow>
   unit res option \<times> world" where
  "waitForStore pool files url waits w =
     (case Open pool files url w of
        (None, w1) \<Rightarrow> (Some (Inr ()), w1)
      | (Some err, w1) \<Rightarrow>
          (case waits of
             [] \<Rightarrow> (None, w1)
           | (Some c, wait) # _ \<Rightarrow> (Some (Inl (Sentinel c)), wait w1)
           | (None, wait) # ws \<Rightarrow> waitForStore pool files url ws (wait w1)))"

declare waitForStore.simps [simp del]

section \<open>Entries\<close>

text \<open>
  One entry of the outside world: an HTTP request, a gRPC call, a move of a
  streaming client on the hub, a polling cycle, a tick of the reaper. What an entry does to the
  world is the final world of its handler.
\<close>

datatype entry =
    Http http_in
  | RpcGetDevice string
  | RpcListDevices
  | RpcListRecentEvents int
  | RpcSendCommand sendCommandRequest
  | RpcGetCommand string
  | StreamSubscribe
  | StreamReceive nat
  | StreamCancel nat
  | PollCycle Time
  | ReaperTick

definition receive :: "nat \<Rightarrow> world \<Rightarrow> world" where
  "receive i w = w\<lparr>w_hub := snd (hubReceive i (w_hub w))\<rparr>"

text \<open>A stream receives from a channel it was given; a position outside is no entry.\<close>

fun enter :: "config \<Rightarrow> externals \<Rightarrow> entry \<Rightarrow> world \<Rightarrow> world" where
  "enter cfg ex (Http rq) w = snd (serve cfg ex rq w)"
| "enter cfg ex (RpcGetDevice uid) w = snd (rpcGetDevice (grpcServer cfg (ex_client ex)) uid w)"
| "enter cfg ex RpcListDevices w = snd (rpcListDevices (grpcServer cfg (ex_client ex)) w)"
| "enter cfg ex (RpcListRecentEvents n) w = snd (rpcListRecentEvents (grpcServer cfg (ex_client ex)) n w)"
| "enter cfg ex (RpcSendCommand rq) w = snd (rpcSendCommand (grpcServer cfg (ex_client ex)) rq w)"
| "enter cfg ex (RpcGetCommand uid) w = snd (rpcGetCommand (grpcServer cfg (ex_client ex)) uid w)"
| "enter cfg ex StreamSubscribe w = snd (Subscribe w)"
| "enter cfg ex (StreamReceive i) w = (if i < length (h_chans (w_hub w)) then receive i w else w)"
| "enter cfg ex (StreamCancel i) w = cancelSubscription i w"
| "enter cfg ex (PollCycle since) w =
     (case pollersOf cfg (ex_client ex) of [] \<Rightarrow> w | p # _ \<Rightarrow> snd (cycle (withOverlap p) since w))"
| "enter cfg ex ReaperTick w = reaperTick (commandSvc cfg (ex_client ex)) w"

section \<open>Every entry is safe\<close>

lemma safe_senders_of: "safe_senders (sendersOf cfg client)"
  by (simp add: safe_senders_def sendersOf_def safe_alpha_sender)

lemma wrap_safe:
  assumes "\<And>v. safe w v \<Longrightarrow> safe w (snd (h rq v))" "utf8Valid route" "utf8Valid (in_method rq)"
  shows "safe w (snd (wrap h route rq w))"
proof -
  have "safe w (snd (Middleware h route rq w))"
  proof (rule safe_middleware)
    show "safe w (snd (h rq v))" if "safe w v" for v by (rule assms(1) [OF that])
  qed (simp_all add: assms(2,3) safe_refl)
  then show ?thesis by (cases "Middleware h route rq w") (auto simp: wrap_def)
qed

lemma wrappedRoutes_safe:
  assumes "(pattern, h, route) \<in> set (wrappedRoutes cfg client)" "safe w v"
  shows "safe w (snd (h rq v))"
  using assms(1) safe_ingest [OF safe_senders_of _ assms(2), where pat = pattern and h = h and route = route]
  by (auto simp: wrappedRoutes_def edgeAPI_def commandSvc_def webhookHandler_def intro: safe_intros assms(2))

lemma wrappedRoutes_labels:
  "(pattern, h, route) \<in> set (wrappedRoutes cfg client) \<Longrightarrow> utf8Valid route"
  by (auto simp: wrappedRoutes_def ingestRoutes_def byte_def)

lemma plainRoutes_safe:
  assumes "(pattern, h) \<in> set (plainRoutes ex)"
  shows "safe w (snd (h rq w))"
proof -
  have "safe w (snd (ReadyHandler Ping rq w))"
    unfolding ReadyHandler_def Ping_def
    by (intro safe_intros safe_store [OF exec_sql_effect safe_refl]) simp
  with assms show ?thesis
    by (auto simp: plainRoutes_def HealthHandler_def MetricsHandler_def safe_refl)
qed

text \<open>The patterns of the connector, and that no two of them can match the same request.\<close>

lemma routes_patterns:
  "map fst (routes cfg ex) =
     [''POST /v1/edge/telemetry'', ''POST /v1/edge/events'', ''GET /v1/edge/commands'',
      ''POST /v1/edge/commands/{id}/result'', ''POST /v1/webhooks/betagrid'',
      ''GET /healthz'', ''GET /readyz'', ''GET /metrics'']"
  by (simp add: routes_def wrappedRoutes_def ingestRoutes_def plainRoutes_def)

lemma parsePatterns [simp]:
  "parsePattern ''POST /v1/edge/telemetry'' = (''POST'', [Lit ''v1'', Lit ''edge'', Lit ''telemetry''])"
  "parsePattern ''POST /v1/edge/events'' = (''POST'', [Lit ''v1'', Lit ''edge'', Lit ''events''])"
  "parsePattern ''GET /v1/edge/commands'' = (''GET'', [Lit ''v1'', Lit ''edge'', Lit ''commands''])"
  "parsePattern ''POST /v1/edge/commands/{id}/result'' =
     (''POST'', [Lit ''v1'', Lit ''edge'', Lit ''commands'', Wild ''id'', Lit ''result''])"
  "parsePattern ''POST /v1/webhooks/betagrid'' = (''POST'', [Lit ''v1'', Lit ''webhooks'', Lit ''betagrid''])"
  "parsePattern ''GET /healthz'' = (''GET'', [Lit ''healthz''])"
  "parsePattern ''GET /readyz'' = (''GET'', [Lit ''readyz''])"
  "parsePattern ''GET /metrics'' = (''GET'', [Lit ''metrics''])"
  by (simp_all add: parsePattern_def cutAt_def byte_def parseSeg_def)

lemma routes_conflict_free: "conflictFree (map fst (routes cfg ex))"
  unfolding routes_patterns conflictFree_def list.map parsePatterns by (simp add: verbsMeet_def)

interpretation http_mux: mux "routes cfg ex" for cfg ex
  by unfold_locales (rule routes_conflict_free)

text \<open>Every pattern names a method that is a label the registry accepts.\<close>

lemma routes_verb:
  assumes "(pattern, h) \<in> set (routes cfg ex)" "parsePattern pattern = (verb, segs)" "verbMatches verb requested"
  shows "utf8Valid requested"
proof -
  have "pattern \<in> set (map fst (routes cfg ex))" using assms(1) by force
  then have "pattern \<in> {''POST /v1/edge/telemetry'', ''POST /v1/edge/events'', ''GET /v1/edge/commands'',
      ''POST /v1/edge/commands/{id}/result'', ''POST /v1/webhooks/betagrid'', ''GET /healthz'', ''GET /readyz'',
      ''GET /metrics''}"
    unfolding routes_patterns by (simp only: list.set)
  then have "fst (parsePattern pattern) \<in> {''GET'', ''POST''}"
    by (elim insertE emptyE; simp)
  then have "verb \<in> {''GET'', ''POST''}" using assms(2) by simp
  then show ?thesis using assms(3) by (auto simp: verbMatches_def byte_def)
qed

lemma serve_safe: "safe w (snd (serve cfg ex rq w))"
proof (cases "muxFind (routes cfg ex) (in_method rq) (in_path rq)")
  case (MuxFound h vs)
  let ?rq = "withPathValues vs rq"
  from muxFind_found [OF MuxFound] obtain pattern verb segs where r: "(pattern, h) \<in> set (routes cfg ex)"
    "parsePattern pattern = (verb, segs)" "verbMatches verb (in_method rq)" by blast
  have verb: "utf8Valid (in_method ?rq)" using routes_verb [OF r] by (simp add: withPathValues_def)
  from r(1) consider
      (wrapped) g route where "(pattern, g, route) \<in> set (wrappedRoutes cfg (ex_client ex))" "h = wrap g route"
    | (plain) g where "(pattern, g) \<in> set (plainRoutes ex)" "h = bare g"
    by (auto simp: routes_def)
  then have "safe w (snd (h ?rq w))"
  proof cases
    case wrapped
    show ?thesis
      unfolding wrapped(2) by (rule wrap_safe [OF wrappedRoutes_safe [OF wrapped(1)] wrappedRoutes_labels [OF wrapped(1)] verb])
  next
    case plain
    then show ?thesis using plainRoutes_safe [OF plain(1)] by (simp add: bare_def split: prod.splits) (metis snd_conv)
  qed
  then show ?thesis using MuxFound by (simp add: serve_def)
qed (simp_all add: serve_def safe_refl)

lemma enter_safe: "safe w (enter cfg ex en w)"
proof (cases en)
  case (Http rq)
  then show ?thesis by (simp add: serve_safe)
next
  case (PollCycle since)
  show ?thesis
    by (auto simp: PollCycle pollersOf_def withOverlap_def intro!: safe_cycle safe_refl)
next
  case (StreamReceive i)
  then show ?thesis
    by (auto simp: safe_def receive_def metrics_grow_refl intro: hubReceive_inv)
qed (auto simp: grpcServer_def commandSvc_def intro!: safe_intros safe_refl safe_senders_of)

section \<open>The running system\<close>

text \<open>
  A run: entries in any order, and between them anything that leaves the tables, the hub, the
  counters and the cached token alone (clocks, the network, the fault script, cancelled contexts).
\<close>

definition untouched_state :: "world \<Rightarrow> world \<Rightarrow> bool" where
  "untouched_state w w' \<longleftrightarrow> w_db w' = w_db w \<and> w_pg w' = w_pg w \<and> w_hub w' = w_hub w \<and>
     w_metrics w' = w_metrics w \<and> w_token w' = w_token w"

lemma safe_untouched: "untouched_state w w' \<Longrightarrow> safe w w'"
  by (simp add: untouched_state_def safe_def metrics_grow_refl)

inductive system_step :: "config \<Rightarrow> externals \<Rightarrow> world \<Rightarrow> world \<Rightarrow> bool" for cfg ex where
  entry: "system_step cfg ex w (enter cfg ex en w)"
| outside: "untouched_state w w' \<Longrightarrow> system_step cfg ex w w'"

abbreviation runs :: "config \<Rightarrow> externals \<Rightarrow> world \<Rightarrow> world \<Rightarrow> bool" where
  "runs cfg ex \<equiv> (system_step cfg ex)\<^sup>*\<^sup>*"

lemma runs_safe: "runs cfg ex w w' \<Longrightarrow> safe w w'"
proof (induction rule: rtranclp_induct)
  case base
  show ?case by (rule safe_refl)
next
  case (step w1 w2)
  have "safe w1 w2"
    using step.hyps(2) by (cases rule: system_step.cases) (simp_all add: enter_safe safe_untouched)
  with step.IH show ?case by (rule safe_trans)
qed

text \<open>The whole connector keeps its promises together. Start from an empty database and no subscriber
  and let requests to any route, gRPC calls, streams, polling cycles and reaper ticks come in any order,
  with any answers of the network and any failing statement: the database always satisfies the integrity
  invariant, its commands are in a state the abstract lifecycle machine reaches, and the subscriber hub
  never sends on or closes a closed channel and keeps every buffer within its 16 places.\<close>

theorem system_correct:
  assumes "runs cfg ex w w'" "w_db w = empty_database" "w_hub w = empty_hub"
  shows "db_inv (w_db w') \<and> life_step\<^sup>*\<^sup>* (\<lambda>_. None) (lifecycle (w_db w')) \<and>
    \<not> h_panic (w_hub w') \<and> list_all (\<lambda>c. length (ch_buf c) \<le> 16) (h_chans (w_hub w'))"
proof -
  from runs_safe [OF assms(1)] have steps: "db_steps empty_database (w_db w')" and hub: "hub_inv (w_hub w')"
    using assms(2,3) hub_inv_empty by (simp_all add: safe_def)
  have "lifecycle empty_database = (\<lambda>_. None)"
    by (simp add: lifecycle_def empty_database_def fun_eq_iff)
  then have "life_step\<^sup>*\<^sup>* (\<lambda>_. None) (lifecycle (w_db w'))"
    using db_steps_life [OF steps db_inv_empty] by simp
  with db_steps_inv [OF steps db_inv_empty] hub show ?thesis
    by (auto simp: hub_inv_def subscriberBuffer_def list_all_iff)
qed

definition demo_config :: config where
  "demo_config = \<lparr>cf_HTTPAddr = '':8080'', cf_GRPCAddr = '':9090'', cf_DatabaseURL = ''db'', cf_EdgeAPIToken = [],
     cf_TokenCipherKey = [], cf_BetaGridWebhookSecret = [], cf_WebhookMaxSkew = Minute,
     cf_AlphaSense = \<lparr>as_BaseURL = [], as_TokenURL = [], as_ClientID = [], as_ClientSecret = [],
       as_PollInterval = Minute\<rparr>,
     cf_CommandTTL = Hour, cf_RequestTimeout = Minute, cf_MaxBodyBytes = 1000, cf_LogLevel = ''info''\<rparr>"

definition demo_externals :: externals where
  "demo_externals = \<lparr>ex_client = \<lparr>hc_badURL = (\<lambda>_. False)\<rparr>, ex_expose = (\<lambda>_. httpError (Str []) 200)\<rparr>"

lemma system_correct_witness:
  "db_inv (w_db (enter demo_config demo_externals ReaperTick
     (enter demo_config demo_externals StreamSubscribe ((calm empty_database)\<lparr>w_hub := empty_hub\<rparr>))))"
proof -
  let ?cl = "demo_externals" and ?w = "(calm empty_database)\<lparr>w_hub := empty_hub\<rparr>"
  have "runs demo_config ?cl ?w (enter demo_config ?cl ReaperTick (enter demo_config ?cl StreamSubscribe ?w))"
    by (meson entry rtranclp.rtrancl_refl rtranclp.rtrancl_into_rtrancl)
  from system_correct [OF this] show ?thesis by simp
qed

text \<open>A command only ever moves forward in the running system. Whatever enters the connector, a command
  that the database knows stays known, and its state is reached from the earlier one along edges of
  CanTransition alone; in particular an acknowledged or failed command keeps its state for good.\<close>

theorem system_commands_move_forward:
  assumes "runs cfg ex w w'" "db_inv (w_db w)" "lifecycle (w_db w) k = Some s"
  shows "\<exists>s'. lifecycle (w_db w') k = Some s' \<and> CanTransition\<^sup>*\<^sup>* s s' \<and> (\<not> terminal_state s \<or> s' = s)"
proof -
  from runs_safe [OF assms(1)] have "db_steps (w_db w) (w_db w')" by (simp add: safe_def)
  from db_steps_moves [OF this assms(2,3)] obtain s' where
    "lifecycle (w_db w') k = Some s'" "CanTransition\<^sup>*\<^sup>* s s'" by blast
  then show ?thesis using CanTransition_star_terminal by blast
qed

lemma system_commands_move_forward_witness:
  "\<exists>s'. lifecycle (w_db (enter demo_config demo_externals ReaperTick
      (calm (demo_db [demo_command ''c1'' CommandPending])))) ''c1'' = Some s' \<and> CanTransition\<^sup>*\<^sup>* CommandPending s'"
proof -
  let ?cl = "demo_externals" and ?w = "calm (demo_db [demo_command ''c1'' CommandPending])"
  have "runs demo_config ?cl ?w (enter demo_config ?cl ReaperTick ?w)"
    by (meson entry r_into_rtranclp)
  from system_commands_move_forward [OF this, of "''c1''" CommandPending] show ?thesis
    by (auto simp: lifecycle_def)
qed

section \<open>Counters\<close>

text \<open>Counting never panics. The registry is built, and whatever runs, a counter never decreases and every
  series that is counted is one that WithLabelValues accepts: the name is registered, there is a value for
  each label, and the values are valid UTF-8. The series for token refreshes is registered and never counted.\<close>

theorem metrics_never_panic:
  assumes "runs cfg ex w w'"
  shows "\<exists>reg. NewMetrics = Some reg \<and>
    (\<forall>m. w_metrics w m \<le> w_metrics w' m \<and>
       (w_metrics w' m = w_metrics w m \<or> WithLabelValues reg (fst m) (snd m) = Some m)) \<and>
    (\<forall>p outcome. w_metrics w' (OAuthRefreshes p outcome) = w_metrics w (OAuthRefreshes p outcome))"
proof -
  have grow: "metrics_grow (w_metrics w) (w_metrics w')" using runs_safe [OF assms] by (simp add: safe_def)
  then have "w_metrics w' (OAuthRefreshes p outcome) = w_metrics w (OAuthRefreshes p outcome)" for p outcome
    using admissible_simps(8) unfolding metrics_grow_def by blast
  with grow show ?thesis by (auto simp: NewMetrics_ok metrics_grow_def admissible_def)
qed

lemma metrics_never_panic_witness:
  "let w = (calm empty_database)\<lparr>w_hub := empty_hub\<rparr> in
   w_metrics w CommandFailures \<le> w_metrics (enter demo_config demo_externals ReaperTick w) CommandFailures"
proof -
  have "runs demo_config demo_externals w (enter demo_config demo_externals ReaperTick w)" for w
    by (meson entry r_into_rtranclp)
  from metrics_never_panic [OF this] show ?thesis by (simp add: Let_def)
qed

section \<open>Requests\<close>



text \<open>A request that is refused leaves the tables, the subscribers, the network and the token alone.\<close>

definition untouched :: "world \<Rightarrow> world \<Rightarrow> bool" where
  "untouched w w' \<longleftrightarrow> w_db w' = w_db w \<and> w_hub w' = w_hub w \<and> w_sent w' = w_sent w \<and> w_token w' = w_token w"

lemma wrap_reply:
  assumes "\<And>v. fst (h rq v) = reply \<and> untouched v (snd (h rq v))"
  shows "snd (fst (wrap h route rq w)) = reply \<and> untouched w (snd (wrap h route rq w))"
proof -
  obtain rid w1 where i: "incomingID rq w = (rid, w1)" by fastforce
  then have w1: "untouched w w1" by (auto simp: incomingID_def uuidNew_def untouched_def Let_def split: if_splits)
  obtain start w2 where t: "timeNow w1 = (start, w2)" by fastforce
  then have w2: "untouched w1 w2" by (auto simp: timeNow_def untouched_def)
  obtain r w3 where h: "h rq w2 = (r, w3)" by fastforce
  with assms [of w2] have w3: "r = reply" "untouched w2 w3" by auto
  obtain stop w4 where t': "timeNow w3 = (stop, w4)" by fastforce
  then have w4: "untouched w3 w4" by (auto simp: timeNow_def untouched_def)
  show ?thesis
    using w1 w2 w3 w4 by (simp add: wrap_def Middleware_def i t h t' untouched_def metricInc_def)
qed

lemma bare_reply: "fst (bare h rq w) = (None, fst (h rq w))" "snd (bare h rq w) = snd (h rq w)"
  by (simp_all add: bare_def split: prod.split)

text \<open>What stops such a request at the edge interface and at the webhook, and what the routes without
  credentials do.\<close>

lemma auth_refuses:
  assumes "cf_EdgeAPIToken cfg \<noteq> []" "in_header rq ''Authorization'' \<noteq> ''Bearer '' @ cf_EdgeAPIToken cfg"
  shows "auth (edgeAPI cfg client) g rq v = (httpError (Str ''unauthorized'') 401, v)"
  using assms by (simp add: auth_def stripPrefix_iff bearerPrefix_def edgeAPI_def newIngest_def)

lemma webhook_rejects:
  assumes "\<And>body. readBounded (cf_MaxBodyBytes cfg) rq = BodyOk body \<Longrightarrow>
    \<not> VerifySignature body (in_header rq SignatureHeader) (cf_BetaGridWebhookSecret cfg)"
  obtains reply where "rp_status reply \<in> {400, 401, 413, 503}"
    "\<And>v. fst (BetaGrid (webhookHandler cfg) rq v) = reply \<and> untouched v (snd (BetaGrid (webhookHandler cfg) rq v))"
proof -
  have "\<exists>reply. rp_status reply \<in> {400, 401, 413, 503} \<and>
      (\<forall>v. fst (BetaGrid (webhookHandler cfg) rq v) = reply \<and> untouched v (snd (BetaGrid (webhookHandler cfg) rq v)))"
    using assms
    by (cases "cf_BetaGridWebhookSecret cfg = []"; cases "readBounded (cf_MaxBodyBytes cfg) rq")
      (auto simp: BetaGrid_def webhookHandler_def newWebhook_def reject_def untouched_def metricInc_def)
  then show thesis using that by blast
qed

lemma Ping_untouched: "untouched w (snd (Ping w))"
proof -
  have "snd (Ping w) = snd (exec_sql (\<lambda>now db. Inr ((), db)) w)"
    by (simp add: Ping_def split: prod.split sum.split)
  moreover have "store_effect w (snd (exec_sql (\<lambda>now db. Inr ((), db)) w))"
    by (rule exec_sql_effect) simp
  ultimately have "store_effect w (snd (Ping w))" by simp
  then show ?thesis
    using Ping_db [of w] store_effectD [of w "snd (Ping w)"] by (auto simp: untouched_def)
qed

lemma plainRoutes_untouched:
  assumes "(pattern, g) \<in> set (plainRoutes ex)"
  shows "untouched w (snd (g rq w))"
  using assms Ping_untouched [of w]
  by (auto simp: plainRoutes_def HealthHandler_def MetricsHandler_def ReadyHandler_def untouched_def
      split: prod.split option.split)

lemma plainRoutes_paths:
  assumes "(pattern, g) \<in> set (plainRoutes ex)" "parsePattern pattern = (verb, segs)" "verbMatches verb m"
    "matchSegs segs (pathSegments path) = Some vs"
  shows "m \<in> {''GET'', ''HEAD''} \<and> pathSegments path \<in> {[''healthz''], [''readyz''], [''metrics'']}"
proof -
  have "verb = ''GET'' \<and> segs \<in> {[Lit ''healthz''], [Lit ''readyz''], [Lit ''metrics'']}"
    using assms(1,2) by (auto simp: plainRoutes_def)
  then show ?thesis
    using assms(3,4) by (cases "pathSegments path"; cases "tl (pathSegments path)")
      (auto simp: verbMatches_def split: if_splits)
qed



section \<open>Push commands to AlphaSense\<close>

lemma dispatch_sent:
  assumes "dispatch (service ttl senders) send device cmd w = (r, w')"
  shows "w_sent w' = w_sent (snd (send (d_ExternalID device) cmd w))"
proof -
  have "w_sent (snd (TransitionCommand uid to msg v)) = w_sent v" for uid to msg v
    using store_effectD(7) [of v "snd (TransitionCommand uid to msg v)"] by (simp add: steps_intros)
  then show ?thesis
    using assms
    by (auto simp: dispatch_def metricInc_def split: prod.splits sum.splits) (metis snd_conv)+
qed



section \<open>A configuration that stops the process\<close>

text \<open>Load accepts an interval the poller cannot run with. When AlphaSense is fully configured and the
  polling interval parses to zero or a negative duration, Load still succeeds, and the one poller that the
  connector then starts panics in time.NewTicker before its first cycle, whatever the state of the world.\<close>

theorem nonpositive_interval_panics:
  assumes "settings_ok env" "env ''ALPHASENSE_BASE_URL'' \<noteq> []"
    "ParseDuration (env ''ALPHASENSE_POLL_INTERVAL'') = Some d" "d \<le> 0"
  shows "\<exists>cfg p. Load env = Inr cfg \<and> pollersOf cfg client = [p] \<and> (\<forall>waits w. Run p waits w = None)"
proof -
  have "ParseDuration [] = None" by (rule ParseDuration_examples)
  with assms(3) have interval: "as_PollInterval (cf_AlphaSense (readConfig env)) = d"
    by (auto simp: readConfig_def getdur_def Let_def)
  obtain cfg where cfg: "Load env = Inr cfg"
    "as_BaseURL (cf_AlphaSense cfg) \<noteq> []" "as_PollInterval (cf_AlphaSense cfg) = d"
    using Load_accepts [OF assms(1)] assms(2) interval by auto
  then show ?thesis
    using assms(4) by (intro exI [of _ cfg]) (auto simp: pollersOf_def Run_panics)
qed

definition demo_env :: env where
  "demo_env key =
     (if key = ''DATABASE_URL'' \<or> key = ''ALPHASENSE_BASE_URL'' \<or> key = ''ALPHASENSE_TOKEN_URL'' \<or>
         key = ''ALPHASENSE_CLIENT_ID'' \<or> key = ''ALPHASENSE_CLIENT_SECRET'' then ''x''
      else if key = ''ALPHASENSE_POLL_INTERVAL'' then ''0s'' else [])"

lemma nonpositive_interval_panics_witness:
  "\<exists>cfg p. Load demo_env = Inr cfg \<and> pollersOf cfg \<lparr>hc_badURL = (\<lambda>_. False)\<rparr> = [p] \<and>
     Run p [\<lambda>w. w] (calm empty_database) = None"
proof -
  have "ParseDuration (demo_env ''ALPHASENSE_POLL_INTERVAL'') = Some 0"
    by (simp add: demo_env_def ParseDuration_examples)
  moreover have "settings_ok demo_env" by (simp add: settings_ok_def cipherKeyOk_def demo_env_def)
  ultimately show ?thesis
    using nonpositive_interval_panics [of demo_env 0 "\<lparr>hc_badURL = (\<lambda>_. False)\<rparr>"]
    by (fastforce simp: demo_env_def)
qed

end
