(* ===== verification/ProviderSim.thy ===== *)
theory ProviderSim
  imports Mux AlphaSense Connections Config Webhook
begin

text \<open>
  The provider simulator (\<^verbatim>\<open>cmd/providersim/main.go\<close>): the OAuth token endpoint and the REST
  interface of AlphaSense, and the pusher of BetaGrid. Its state is a record of its own; clock and
  random source are those of the \<open>world\<close> it runs in. A response is a status and the bytes of its body.
\<close>

section \<open>State and settings\<close>

text \<open>The map of an alert always has these six keys.\<close>

record sim_alert =
  sa_id :: string
  sa_unit :: string
  sa_category :: string
  sa_score :: nat
  sa_raised :: string
  sa_confirmed :: string

record alphaSim =
  sm_clientID :: string
  sm_clientSecret :: string
  sm_tokenTTL :: Duration
  sm_access :: "string \<rightharpoonup> Time"
  sm_refresh :: "string \<rightharpoonup> bool"
  sm_alerts :: "sim_alert list"

definition mustDur :: "string \<Rightarrow> Duration" where
  "mustDur s = (case ParseDuration s of None \<Rightarrow> 60 * Second | Some d \<Rightarrow> d)"

definition newSim :: "env \<Rightarrow> alphaSim" where
  "newSim env = \<lparr>sm_clientID = getenv env ''SIM_CLIENT_ID'' ''alphasense-demo-client'',
     sm_clientSecret = getenv env ''SIM_CLIENT_SECRET'' ''alphasense-demo-secret'',
     sm_tokenTTL = mustDur (getenv env ''SIM_TOKEN_TTL'' ''90s''),
     sm_access = Map.empty, sm_refresh = Map.empty, sm_alerts = []\<rparr>"

type_synonym sim_handler = "http_in \<Rightarrow> alphaSim \<Rightarrow> world \<Rightarrow> http_response \<times> alphaSim \<times> world"

text \<open>\<^verbatim>\<open>http.Error\<close> and the JSON encoder both end the body with a newline.\<close>

definition simError :: "string \<Rightarrow> int \<Rightarrow> http_response" where
  "simError reason status =
     \<lparr>rs_status = status, rs_body = marshal (JObj [(''error'', JStr reason)]) @ [newline]\<rparr>"

definition simReply :: "int \<Rightarrow> json \<Rightarrow> http_response" where
  "simReply status doc = \<lparr>rs_status = status, rs_body = encode doc\<rparr>"

section \<open>Tokens\<close>

definition randomToken :: "world \<Rightarrow> string \<times> world" where
  "randomToken w = (let (b, w1) = readRandom 24 w in (hexEncode (fromBytes b), w1))"

text \<open>\<^verbatim>\<open>int(d.Seconds())\<close>: whole seconds and the rest added in binary64, then cut towards zero.\<close>

definition truncated :: "rat \<Rightarrow> int" where
  "truncated q = (if q < 0 then \<lceil>q\<rceil> else \<lfloor>q\<rfloor>)"

definition quotSecond :: "Duration \<Rightarrow> int" where
  "quotSecond d = (if d < 0 then - (- d div Second) else d div Second)"

definition wholeSeconds :: "Duration \<Rightarrow> int" where
  "wholeSeconds d =
     (let sec = quotSecond d; nsec = d - sec * Second
      in truncated (round64' (of_int sec + round64' (of_int nsec / 1000000000))))"

text \<open>Two fresh tokens, under the mutex.\<close>

definition issueTokens :: "alphaSim \<Rightarrow> world \<Rightarrow> http_response \<times> alphaSim \<times> world" where
  "issueTokens s w =
     (let (access, w1) = randomToken w;
          (refresh, w2) = randomToken w1;
          (now, w3) = timeNow w2
      in (simReply StatusOK (JObj [(''access_token'', JStr access), (''refresh_token'', JStr refresh),
            (''token_type'', JStr ''Bearer''), (''expires_in'', JNum (itoa (wholeSeconds (sm_tokenTTL s))))]),
          s\<lparr>sm_access := (sm_access s)(access \<mapsto> time_Add now (sm_tokenTTL s)),
            sm_refresh := (sm_refresh s)(refresh \<mapsto> True)\<rparr>, w3))"

definition simToken :: sim_handler where
  "simToken r s w =
     (case ParseForm r of
        None \<Rightarrow> (simError ''invalid_request'' StatusBadRequest, s, w)
      | Some form \<Rightarrow>
          if formGet ''client_id'' form \<noteq> sm_clientID s \<or> formGet ''client_secret'' form \<noteq> sm_clientSecret s
          then (simError ''invalid_client'' StatusUnauthorized, s, w)
          else if formGet ''grant_type'' form = ''client_credentials'' then issueTokens s w
          else if formGet ''grant_type'' form = ''refresh_token'' then
            (let rt = formGet ''refresh_token'' form
             in if sm_refresh s rt \<noteq> Some True
                then (simError ''invalid_grant'' StatusBadRequest, s, w)
                else issueTokens (s\<lparr>sm_refresh := (sm_refresh s)(rt := None)\<rparr>) w)
          else (simError ''unsupported_grant_type'' StatusBadRequest, s, w))"

text \<open>\<^verbatim>\<open>strings.CutPrefix\<close> leaves a header without the scheme as it is.\<close>

definition bearerOf :: "string \<Rightarrow> string" where
  "bearerOf h = (case stripPrefix ''Bearer '' h of Some t \<Rightarrow> t | None \<Rightarrow> h)"

definition simAuth :: "sim_handler \<Rightarrow> sim_handler" where
  "simAuth nextHandler r s w =
     (case sm_access s (bearerOf (in_header r ''Authorization'')) of
        None \<Rightarrow> (simError ''invalid_token'' StatusUnauthorized, s, w)
      | Some expiry \<Rightarrow>
          (let (now, w1) = timeNow w
           in if time_After now expiry then (simError ''invalid_token'' StatusUnauthorized, s, w1)
              else nextHandler r s w1))"

section \<open>Units, alerts and instructions\<close>

definition unitDoc :: "string \<Rightarrow> string \<Rightarrow> string \<Rightarrow> Time \<Rightarrow> string \<Rightarrow> json" where
  "unitDoc ref label health ping firmware =
     JObj [(''unit_ref'', JStr ref), (''label'', JStr label), (''health'', JStr health),
           (''last_ping'', JStr (formatRFC3339 ping)), (''firmware'', JStr firmware)]"

definition simUnits :: sim_handler where
  "simUnits r s w =
     (let (t1, w1) = timeNow w; (t2, w2) = timeNow w1; (t3, w3) = timeNow w2
      in (simReply StatusOK (JObj [(''units'', JArr
            [unitDoc ''as-unit-01'' ''Warehouse north cam'' ''green'' t1 ''2.3.1'',
             unitDoc ''as-unit-02'' ''Loading dock cam'' ''amber'' (time_Add t2 (- 90 * Second)) ''2.2.9'',
             unitDoc ''as-unit-03'' ''Boiler room cam'' ''red'' (time_Add t3 (- 45 * Minute)) ''2.3.1''])]), s, w3))"

text \<open>\<^verbatim>\<open>rand.Int(rand.Reader, 1000000)\<close> is uniform below the bound.\<close>

definition makeAlert :: "world \<Rightarrow> sim_alert \<times> world" where
  "makeAlert w =
     (let (r, w1) = randNext w; n = r mod 1000000; (now, w2) = timeNow w1
      in (\<lparr>sa_id = ''as-alert-'' @ natDigits n, sa_unit = ''as-unit-01'',
           sa_category = (if n mod 2 = 0 then ''fire'' else ''smoke''), sa_score = 55 + n mod 45,
           sa_raised = formatRFC3339 (time_Add now (- 20 * Second)), sa_confirmed = formatRFC3339 now\<rparr>, w2))"

definition seedFirst :: "alphaSim \<Rightarrow> world \<Rightarrow> alphaSim \<times> world" where
  "seedFirst s w = (let (a, w1) = makeAlert w in (s\<lparr>sm_alerts := [a]\<rparr>, w1))"

text \<open>One tick of the seeding loop: at most the latest fifty alerts are kept.\<close>

definition seedTick :: "alphaSim \<Rightarrow> world \<Rightarrow> alphaSim \<times> world" where
  "seedTick s w =
     (let (a, w1) = makeAlert w; as = sm_alerts s @ [a]
      in (s\<lparr>sm_alerts := (if 50 < length as then drop (length as - 50) as else as)\<rparr>, w1))"

fun seedRun :: "nat \<Rightarrow> alphaSim \<Rightarrow> world \<Rightarrow> alphaSim \<times> world" where
  "seedRun 0 s w = (s, w)"
| "seedRun (Suc n) s w = (let (s1, w1) = seedTick s w in seedRun n s1 w1)"

definition alertDoc :: "sim_alert \<Rightarrow> json" where
  "alertDoc a = JObj [(''alert_id'', JStr (sa_id a)), (''unit_ref'', JStr (sa_unit a)),
     (''category'', JStr (sa_category a)), (''score'', JNum (natDigits (sa_score a))),
     (''raised_at'', JStr (sa_raised a)), (''confirmed_at'', JStr (sa_confirmed a))]"

definition confirmedSince :: "Time \<Rightarrow> sim_alert \<Rightarrow> bool" where
  "confirmedSince since a =
     (case parseRFC3339 (sa_confirmed a) of None \<Rightarrow> False | Some ts \<Rightarrow> time_After ts since)"

definition simAlerts :: sim_handler where
  "simAlerts r s w =
     (let since = (case parseRFC3339 (in_query r ''since'') of None \<Rightarrow> zeroTime | Some t \<Rightarrow> t)
      in (simReply StatusOK (JObj [(''alerts'', JArr (map alertDoc (filter (confirmedSince since) (sm_alerts s))))]),
          s, w))"

definition simInstructions :: sim_handler where
  "simInstructions r s w =
     (let (tok, w1) = randomToken w
      in (simReply StatusAccepted (JObj [(''ticket'', JStr (take 8 tok))]), s, w1))"

definition simRoutes :: "(string \<times> sim_handler) list" where
  "simRoutes = [(''POST /oauth/token'', simToken), (''GET /api/v2/units'', simAuth simUnits),
     (''GET /api/v2/alerts'', simAuth simAlerts),
     (''POST /api/v2/units/{ref}/instructions'', simAuth simInstructions)]"

text \<open>\<^verbatim>\<open>http.Error\<close> with a plain text; the multiplexer answers a redirect without a body here.\<close>

definition plainError :: "string \<Rightarrow> int \<Rightarrow> http_response" where
  "plainError reason status = \<lparr>rs_status = status, rs_body = reason @ [newline]\<rparr>"

definition simServe :: sim_handler where
  "simServe r s w =
     (case muxFind simRoutes (in_method r) (in_path r) of
        MuxBadRequest \<Rightarrow> (\<lparr>rs_status = StatusBadRequest, rs_body = []\<rparr>, s, w)
      | MuxRedirect \<Rightarrow> (\<lparr>rs_status = 301, rs_body = []\<rparr>, s, w)
      | MuxNotFound \<Rightarrow> (plainError ''404 page not found'' StatusNotFound, s, w)
      | MuxNotAllowed \<Rightarrow> (plainError ''Method Not Allowed'' 405, s, w)
      | MuxFound h vs \<Rightarrow> h (withPathValues vs r) s w)"

text \<open>The simulator when it starts to listen: no tokens, and one alert to begin with.\<close>

definition simStart :: "env \<Rightarrow> world \<Rightarrow> alphaSim \<times> world" where
  "simStart env w = seedFirst (newSim env) w"

section \<open>The BetaGrid pusher\<close>

text \<open>Target, secret and interval of the pusher; without a target or a secret it does not run.\<close>

definition pushSettings :: "env \<Rightarrow> (string \<times> string \<times> Duration) option" where
  "pushSettings env =
     (let target = env ''BETAGRID_TARGET_URL''; secret = env ''BETAGRID_WEBHOOK_SECRET''
      in if target = [] \<or> secret = [] then None
         else Some (target, secret, mustDur (getenv env ''BETAGRID_PUSH_INTERVAL'' ''45s'')))"

definition unixSeconds :: "Time \<Rightarrow> int" where
  "unixSeconds t = t div 1000000000"

definition pushPayload :: "nat \<Rightarrow> Time \<Rightarrow> json" where
  "pushPayload seq now =
     (if seq mod 3 = 0 then
        JObj [(''msg_id'', JStr (''bg-msg-'' @ natDigits seq)), (''sent_at'', JNum (itoa (unixSeconds now))),
              (''kind'', JStr ''heartbeat''),
              (''data'', JObj [(''device'', JStr ''bg-sensor-7''), (''state'', JStr ''up'')])]
      else
        JObj [(''msg_id'', JStr (''bg-msg-'' @ natDigits seq)), (''sent_at'', JNum (itoa (unixSeconds now))),
              (''kind'', JStr ''hazard''),
              (''data'', JObj [(''device'', JStr ''bg-sensor-7''),
                 (''hazard'', JStr (if seq mod 2 = 0 then ''FLAME'' else ''SMOKE_DETECTED'')),
                 (''certainty'', JStr ''high''),
                 (''started'', JNum (itoa (unixSeconds (time_Add now (- 15 * Second))))),
                 (''verified'', JNum (itoa (unixSeconds now)))])])"

text \<open>A pushed delivery as the receiver sees it; whatever it answers is only logged.\<close>

definition pushRequest :: "string \<Rightarrow> string \<Rightarrow> http_in" where
  "pushRequest secret body =
     \<lparr>in_method = ''POST'', in_path = ''/v1/webhooks/betagrid'',
      in_header = (\<lambda>h. if h = SignatureHeader then Sign body secret
                        else if h = ''Content-Type'' then ''application/json'' else []),
      in_query = (\<lambda>_. []), in_pathValue = (\<lambda>_. []), in_body = body, in_broken = False\<rparr>"

text \<open>One tick: the next message, sent twice when its number is a multiple of four.\<close>

definition pushTick :: "string \<Rightarrow> nat \<Rightarrow> world \<Rightarrow> (nat \<times> http_in list) \<times> world" where
  "pushTick secret seq0 w =
     (let seq = seq0 + 1;
          (now, w1) = timeNow w;
          body = marshal (pushPayload seq now)
      in ((seq, pushRequest secret body # (if seq mod 4 = 0 then [pushRequest secret body] else [])), w1))"

text \<open>
  The loop over so many ticks, and what it sent. \<^verbatim>\<open>time.Tick\<close> never ticks when the interval is
  not positive.
\<close>

fun pushTicks :: "nat \<Rightarrow> string \<Rightarrow> nat \<Rightarrow> world \<Rightarrow> http_in list \<times> world" where
  "pushTicks 0 secret seq w = ([], w)"
| "pushTicks (Suc n) secret seq w =
     (let ((seq', sent), w1) = pushTick secret seq w; (rest, w2) = pushTicks n secret seq' w1
      in (sent @ rest, w2))"

definition pushBetaGrid :: "Duration \<Rightarrow> nat \<Rightarrow> string \<Rightarrow> world \<Rightarrow> http_in list \<times> world" where
  "pushBetaGrid interval ticks secret w = pushTicks (if interval \<le> 0 then 0 else ticks) secret 0 w"

end
