(* ===== verification/SimResults.thy ===== *)
theory SimResults
  imports ProviderSim
begin

text \<open>
  The simulator and the connector together: the two sides of the token endpoint, of the webhook and of
  the list of alerts agree on the bytes they exchange.
\<close>

section \<open>Numbers survive the wire\<close>

lemma natDigits_leading: "byte (hd (natDigits n)) = 48 \<longleftrightarrow> n = 0"
proof (induction n rule: natDigits.induct)
  case (1 n)
  show ?case
  proof (cases "n < 10")
    case True
    then show ?thesis by (subst natDigits.simps) (simp add: digitChar_def byte_def)
  next
    case False
    then show ?thesis using "1.IH" natDigits_shape(2) by (subst natDigits.simps) (auto simp: hd_append)
  qed
qed

lemma plainNumber_natDigits [simp]: "plainNumber (natDigits n)"
proof -
  obtain c cs where c: "natDigits n = c # cs" using natDigits_shape(2) by (cases "natDigits n") auto
  have "natDigits 0 = [digitChar 0]" by (subst natDigits.simps) simp
  with c natDigits_leading [of n] natDigits_shape(1) [of n] show ?thesis
    by (auto simp: plainNumber_def)
qed

lemma plainNumber_itoa [simp]: "0 \<le> n \<Longrightarrow> plainNumber (itoa n)"
  by (simp add: itoa_def)

lemma parseIntLit_itoa [simp]: "0 \<le> n \<Longrightarrow> n < 2 ^ 63 \<Longrightarrow> parseIntLit 64 (itoa n) = Some n"
proof -
  assume n: "0 \<le> n" "n < 2 ^ 63"
  obtain c cs where c: "natDigits (nat n) = c # cs" "isDigit c"
    using natDigits_shape [of "nat n"] by (cases "natDigits (nat n)") auto
  then have "byte c \<noteq> 45" by (simp add: isDigit_def)
  with n c natDigits_shape [of "nat n"] natOf_natDigits [of "nat n"] show ?thesis
    by (simp add: parseIntLit_def itoa_def Let_def)
qed

lemma natDigits_length: "n < 10 ^ k \<Longrightarrow> 0 < k \<Longrightarrow> length (natDigits n) \<le> k"
proof (induction n arbitrary: k rule: natDigits.induct)
  case (1 n)
  show ?case
  proof (cases "n < 10")
    case True
    then show ?thesis using "1.prems" by (subst natDigits.simps) simp
  next
    case False
    with "1.prems" obtain k' where k: "k = Suc k'" "0 < k'"
      by (metis One_nat_def Suc_pred gr0I power_one_right)
    with "1.prems" have "n div 10 < 10 ^ k'" by (simp add: div_less_iff_less_mult mult.commute)
    with "1.IH" False k show ?thesis by (subst natDigits.simps) simp
  qed
qed

text \<open>A whole number below \<open>2 ^ 53\<close> is a binary64 value.\<close>

lemma roundHalfEven_whole: "0 < b \<Longrightarrow> roundHalfEven (k * b) b = k"
  by (simp add: roundHalfEven_def)

lemma bitLength_bound: "n < 2 ^ k \<Longrightarrow> bitLength n \<le> k"
proof (induction k arbitrary: n)
  case 0
  then show ?case by (simp add: bitLength.simps)
next
  case (Suc k)
  then have "n div 2 < 2 ^ k" by simp
  with Suc.IH show ?case by (subst bitLength.simps) simp
qed

lemma roundPos_whole:
  assumes "n < 2 ^ 53"
  shows "roundPos n 1 = Some (of_nat n)"
proof (cases "n = 0")
  case False
  have one: "bitLength (Suc 0) = 1" by (simp add: bitLength.simps)
  have "leading n 1 \<le> 52"
    using bitLength_bound [OF assms] by (auto simp: leading_def one Let_def)
  then obtain v where u: "max (leading n 1 - 52) (- 1074) = - int v"
    by (metis (mono_tags) diff_le_0_iff_le max.bounded_iff neg_0_le_iff_le neg_le_0_iff_le nonneg_int_cases
        minus_minus zero_le_numeral)
  have "roundHalfEven (n * 2 ^ v) 1 = n * 2 ^ v" using roundHalfEven_whole [of 1] by simp
  then have "of_nat (roundHalfEven (n * 2 ^ nat (- (- int v))) (1 * 2 ^ nat (- int v))) * pow2 (- int v) = of_nat n"
    by (simp add: pow2_def)
  moreover have "\<not> 2 ^ 1024 \<le> (of_nat n :: rat)"
  proof -
    have "(of_nat n :: rat) < of_nat (2 ^ 53)" using assms by (simp only: of_nat_less_iff)
    also have "\<dots> \<le> 2 ^ 1024" by simp
    finally show ?thesis by simp
  qed
  ultimately show ?thesis
    unfolding roundPos_def Let_def u using False by (simp only: if_False)
qed (simp add: roundPos_def)

lemma parseFloatLit_natDigits [simp]: "n < 2 ^ 53 \<Longrightarrow> parseFloatLit (natDigits n) = Some (of_nat n)"
proof -
  assume n: "n < 2 ^ 53"
  obtain c cs where c: "natDigits n = c # cs" "isDigit c" "list_all isDigit cs"
    using natDigits_shape [of n] by (cases "natDigits n") auto
  then have "byte c \<noteq> 45" "takeWhile isDigit (natDigits n) = natDigits n" "dropWhile isDigit (natDigits n) = []"
    by (auto simp: isDigit_def list_all_iff)
  with c(1) roundPos_whole [OF n] natOf_natDigits [of n] show ?thesis
    by (simp add: parseFloatLit_def Let_def)
qed

lemma round64_whole: "n < 2 ^ 53 \<Longrightarrow> round64' (of_nat n) = of_nat n"
proof -
  assume "n < 2 ^ 53"
  moreover have "quotient_of (of_nat n) = (int n, 1)"
    using quotient_of_int [of "int n"] by simp
  ultimately show ?thesis using roundPos_whole [of n] by (simp add: round64'_def round64_def)
qed

lemma wholeSeconds_whole: "n < 2 ^ 53 \<Longrightarrow> wholeSeconds (int n * Second) = int n"
  using round64_whole [of n] round64_whole [of 0]
  by (simp add: wholeSeconds_def quotSecond_def truncated_def Let_def Second_def)

section \<open>The two sides of the token endpoint agree\<close>

text \<open>A client's request as the endpoint receives it.\<close>

definition formPost :: "http_request \<Rightarrow> http_in" where
  "formPost q = \<lparr>in_method = rq_method q, in_path = ''/oauth/token'',
     in_header = (\<lambda>h. if h = ''Content-Type'' then formType else []),
     in_query = (\<lambda>_. []), in_pathValue = (\<lambda>_. []), in_body = rq_body q, in_broken = False\<rparr>"

definition bearing :: "string \<Rightarrow> http_in" where
  "bearing tok = \<lparr>in_method = ''GET'', in_path = [], in_header = (\<lambda>h. if h = ''Authorization'' then ''Bearer '' @ tok else []),
     in_query = (\<lambda>_. []), in_pathValue = (\<lambda>_. []), in_body = [], in_broken = False\<rparr>"

lemma bearing_token: "bearerOf (in_header (bearing tok) ''Authorization'') = tok"
  by (simp add: bearing_def bearerOf_def stripPrefix_def)

lemma hexEncode_plain: "list_all plainChar (hexEncode s)"
proof -
  have digit: "plainChar (hexDigitLower n)" for n
  proof -
    have "n mod 16 \<in> {0, 1, 2, 3, 4, 5, 6, 7, 8, 9, 10, 11, 12, 13, 14, 15}" by (simp, presburger)
    then show ?thesis by (auto simp: hexDigitLower_def plainChar_def isHtml_def byte_def)
  qed
  then show ?thesis by (induction s) (simp_all add: hexEncode_def)
qed

lemma randomToken_shape:
  assumes "randomToken w = (tok, w')"
  shows "list_all plainChar tok" "length tok = 48"
proof -
  obtain b w1 where b: "readRandom 24 w = (b, w1)" by fastforce
  with assms have tok: "tok = hexEncode (fromBytes b)" by (auto simp: randomToken_def)
  show "list_all plainChar tok" unfolding tok by (rule hexEncode_plain)
  have "length (hexEncode s) = 2 * length s" for s by (induction s) (simp_all add: hexEncode_def)
  then show "length tok = 48" using length_readRandom [OF b] by (simp add: tok)
qed


lemma simToken_credentials:
  assumes "oc_ClientID cfg = sm_clientID s" "oc_ClientSecret cfg = sm_clientSecret s"
    "length (formEncode (grantForm cfg credentialsForm)) \<le> 10485760"
  shows "simToken (formPost (grantRequest cfg (grantForm cfg credentialsForm))) s w = issueTokens s w"
proof -
  let ?f = "grantForm cfg credentialsForm"
  have f: "?f = [(''grant_type'', ''client_credentials''), (''client_id'', sm_clientID s),
      (''client_secret'', sm_clientSecret s)]"
    using assms(1,2) by (simp add: grantForm_def formSet_def credentialsForm_def)
  have "ParseForm (formPost (grantRequest cfg ?f)) = Some (sort_key fst ?f)"
    using assms(3) by (simp add: ParseForm_def formPost_def grantRequest_def parseQuery_formEncode)
  moreover have "formGet k (sort_key fst ?f) = formGet k ?f" for k
    by (rule formGet_sorted) (simp add: f)
  ultimately show ?thesis by (simp add: simToken_def f formGet_def)
qed

lemma simToken_refresh:
  assumes "oc_ClientID cfg = sm_clientID s" "oc_ClientSecret cfg = sm_clientSecret s"
    "length (formEncode (grantForm cfg (refreshForm rt))) \<le> 10485760"
  shows "simToken (formPost (grantRequest cfg (grantForm cfg (refreshForm rt)))) s w =
    (if sm_refresh s rt = Some True then issueTokens (s\<lparr>sm_refresh := (sm_refresh s)(rt := None)\<rparr>) w
     else (simError ''invalid_grant'' 400, s, w))"
proof -
  let ?f = "grantForm cfg (refreshForm rt)"
  have f: "?f = [(''grant_type'', ''refresh_token''), (''refresh_token'', rt), (''client_id'', sm_clientID s),
      (''client_secret'', sm_clientSecret s)]"
    using assms(1,2) by (simp add: grantForm_def formSet_def refreshForm_def)
  have "ParseForm (formPost (grantRequest cfg ?f)) = Some (sort_key fst ?f)"
    using assms(3) by (simp add: ParseForm_def formPost_def grantRequest_def parseQuery_formEncode)
  moreover have "formGet k (sort_key fst ?f) = formGet k ?f" for k
    by (rule formGet_sorted) (simp add: f)
  ultimately show ?thesis by (simp add: simToken_def f formGet_def)
qed

lemma issueTokens_readable:
  assumes "sm_tokenTTL s = int n * Second" "n < 10 ^ 10" "issueTokens s w = (resp, s', w')"
  obtains access refresh now where "rs_status resp = 200"
    "decodeTokenResponse (take 65536 (rs_body resp)) =
       (\<lparr>tr_AccessToken = access, tr_RefreshToken = refresh, tr_ExpiresIn = int n, tr_Error = []\<rparr>, True)"
    "length access = 48" "length refresh = 48"
    "s' = s\<lparr>sm_access := (sm_access s)(access \<mapsto> time_Add now (sm_tokenTTL s)),
            sm_refresh := (sm_refresh s)(refresh \<mapsto> True)\<rparr>"
proof -
  obtain access w1 where a: "randomToken w = (access, w1)" by fastforce
  obtain refresh w2 where r: "randomToken w1 = (refresh, w2)" by fastforce
  obtain now w3 where t: "timeNow w2 = (now, w3)" by fastforce
  note a' = randomToken_shape [OF a] and r' = randomToken_shape [OF r]
  let ?doc = "JObj [(''access_token'', JStr access), (''refresh_token'', JStr refresh),
    (''token_type'', JStr ''Bearer''), (''expires_in'', JNum (itoa (int n)))]"
  let ?sorted = "JObj [(''access_token'', JStr access), (''expires_in'', JNum (itoa (int n))),
    (''refresh_token'', JStr refresh), (''token_type'', JStr ''Bearer'')]"
  have whole: "wholeSeconds (sm_tokenTTL s) = int n"
    using wholeSeconds_whole [of n] assms(1,2) by simp
  have resp: "resp = simReply 200 ?doc" and s': "s' = s\<lparr>sm_access := (sm_access s)(access \<mapsto> time_Add now (sm_tokenTTL s)),
            sm_refresh := (sm_refresh s)(refresh \<mapsto> True)\<rparr>"
    using assms(3) by (auto simp: issueTokens_def a r t whole)
  have sorted: "sortMembers ?doc = ?sorted" by simp
  have plain: "plain 0 (sortMembers ?doc)"
    using a'(1) r'(1) by (simp add: sorted maxNestingDepth_def plainChar_def isHtml_def byte_def)
  from natDigits_length [OF assms(2)] have "length (itoa (int n)) \<le> 10" by (simp add: itoa_def)
  then have "length (encode ?doc) \<le> 65536"
    using a' r' unfolding encode_def marshal_def sorted
    by (simp add: jsonQuote_plain plainChar_def isHtml_def byte_def)
  then have "take 65536 (rs_body resp) = encode ?doc" by (simp add: resp simReply_def)
  moreover have "decodeTokenResponse (encode ?doc) =
      (\<lparr>tr_AccessToken = access, tr_RefreshToken = refresh, tr_ExpiresIn = int n, tr_Error = []\<rparr>, True)"
    unfolding decodeTokenResponse_def marshal_parses(2) [OF plain] sorted
    using assms(2) by (simp add: asObject_def decodeField_def fieldValues_def stringStep_def intStep_def upperByte_def byte_def)
  ultimately show thesis
    using that [of access refresh now] a'(2) r'(2) s' resp by (simp add: simReply_def)
qed


lemma queryEscape_length: "length (queryEscape s) \<le> 3 * length s"
  by (induction s) (auto simp: queryEscape_def percentByte_def)

lemma grantForm_length:
  assumes "length (oc_ClientID cfg) + length (oc_ClientSecret cfg) \<le> 1000000" "length rt \<le> 1000"
  shows "length (formEncode (grantForm cfg credentialsForm)) \<le> 10485760"
    "length (formEncode (grantForm cfg (refreshForm rt))) \<le> 10485760"
  using assms queryEscape_length [of "oc_ClientID cfg"] queryEscape_length [of "oc_ClientSecret cfg"]
    queryEscape_length [of rt] queryEscape_length [of "''grant_type''"] queryEscape_length [of "''client_id''"]
    queryEscape_length [of "''client_secret''"] queryEscape_length [of "''refresh_token''"]
    queryEscape_length [of "''client_credentials''"]
  by (simp_all add: formEncode_def grantForm_def formSet_def credentialsForm_def refreshForm_def)

text \<open>A refresh token is redeemed once.\<close>

lemma refresh_redeemed:
  assumes "oc_ClientID cfg = sm_clientID s" "oc_ClientSecret cfg = sm_clientSecret s"
    "length (oc_ClientID cfg) + length (oc_ClientSecret cfg) \<le> 1000000"
    "sm_tokenTTL s = int n * Second" "n < 10 ^ 10" "sm_refresh s refresh = Some True" "length refresh = 48"
  shows "case simToken (formPost (grantRequest cfg (grantForm cfg (refreshForm refresh)))) s v of
    (resp', s', _) \<Rightarrow> rs_status resp' = 200 \<and> (\<exists>tr'. decodeTokenResponse (take 65536 (rs_body resp')) = (tr', True) \<and>
      tr_AccessToken tr' \<noteq> [] \<and>
      (tr_RefreshToken tr' = refresh \<or>
       (\<forall>u. simToken (formPost (grantRequest cfg (grantForm cfg (refreshForm refresh)))) s' u =
          (simError ''invalid_grant'' 400, s', u))))"
proof -
  let ?s = "s\<lparr>sm_refresh := (sm_refresh s)(refresh := None)\<rparr>"
  let ?run = "simToken (formPost (grantRequest cfg (grantForm cfg (refreshForm refresh))))"
  have len: "length (formEncode (grantForm cfg (refreshForm refresh))) \<le> 10485760"
    using grantForm_length(2) [OF assms(3), of refresh] assms(7) by simp
  obtain resp' s' v' where x: "issueTokens ?s v = (resp', s', v')" by (metis prod.collapse)
  have run: "?run s v = (resp', s', v')"
    using simToken_refresh [OF assms(1,2) len, of v] x assms(6) by simp
  have "sm_tokenTTL ?s = int n * Second" using assms(4) by simp
  from issueTokens_readable [OF this assms(5) x] obtain access2 refresh2 now2 where r: "rs_status resp' = 200"
    "decodeTokenResponse (take 65536 (rs_body resp')) =
       (\<lparr>tr_AccessToken = access2, tr_RefreshToken = refresh2, tr_ExpiresIn = int n, tr_Error = []\<rparr>, True)"
    "length access2 = 48" and s': "s' = ?s\<lparr>sm_access := (sm_access ?s)(access2 \<mapsto> time_Add now2 (sm_tokenTTL ?s)),
       sm_refresh := (sm_refresh ?s)(refresh2 \<mapsto> True)\<rparr>" by blast
  have "?run s' u = (simError ''invalid_grant'' 400, s', u)" if "refresh2 \<noteq> refresh" for u
    using simToken_refresh [of cfg s' refresh u] assms(1,2) len that by (simp add: s')
  then show ?thesis using r run by auto
qed

text \<open>Client and provider agree on tokens. The form the token manager posts, with the credentials the
  simulator expects, is answered 200 with a document the manager decodes without error into a nonempty
  token of the configured lifetime; that token opens the REST interface until it expires there and no
  longer; and the refresh token that came with it is accepted once: after it was redeemed, the simulator
  refuses it, unless chance issued the same one again.\<close>

theorem sim_tokens_agree:
  assumes "oc_ClientID cfg = sm_clientID s" "oc_ClientSecret cfg = sm_clientSecret s"
    "length (oc_ClientID cfg) + length (oc_ClientSecret cfg) \<le> 1000000"
    "sm_tokenTTL s = int n * Second" "n < 10 ^ 10"
    "simToken (formPost (grantRequest cfg (grantForm cfg credentialsForm))) s w = (resp, s1, w1)"
  shows "\<exists>tr expiry. rs_status resp = 200 \<and> decodeTokenResponse (take 65536 (rs_body resp)) = (tr, True) \<and>
    tr_AccessToken tr \<noteq> [] \<and> tr_ExpiresIn tr = int n \<and>
    (\<forall>nextHandler v. simAuth nextHandler (bearing (tr_AccessToken tr)) s1 v =
       (let (now, v1) = timeNow v
        in if expiry < now then (simError ''invalid_token'' 401, s1, v1)
           else nextHandler (bearing (tr_AccessToken tr)) s1 v1)) \<and>
    (\<forall>v. case simToken (formPost (grantRequest cfg (grantForm cfg (refreshForm (tr_RefreshToken tr))))) s1 v of
       (resp2, s2, _) \<Rightarrow> rs_status resp2 = 200 \<and> (\<exists>tr2. decodeTokenResponse (take 65536 (rs_body resp2)) = (tr2, True) \<and>
         tr_AccessToken tr2 \<noteq> [] \<and>
         (tr_RefreshToken tr2 = tr_RefreshToken tr \<or>
          (\<forall>u. simToken (formPost (grantRequest cfg (grantForm cfg (refreshForm (tr_RefreshToken tr))))) s2 u =
             (simError ''invalid_grant'' 400, s2, u)))))"
proof -
  have "issueTokens s w = (resp, s1, w1)"
    using assms(6) simToken_credentials [OF assms(1,2) grantForm_length(1) [OF assms(3), of "[]"]] by simp
  from issueTokens_readable [OF assms(4,5) this] obtain access refresh now where i: "rs_status resp = 200"
    "decodeTokenResponse (take 65536 (rs_body resp)) =
       (\<lparr>tr_AccessToken = access, tr_RefreshToken = refresh, tr_ExpiresIn = int n, tr_Error = []\<rparr>, True)"
    "length access = 48" "length refresh = 48" and s1: "s1 = s\<lparr>
       sm_access := (sm_access s)(access \<mapsto> time_Add now (sm_tokenTTL s)),
       sm_refresh := (sm_refresh s)(refresh \<mapsto> True)\<rparr>" by blast
  have lookup: "sm_access s1 access = Some (time_Add now (sm_tokenTTL s))" by (simp add: s1)
  have auth: "simAuth nextHandler (bearing access) s1 v =
      (let (t, v1) = timeNow v
       in if time_Add now (sm_tokenTTL s) < t then (simError ''invalid_token'' 401, s1, v1)
          else nextHandler (bearing access) s1 v1)" for nextHandler v
    using lookup by (simp add: simAuth_def bearing_token time_After_def split: prod.split)
  have redeem: "case simToken (formPost (grantRequest cfg (grantForm cfg (refreshForm refresh)))) s1 v of
      (resp2, s2, _) \<Rightarrow> rs_status resp2 = 200 \<and> (\<exists>tr2. decodeTokenResponse (take 65536 (rs_body resp2)) = (tr2, True) \<and>
        tr_AccessToken tr2 \<noteq> [] \<and> (tr_RefreshToken tr2 = refresh \<or>
        (\<forall>u. simToken (formPost (grantRequest cfg (grantForm cfg (refreshForm refresh)))) s2 u =
          (simError ''invalid_grant'' 400, s2, u))))" for v
    by (rule refresh_redeemed [OF _ _ assms(3) _ assms(5) _ i(4)]) (simp_all add: s1 assms(1,2,4))
  define tr where "tr = \<lparr>tr_AccessToken = access, tr_RefreshToken = refresh, tr_ExpiresIn = int n, tr_Error = []\<rparr>"
  have sel: "tr_AccessToken tr = access" "tr_RefreshToken tr = refresh" "tr_ExpiresIn tr = int n"
    by (simp_all add: tr_def)
  have "access \<noteq> []" using i(3) by auto
  then show ?thesis
    using i(1,2) auth redeem unfolding tr_def [symmetric]
    by (intro exI [of _ tr] exI [of _ "time_Add now (sm_tokenTTL s)"]) (simp only: sel simp_thms not_False_eq_True)
qed


definition demo_sim :: alphaSim where
  "demo_sim = \<lparr>sm_clientID = ''id'', sm_clientSecret = ''sec'', sm_tokenTTL = int 90 * Second,
     sm_access = Map.empty, sm_refresh = Map.empty, sm_alerts = []\<rparr>"

definition demo_oauth :: oauth_config where
  "demo_oauth = \<lparr>oc_TokenURL = ''u'', oc_ClientID = ''id'', oc_ClientSecret = ''sec'',
     oc_client = \<lparr>hc_badURL = (\<lambda>_. False)\<rparr>\<rparr>"

lemma sim_tokens_agree_witness:
  "\<exists>tr. decodeTokenResponse (take 65536 (rs_body (fst (simToken
      (formPost (grantRequest demo_oauth (grantForm demo_oauth credentialsForm))) demo_sim (calm (demo_db [])))))) =
    (tr, True) \<and> tr_AccessToken tr \<noteq> [] \<and> tr_ExpiresIn tr = 90"
proof -
  obtain resp s1 w1 where run: "simToken (formPost (grantRequest demo_oauth (grantForm demo_oauth credentialsForm)))
      demo_sim (calm (demo_db [])) = (resp, s1, w1)" by (metis prod.collapse)
  have fields: "oc_ClientID demo_oauth = sm_clientID demo_sim" "oc_ClientSecret demo_oauth = sm_clientSecret demo_sim"
    "length (oc_ClientID demo_oauth) + length (oc_ClientSecret demo_oauth) \<le> 1000000"
    "sm_tokenTTL demo_sim = int 90 * Second" by (simp_all add: demo_oauth_def demo_sim_def)
  show ?thesis using sim_tokens_agree [OF fields _ run] unfolding run by auto
qed

section \<open>What the simulator pushes, the connector admits\<close>

definition pushedHazard :: "nat \<Rightarrow> Time \<Rightarrow> Time \<Rightarrow> NormalizedEvent" where
  "pushedHazard seq sent now = \<lparr>ne_ExternalDeviceID = ''bg-sensor-7'',
     ne_Event = zeroHazardEvent\<lparr>e_DedupKey := ''bg-msg-'' @ natDigits seq, e_Source := ProviderBetaGrid,
       e_Type := (if seq mod 2 = 0 then HazardFire else HazardSmoke),
       e_Confidence := 8106479329266893 / 9007199254740992,
       e_FirstSeenAt := time_Unix (unixSeconds sent - 15), e_ConfirmedAt := time_Unix (unixSeconds sent),
       e_ReceivedAt := now\<rparr>\<rparr>"

definition pushedDelivery :: "nat \<Rightarrow> Time \<Rightarrow> Time \<Rightarrow> Delivery" where
  "pushedDelivery seq sent now = \<lparr>del_MsgID = ''bg-msg-'' @ natDigits seq,
     del_SentAt = time_Unix (unixSeconds sent),
     del_Event = (if seq mod 3 = 0 then None else Some (pushedHazard seq sent now)),
     del_Heartbeat = (if seq mod 3 = 0
       then Some \<lparr>hb_ExternalDeviceID = ''bg-sensor-7'', hb_Status = DeviceOnline\<rparr> else None)\<rparr>"

lemma natDigits_plain: "list_all plainChar (natDigits n)"
proof -
  have "isDigit c \<Longrightarrow> plainChar c" for c by (auto simp: isDigit_def plainChar_def isHtml_def)
  then show ?thesis using natDigits_shape(1) [of n] by (auto simp: list_all_iff)
qed

lemma unixSeconds_bounds:
  assumes "16 * Second \<le> t" "t < 2 ^ 62"
  shows "0 < unixSeconds t" "unixSeconds t < 2 ^ 62" "unixSeconds (time_Add t (- 15 * Second)) = unixSeconds t - 15"
    "0 < unixSeconds t - 15"
proof -
  have "t div 1000000000 \<ge> 16" using assms(1) by (simp add: Second_def)
  moreover have "t div 1000000000 \<le> t" using assms(1) by (simp add: Second_def)
  moreover have "(t - 15 * 1000000000) div 1000000000 = t div 1000000000 - 15" by simp
  ultimately show "0 < unixSeconds t" "unixSeconds t < 2 ^ 62"
    "unixSeconds (time_Add t (- 15 * Second)) = unixSeconds t - 15" "0 < unixSeconds t - 15"
    using assms(2) by (simp_all add: unixSeconds_def time_Add_def Second_def)
qed

lemma push_parses:
  assumes "16 * Second \<le> sent" "sent < 2 ^ 62"
  shows "Parse (marshal (pushPayload seq sent)) now = Inr (pushedDelivery seq sent now)"
proof -
  note u = unixSeconds_bounds [OF assms]
  let ?id = "''bg-msg-'' @ natDigits seq"
  have id: "list_all plainChar ?id" using natDigits_plain [of seq] by (simp add: plainChar_def isHtml_def byte_def)
  have run: "parseJson (marshal (pushPayload seq sent)) = Some (sortMembers (pushPayload seq sent))"
    using u id by (intro marshal_parses(1))
      (simp add: pushPayload_def maxNestingDepth_def plainChar_def isHtml_def byte_def)
  show ?thesis
  proof (cases "seq mod 3 = 0")
    case True
    have "unmarshalDelivery (marshal (pushPayload seq sent)) = Some \<lparr>wd_MsgID = ?id,
        wd_SentAt = unixSeconds sent, wd_Kind = ''heartbeat'',
        wd_Data = Some (JObj [(''device'', JStr ''bg-sensor-7''), (''state'', JStr ''up'')])\<rparr>"
      unfolding unmarshalDelivery_def run
      using u True by (simp add: pushPayload_def asObject_def decodeField_def fieldValues_def stringStep_def
          intStep_def rawStep_def upperByte_def byte_def)
    moreover have "unmarshalHeartbeat (Some (JObj [(''device'', JStr ''bg-sensor-7''), (''state'', JStr ''up'')])) =
        Some \<lparr>wb_Device = ''bg-sensor-7'', wb_State = ''up''\<rparr>"
      by (simp add: unmarshalHeartbeat_def decode_run)
    ultimately show ?thesis
      using u True by (simp add: Parse_def parseHeartbeat_def pushedDelivery_def)
  next
    case False
    let ?data = "JObj [(''certainty'', JStr ''high''), (''device'', JStr ''bg-sensor-7''),
      (''hazard'', JStr (if seq mod 2 = 0 then ''FLAME'' else ''SMOKE_DETECTED'')),
      (''started'', JNum (itoa (unixSeconds (time_Add sent (- 15 * Second))))), (''verified'', JNum (itoa (unixSeconds sent)))]"
    have "unmarshalDelivery (marshal (pushPayload seq sent)) = Some \<lparr>wd_MsgID = ?id,
        wd_SentAt = unixSeconds sent, wd_Kind = ''hazard'', wd_Data = Some ?data\<rparr>"
      unfolding unmarshalDelivery_def run
      using u False by (simp add: pushPayload_def asObject_def decodeField_def fieldValues_def stringStep_def
          intStep_def rawStep_def upperByte_def byte_def)
    moreover have "unmarshalHazard (Some ?data) = Some \<lparr>wz_Device = ''bg-sensor-7'',
        wz_Hazard = (if seq mod 2 = 0 then ''FLAME'' else ''SMOKE_DETECTED''), wz_Certainty = ''high'',
        wz_Started = unixSeconds sent - 15, wz_Verified = unixSeconds sent\<rparr>"
      using u by (simp add: unmarshalHazard_def asObject_def decodeField_def fieldValues_def stringStep_def
          intStep_def upperByte_def byte_def)
    ultimately show ?thesis
      using u False by (simp add: Parse_def parseHazard_def pushedDelivery_def pushedHazard_def
          hazardVocabulary_def certaintyToConfidence_def)
  qed
qed


lemma pushTick_requests:
  assumes "pushTick secret seq0 v = ((seq, rqs), v')"
  shows "seq = seq0 + 1" "rq \<in> set rqs \<Longrightarrow> rq = pushRequest secret (marshal (pushPayload seq (fst (timeNow v))))"
    "length rqs = (if seq mod 4 = 0 then 2 else 1)"
  using assms by (auto simp: pushTick_def Let_def split: prod.splits)

text \<open>What the handler does with a pushed request, and what the message holds.\<close>

lemma pushed_reaches_gate:
  assumes "Parse body (fst (timeNow w)) = Inr d" "readBounded (wk_maxBytes h) rq = BodyOk body" "wk_secret h \<noteq> []"
    "in_header rq SignatureHeader = Sign body (wk_secret h)"
    "dur_Abs (time_Sub (fst (timeNow (snd (timeNow w)))) (del_SentAt d)) \<le> wk_maxSkew h"
  shows "BetaGrid h rq w = gateDelivery h body d (snd (timeNow (snd (timeNow w))))"
proof -
  obtain now w1 where 1: "timeNow w = (now, w1)" by fastforce
  obtain now' w2 where 2: "timeNow w1 = (now', w2)" by fastforce
  have "BetaGrid h rq w = handleAuthentic h body w"
    using assms(2-4) Sign_accepted [OF assms(3), of body] by (simp add: BetaGrid_def)
  also have "handleAuthentic h body w = gateDelivery h body d w2"
    using assms(1,5) by (simp add: handleAuthentic_def Let_def 1 2 not_less)
  finally show ?thesis by (simp add: 1 2)
qed

lemma pushed_content:
  assumes "16 * Second \<le> sent" "sent < 2 ^ 62"
  shows "case del_Event (pushedDelivery seq sent now) of
      None \<Rightarrow> seq mod 3 = 0 \<and> del_Heartbeat (pushedDelivery seq sent now) \<noteq> None
    | Some ne \<Rightarrow> seq mod 3 \<noteq> 0 \<and> (\<forall>dev. valid_event ((ne_Event ne)\<lparr>e_DeviceID := dev\<rparr>) = (dev \<noteq> []))"
proof -
  have "valid_event ((ne_Event (pushedHazard seq sent now))\<lparr>e_DeviceID := dev\<rparr>) = (dev \<noteq> [])" for dev
    using unixSeconds_bounds [OF assms] time_Unix_not_zero [of "unixSeconds sent"]
    by (auto simp: pushedHazard_def valid_event_def ValidHazardType_def ValidProvider_def)
  then show ?thesis
    by (cases "seq mod 3 = 0") (simp_all only: pushedDelivery_def Delivery.simps if_True if_False option.case option.distinct simp_thms)
qed

text \<open>C31: the connector admits every delivery the simulator pushes. When both share a nonempty secret, the
  body is within the connector's limit and the clocks differ by no more than the window, each request of a
  tick passes the signature, the parser and the window and reaches the delivery gate as the very message
  that was meant: number \<open>seq\<close> under its own identifier, a heartbeat of the sensor for every third message
  and otherwise a fire or smoke event that validation accepts. The repeat that every fourth message has
  carries the same identifier, and it changes nothing once that identifier is on record.\<close>

theorem sim_push_admitted:
  assumes "pushTick secret seq0 v = ((seq, rqs), v')" "rq \<in> set rqs" "secret \<noteq> []"
    "int (length (in_body rq)) \<le> maxBytes" "maxBytes < maxDuration"
    "16 * Second \<le> fst (timeNow v)" "fst (timeNow v) < 2 ^ 62"
    "dur_Abs (time_Sub (fst (timeNow (snd (timeNow w)))) (time_Unix (unixSeconds (fst (timeNow v))))) \<le> maxSkew"
  shows "let d = pushedDelivery seq (fst (timeNow v)) (fst (timeNow w)); h = newWebhook secret maxSkew maxBytes
    in BetaGrid h rq w = gateDelivery h (in_body rq) d (snd (timeNow (snd (timeNow w)))) \<and>
       (case del_Event d of
          None \<Rightarrow> seq mod 3 = 0 \<and> del_Heartbeat d \<noteq> None
        | Some ne \<Rightarrow> seq mod 3 \<noteq> 0 \<and> (\<forall>dev. valid_event ((ne_Event ne)\<lparr>e_DeviceID := dev\<rparr>) = (dev \<noteq> []))) \<and>
       length rqs = (if seq mod 4 = 0 then 2 else 1) \<and>
       list_all (\<lambda>q. \<forall>u. (ProviderBetaGrid, del_MsgID d) \<in> delivery_keys (w_db u) \<longrightarrow>
         quiet u (snd (BetaGrid h q u))) rqs"
proof -
  let ?sent = "fst (timeNow v)" and ?now = "fst (timeNow w)"
  let ?body = "marshal (pushPayload seq ?sent)"
  define h where "h = newWebhook secret maxSkew maxBytes"
  have h: "wk_secret h = secret" "wk_maxBytes h = maxBytes" "wk_maxSkew h = maxSkew"
    "wk_store h = storage_webhook_store" "wk_events h = storage_event_store"
    by (simp_all add: h_def newWebhook_def)
  note t = pushTick_requests [OF assms(1)]
  have rq: "in_body rq = ?body" "\<not> in_broken rq" "in_header rq SignatureHeader = Sign ?body secret"
    using t(2) [OF assms(2)] by (simp_all add: pushRequest_def)
  have parse: "Parse ?body ?now = Inr (pushedDelivery seq ?sent ?now)"
    by (rule push_parses [OF assms(6,7)])
  have body: "readBounded (wk_maxBytes h) rq = BodyOk ?body"
    using assms(4,5) rq by (simp add: readBounded_ok h)
  have gate: "BetaGrid h rq w = gateDelivery h ?body (pushedDelivery seq ?sent ?now) (snd (timeNow (snd (timeNow w))))"
    by (rule pushed_reaches_gate [OF parse body]) (use assms(3,8) rq(3) in \<open>simp_all add: h pushedDelivery_def\<close>)
  have "quiet u (snd (BetaGrid h q u))"
    if "q \<in> set rqs" "(ProviderBetaGrid, del_MsgID (pushedDelivery seq ?sent ?now)) \<in> delivery_keys (w_db u)" for q u
  proof (rule storage_webhook.BetaGrid_known [OF h(4,5)])
    show "readBounded (wk_maxBytes h) q = BodyOk ?body"
      using body t(2) [OF that(1)] t(2) [OF assms(2)] by simp
    show "(ProviderBetaGrid, delivery_id ?body) \<in> delivery_keys (w_db u)"
      using that(2) Parse_delivery_id [OF parse] by simp
  qed
  then have again: "list_all (\<lambda>q. \<forall>u. (ProviderBetaGrid, del_MsgID (pushedDelivery seq ?sent ?now)) \<in> delivery_keys (w_db u) \<longrightarrow>
      quiet u (snd (BetaGrid h q u))) rqs" by (simp add: list_all_iff)
  show ?thesis
    unfolding Let_def h_def [symmetric] rq(1) using gate pushed_content [OF assms(6,7)] t(3) again by blast
qed


definition atTime :: "Time \<Rightarrow> world" where
  "atTime t = (calm (demo_db []))\<lparr>w_clock := (\<lambda>_. t, 0)\<rparr>"

lemma atTime_simps [simp]: "fst (timeNow (atTime t)) = t" "fst (timeNow (snd (timeNow (atTime t)))) = t"
  by (simp_all add: atTime_def timeNow_def draw_def)

lemma sim_push_admitted_witness:
  "let w = atTime (20 * Second); body = marshal (pushPayload 3 (20 * Second))
   in BetaGrid (newWebhook ''s'' Minute 1000) (pushRequest ''s'' body) w =
     gateDelivery (newWebhook ''s'' Minute 1000) body (pushedDelivery 3 (20 * Second) (20 * Second)) (snd (timeNow (snd (timeNow w))))"
proof -
  let ?w = "atTime (20 * Second)"
  let ?body = "marshal (pushPayload 3 (20 * Second))"
  have tick: "pushTick ''s'' 2 ?w = ((3, [pushRequest ''s'' ?body]), snd (timeNow ?w))"
    by (simp add: pushTick_def Let_def split: prod.split) (metis atTime_simps(1) fst_conv)
  have "itoa 20 = ''20''" by (simp add: itoa_def natDigits.simps digitChar_def char_of_def bit_0)
  moreover have "natDigits 3 = ''3''" by (simp add: natDigits.simps digitChar_def char_of_def bit_0)
  ultimately have len: "int (length (in_body (pushRequest ''s'' ?body))) \<le> 1000"
    by (simp add: pushRequest_def pushPayload_def marshal_def unixSeconds_def Second_def jsonQuote_plain
        plainChar_def isHtml_def byte_def)
  have window: "dur_Abs (time_Sub (20 * Second) (time_Unix (unixSeconds (20 * Second)))) \<le> Minute"
    by (simp add: dur_Abs_def time_Sub_def time_Unix_in_range unixSeconds_def duration_bounds duration_units)
  show ?thesis
    using sim_push_admitted [OF tick, of "pushRequest ''s'' ?body" 1000 ?w Minute] len window
    by (simp add: Let_def pushRequest_def maxDuration_def Second_def)
qed

section \<open>What the simulator lists, the poller understands\<close>

text \<open>RFC 3339 text has twenty plain characters in the years 0 to 9999.\<close>

definition yearOk :: "Time \<Rightarrow> bool" where
  "yearOk t \<longleftrightarrow> (case civil (t div 1000000000 div 86400) of (y, _, _) \<Rightarrow> 0 \<le> y \<and> y < 10000)"

lemma digitChar_plain [simp]: "plainChar (digitChar n)"
  using digitChar_simps(1) [of n] by (auto simp: isDigit_def plainChar_def isHtml_def)

lemma formatRFC3339_plain: "list_all plainChar (formatRFC3339 t)"
proof -
  have "list_all plainChar (twoDigits n)" for n by (simp add: twoDigits_def)
  moreover have "list_all plainChar (formatYear y)" for y
    using natDigits_plain calculation by (simp add: formatYear_def plainChar_def isHtml_def byte_def)
  ultimately show ?thesis
    by (simp add: formatRFC3339_def Let_def plainChar_def isHtml_def byte_def split: prod.split)
qed

lemma formatRFC3339_year:
  assumes "yearOk t"
  shows "length (formatRFC3339 t) = 20" "parseRFC3339 (formatRFC3339 t) = Some (t div 1000000000 * 1000000000)"
proof -
  obtain y m d where c: "civil (t div 1000000000 div 86400) = (y, m, d)" by (metis prod.collapse)
  with assms have y: "0 \<le> y" "y < 10000" by (auto simp: yearOk_def)
  then show "length (formatRFC3339 t) = 20"
    by (simp add: formatRFC3339_def Let_def c formatYear_def twoDigits_def)
  show "parseRFC3339 (formatRFC3339 t) = Some (t div 1000000000 * 1000000000)"
    by (rule parse_format [OF c y])
qed

text \<open>An alert as the loop makes them.\<close>

definition alertOk :: "sim_alert \<Rightarrow> bool" where
  "alertOk a \<longleftrightarrow> list_all plainChar (sa_id a) \<and> sa_id a \<noteq> [] \<and> length (sa_id a) \<le> 20 \<and> sa_unit a = ''as-unit-01'' \<and>
     (sa_category a = ''fire'' \<or> sa_category a = ''smoke'') \<and> sa_score a < 100 \<and>
     list_all plainChar (sa_raised a) \<and> length (sa_raised a) = 20 \<and>
     list_all plainChar (sa_confirmed a) \<and> length (sa_confirmed a) = 20 \<and> parseRFC3339 (sa_confirmed a) \<noteq> None"

definition calmYears :: "world \<Rightarrow> bool" where
  "calmYears w \<longleftrightarrow> (\<forall>n. yearOk (fst (w_clock w) n) \<and> yearOk (time_Add (fst (w_clock w) n) (- 20 * Second)))"

lemma makeAlert_ok:
  assumes "makeAlert w = (a, w')" "calmYears w"
  shows "alertOk a" "calmYears w'"
proof -
  obtain r w1 where r: "randNext w = (r, w1)" by fastforce
  obtain now w2 where t: "timeNow w1 = (now, w2)" by fastforce
  have clock: "fst (w_clock w') = fst (w_clock w)"
    using assms(1) r t by (auto simp: makeAlert_def randNext_def timeNow_def Let_def draw_def split: prod.splits)
  then show "calmYears w'" using assms(2) by (simp add: calmYears_def)
  have years: "yearOk now" "yearOk (time_Add now (- 20 * Second))"
    using assms(2) r t by (auto simp: calmYears_def randNext_def timeNow_def draw_def split: prod.splits)
  have "length (natDigits (r mod 1000000)) \<le> 6" by (rule natDigits_length) simp_all
  moreover have "55 + r mod 1000000 mod 45 < 100" by (simp add: less_Suc_eq_le)
  ultimately show "alertOk a"
    using assms(1) r t formatRFC3339_plain formatRFC3339_year [OF years(1)] formatRFC3339_year [OF years(2)] natDigits_plain
    by (auto simp: makeAlert_def alertOk_def Let_def plainChar_def isHtml_def byte_def split: if_splits)
qed


definition wireOf :: "sim_alert \<Rightarrow> wireAlert" where
  "wireOf a = \<lparr>wa_AlertID = sa_id a, wa_UnitRef = sa_unit a, wa_Category = sa_category a,
     wa_Score = of_nat (sa_score a), wa_RaisedAt = sa_raised a, wa_Confirmed = sa_confirmed a\<rparr>"

definition sortedAlert :: "sim_alert \<Rightarrow> json" where
  "sortedAlert a = JObj [(''alert_id'', JStr (sa_id a)), (''category'', JStr (sa_category a)),
     (''confirmed_at'', JStr (sa_confirmed a)), (''raised_at'', JStr (sa_raised a)),
     (''score'', JNum (natDigits (sa_score a))), (''unit_ref'', JStr (sa_unit a))]"

lemma sortMembers_alert: "sortMembers (alertDoc a) = sortedAlert a"
  by (simp add: alertDoc_def sortedAlert_def)

lemma alertStep_sorted: "sa_score a < 100 \<Longrightarrow> alertStep (sortedAlert a) zeroAlert = Some (wireOf a)"
  by (simp add: alertStep_def sortedAlert_def wireOf_def asObject_def decodeField_def fieldValues_def stringStep_def
      floatStep_def upperByte_def byte_def)

lemma decode_alerts:
  "list_all alertOk as \<Longrightarrow> decodeElems alertStep zeroAlert (map sortedAlert as) [] = Some (map wireOf as)"
  by (induction as) (simp_all add: alertStep_sorted alertOk_def)

lemma joinComma_length:
  "list_all (\<lambda>s. length s \<le> k) ss \<Longrightarrow> length (joinComma ss) \<le> length ss * (k + 1)"
  by (induction ss rule: joinComma.induct) auto

lemma sortedAlert_write:
  assumes "alertOk a"
  shows "plain 2 (sortedAlert a)" "length (writeJson (sortedAlert a)) \<le> 300"
proof -
  have cat: "list_all plainChar (sa_category a)" "length (sa_category a) \<le> 5"
    using assms by (auto simp: alertOk_def plainChar_def isHtml_def byte_def)
  have unit: "list_all plainChar (sa_unit a)" "length (sa_unit a) = 10"
    using assms by (auto simp: alertOk_def plainChar_def isHtml_def byte_def)
  have score: "length (natDigits (sa_score a)) \<le> 2"
    using assms by (intro natDigits_length) (auto simp: alertOk_def)
  show "plain 2 (sortedAlert a)"
    using assms cat unit by (simp add: sortedAlert_def alertOk_def maxNestingDepth_def plainChar_def isHtml_def byte_def)
  show "length (writeJson (sortedAlert a)) \<le> 300"
    using assms cat unit score by (simp add: sortedAlert_def alertOk_def jsonQuote_plain plainChar_def isHtml_def byte_def)
qed

lemma alerts_readable:
  assumes "list_all alertOk as" "length as \<le> 50"
  shows "unmarshalAlerts (take 1048576 (encode (JObj [(''alerts'', JArr (map alertDoc as))]))) = Some (map wireOf as)"
proof -
  let ?doc = "JObj [(''alerts'', JArr (map alertDoc as))]"
  have sorted: "sortMembers ?doc = JObj [(''alerts'', JArr (map sortedAlert as))]"
    by (simp add: sortMembers_alert comp_def)
  have p: "plain (Suc (Suc 0)) (sortedAlert a)" if "alertOk a" for a
    using sortedAlert_write(1) [OF that] by (simp add: numeral_2_eq_2)
  have "plain 0 (sortMembers ?doc)"
    unfolding sorted using assms(1) p
    by (simp add: maxNestingDepth_def list_all_iff plainChar_def isHtml_def byte_def)
  from marshal_parses(2) [OF this] have parse: "parseJson (encode ?doc) = Some (JObj [(''alerts'', JArr (map sortedAlert as))])"
    unfolding sorted .
  have "length (joinComma (map writeJson (map sortedAlert as))) \<le> length (map writeJson (map sortedAlert as)) * (300 + 1)"
    by (rule joinComma_length) (use assms(1) sortedAlert_write(2) in \<open>auto simp: list_all_iff\<close>)
  then have "length (joinComma (map writeJson (map sortedAlert as))) \<le> 15050" using assms(2) by simp
  then have "length (encode ?doc) \<le> 1048576"
    unfolding encode_def marshal_def sorted by (simp add: jsonQuote_plain plainChar_def isHtml_def byte_def)
  then have "take 1048576 (encode ?doc) = encode ?doc" by simp
  then show ?thesis
    using decode_alerts [OF assms(1)]
    by (simp add: unmarshalAlerts_def unmarshalList_def parse asObject_def decodeField_def fieldValues_def listStep_def
        upperByte_def byte_def)
qed


text \<open>The alerts of a run: between one and fifty, each as the loop makes them.\<close>

lemma seedTick_ok:
  assumes "seedTick s w = (s', w')" "calmYears w" "list_all alertOk (sm_alerts s)" "length (sm_alerts s) \<le> 50"
  shows "calmYears w'" "list_all alertOk (sm_alerts s')" "0 < length (sm_alerts s')" "length (sm_alerts s') \<le> 50"
proof -
  obtain a w1 where m: "makeAlert w = (a, w1)" by fastforce
  note a = makeAlert_ok [OF m assms(2)]
  from assms(1) m have s': "w' = w1" "sm_alerts s' = (if 50 < length (sm_alerts s @ [a])
      then drop (length (sm_alerts s @ [a]) - 50) (sm_alerts s @ [a]) else sm_alerts s @ [a])"
    by (auto simp: seedTick_def Let_def)
  have "list_all alertOk (sm_alerts s @ [a])" using assms(3) a(1) by simp
  then show "list_all alertOk (sm_alerts s')"
    unfolding s' by (auto simp: list_all_iff dest: in_set_dropD)
  show "calmYears w'" using a(2) s'(1) by simp
  show "0 < length (sm_alerts s')" "length (sm_alerts s') \<le> 50" using assms(4) by (simp_all add: s'(2))
qed

lemma seedRun_ok:
  assumes "seedRun k s w = (s', w')" "calmYears w" "list_all alertOk (sm_alerts s)" "0 < length (sm_alerts s)"
    "length (sm_alerts s) \<le> 50"
  shows "list_all alertOk (sm_alerts s') \<and> 0 < length (sm_alerts s') \<and> length (sm_alerts s') \<le> 50"
  using assms
proof (induction k arbitrary: s w)
  case (Suc k)
  obtain s1 w1 where t: "seedTick s w = (s1, w1)" by fastforce
  from Suc.IH [of s1 w1] seedTick_ok [OF t Suc.prems(2,3,5)] Suc.prems(1) t show ?case by simp
qed simp

lemma seeded_ok:
  assumes "seedFirst s w = (s1, w1)" "seedRun k s1 w1 = (s2, w2)" "calmYears w"
  shows "list_all alertOk (sm_alerts s2) \<and> 0 < length (sm_alerts s2) \<and> length (sm_alerts s2) \<le> 50"
proof -
  obtain a w' where m: "makeAlert w = (a, w')" by fastforce
  with assms(1) have "sm_alerts s1 = [a]" "w1 = w'" by (auto simp: seedFirst_def)
  with makeAlert_ok [OF m assms(3)] seedRun_ok [OF assms(2)] show ?thesis by simp
qed

text \<open>The adapter accepts each of them.\<close>

lemma normalize_wireOf:
  assumes "alertOk a"
  shows "\<exists>ne. normalizeAlert (wireOf a) now = Inr ne \<and> e_DedupKey (ne_Event ne) = sa_id a \<and>
    Some (e_ConfirmedAt (ne_Event ne)) = parseRFC3339 (sa_confirmed a)"
proof -
  obtain t where "parseRFC3339 (sa_confirmed a) = Some t" using assms by (auto simp: alertOk_def)
  then show ?thesis using assms by (auto simp: normalizeAlert_def wireOf_def alertOk_def alertType_def Let_def)
qed

lemma normalize_all:
  assumes "list_all alertOk as"
  shows "firstErr (map (\<lambda>a. normalizeAlert a now) (map wireOf as)) = None \<and>
    map (\<lambda>ne. (e_DedupKey (ne_Event ne), Some (e_ConfirmedAt (ne_Event ne))))
      (accepted (map (\<lambda>a. normalizeAlert a now) (map wireOf as))) =
    map (\<lambda>a. (sa_id a, parseRFC3339 (sa_confirmed a))) as"
  using assms
proof (induction as)
  case (Cons a as)
  then obtain ne where "normalizeAlert (wireOf a) now = Inr ne" "e_DedupKey (ne_Event ne) = sa_id a"
    "Some (e_ConfirmedAt (ne_Event ne)) = parseRFC3339 (sa_confirmed a)"
    using normalize_wireOf [of a now] by auto
  with Cons show ?case by simp
qed simp

text \<open>The query of a URL, as the server reads it.\<close>

definition queryOf :: "string \<Rightarrow> string \<Rightarrow> string" where
  "queryOf url k = (case parseQuery (snd (cutAt 63 url)) of None \<Rightarrow> [] | Some f \<Rightarrow> formGet k f)"

lemma queryOf_alertsPath: "queryOf (alertsPath since) ''since'' = formatRFC3339 since"
proof -
  have "cutAt 63 (''/api/v2/alerts'' @ CHR ''?'' # formEncode [(''since'', formatRFC3339 since)]) =
      (''/api/v2/alerts'', formEncode [(''since'', formatRFC3339 since)])"
    by (rule cutAt_clean(2)) (auto simp: byte_def)
  then show ?thesis by (simp add: queryOf_def alertsPath_def parseQuery_formEncode formGet_def)
qed

text \<open>C32: the poller gets every recent alert of the simulator. However long the seeding loop has run, the
  simulator keeps between one and fifty alerts, and asked by the adapter for the alerts since an instant it
  answers 200 with a document that the adapter decodes and normalizes without a single error: one event for
  each kept alert that was confirmed after that instant rounded down to the second, under the alert's own
  identifier and with its confirmation time.\<close>

theorem sim_alerts_polled:
  assumes "calmYears w" "seedFirst s w = (s1, w1)" "seedRun k s1 w1 = (s2, w2)" "yearOk since"
    "in_query r = queryOf (alertsPath since)" "simAlerts r s2 v = (resp, s3, v')"
  shows "0 < length (sm_alerts s2) \<and> length (sm_alerts s2) \<le> 50 \<and> s3 = s2 \<and> rs_status resp = 200 \<and>
    (\<exists>wire. unmarshalAlerts (take 1048576 (rs_body resp)) = Some wire \<and>
      firstErr (map (\<lambda>a. normalizeAlert a now) wire) = None \<and>
      map (\<lambda>ne. (e_DedupKey (ne_Event ne), Some (e_ConfirmedAt (ne_Event ne))))
        (accepted (map (\<lambda>a. normalizeAlert a now) wire)) =
      map (\<lambda>a. (sa_id a, parseRFC3339 (sa_confirmed a)))
        (filter (confirmedSince (since div 1000000000 * 1000000000)) (sm_alerts s2)))"
proof -
  note ok = seeded_ok [OF assms(2,3,1)]
  let ?listed = "filter (confirmedSince (since div 1000000000 * 1000000000)) (sm_alerts s2)"
  have listed: "list_all alertOk ?listed" "length ?listed \<le> 50"
    using ok by (auto simp: list_all_iff intro: order_trans [OF length_filter_le])
  have "in_query r ''since'' = formatRFC3339 since" using assms(5) queryOf_alertsPath by simp
  then have resp: "resp = simReply 200 (JObj [(''alerts'', JArr (map alertDoc ?listed))])" "s3 = s2"
    using assms(6) formatRFC3339_year(2) [OF assms(4)] by (auto simp: simAlerts_def)
  then have "unmarshalAlerts (take 1048576 (rs_body resp)) = Some (map wireOf ?listed)"
    using alerts_readable [OF listed] by (simp add: simReply_def)
  with normalize_all [OF listed(1), of now] ok resp show ?thesis by (simp add: simReply_def)
qed


lemma sim_alerts_polled_witness:
  "let T = 1704067200 * Second; (s1, w1) = seedFirst demo_sim (atTime T)
   in \<exists>wire. unmarshalAlerts (take 1048576 (rs_body (fst (simAlerts
      ((bearing ''t'')\<lparr>in_query := queryOf (alertsPath (T - Minute))\<rparr>) s1 w1)))) = Some wire \<and>
      firstErr (map (\<lambda>a. normalizeAlert a T) wire) = None"
proof -
  let ?T = "1704067200 * Second"
  have years: "yearOk ?T" "yearOk (time_Add ?T (- 20 * Second))" "yearOk (?T - Minute)"
    by (simp_all add: yearOk_def civil_def epochDay_def Let_def splitYear.simps yearLen_def leapYear_def monthLens_def
        duration_units time_Add_def)
  then have calm: "calmYears (atTime ?T)" by (simp add: calmYears_def atTime_def)
  obtain s1 w1 where f: "seedFirst demo_sim (atTime ?T) = (s1, w1)" by fastforce
  let ?r = "(bearing ''t'')\<lparr>in_query := queryOf (alertsPath (?T - Minute))\<rparr>"
  obtain resp s3 v where a: "simAlerts ?r s1 w1 = (resp, s3, v)" by (metis prod.collapse)
  have "seedRun 0 s1 w1 = (s1, w1)" by simp
  from sim_alerts_polled [OF calm f this years(3) _ a, of ?T] f a show ?thesis by (auto simp: Let_def)
qed

section \<open>Paths\<close>

text \<open>A path escape is undone by the multiplexer and never contains a slash.\<close>

lemma pathEscape_Cons:
  "pathEscape (c # s) =
     (if isUnreserved c \<or> byte c \<in> {36, 38, 43, 58, 61, 64} then [c] else percentByte c) @ pathEscape s"
  by (simp add: pathEscape_def)

lemma percentDecode_percent: "percentDecode (percentByte c @ s) = map_option (\<lambda>t. c # t) (percentDecode s)"
proof -
  have "char_of (16 * (byte c div 16) + byte c mod 16) = c" by (simp add: byte_def)
  moreover have "byte (CHR ''%'') = 37" by (simp add: byte_def)
  ultimately show ?thesis
    using hexVal_upper(1) [OF percentByte_digits(2)] hexVal_upper(1) [OF percentByte_digits(3)]
    by (simp add: percentByte_digits(1) del: mult_div_mod_eq)
qed

lemma percentDecode_escape: "percentDecode (pathEscape s) = Some s"
proof (induction s)
  case Nil
  show ?case by (simp add: pathEscape_def)
next
  case (Cons c s)
  have "isUnreserved c \<Longrightarrow> byte c \<noteq> 37" by (auto simp: isUnreserved_def Let_def)
  with Cons show ?case by (auto simp: pathEscape_Cons percentDecode_percent)
qed

lemma pathUnescape_escape [simp]: "pathUnescape (pathEscape s) = s"
  by (simp add: pathUnescape_def percentDecode_escape)

lemma pathEscape_slash: "list_all (\<lambda>c. byte c \<noteq> 47) (pathEscape s)"
proof (induction s)
  case Nil
  show ?case by (simp add: pathEscape_def)
next
  case (Cons c s)
  have "byte (hexDigitUpper n) \<noteq> 47" if "n < 16" for n
  proof -
    from that have "n \<in> {0, 1, 2, 3, 4, 5, 6, 7, 8, 9, 10, 11, 12, 13, 14, 15}" by (simp, presburger)
    then show ?thesis by (auto simp: hexDigitUpper_def byte_def)
  qed
  then have "list_all (\<lambda>c. byte c \<noteq> 47) (percentByte c)"
    unfolding percentByte_digits(1) using percentByte_digits(2,3) by (simp add: byte_def)
  moreover have "isUnreserved c \<Longrightarrow> byte c \<noteq> 47" by (auto simp: isUnreserved_def Let_def)
  ultimately show ?case using Cons by (auto simp: pathEscape_Cons)
qed

lemma splitSlash_plain: "list_all (\<lambda>c. byte c \<noteq> 47) s \<Longrightarrow> splitSlash s = [s]"
  by (induction s) auto

lemma splitSlash_append:
  "list_all (\<lambda>c. byte c \<noteq> 47) s \<Longrightarrow> byte d = 47 \<Longrightarrow> splitSlash (s @ d # t) = s # splitSlash t"
  by (induction s) auto

text \<open>The patterns of the simulator.\<close>

lemma sim_patterns [simp]:
  "parsePattern ''POST /oauth/token'' = (''POST'', [Lit ''oauth'', Lit ''token''])"
  "parsePattern ''GET /api/v2/units'' = (''GET'', [Lit ''api'', Lit ''v2'', Lit ''units''])"
  "parsePattern ''GET /api/v2/alerts'' = (''GET'', [Lit ''api'', Lit ''v2'', Lit ''alerts''])"
  "parsePattern ''POST /api/v2/units/{ref}/instructions'' =
     (''POST'', [Lit ''api'', Lit ''v2'', Lit ''units'', Wild ''ref'', Lit ''instructions''])"
  by (simp_all add: parsePattern_def cutAt_def byte_def parseSeg_def)

interpretation sim_mux: mux simRoutes
  by unfold_locales (simp add: conflictFree_def simRoutes_def verbsMeet_def)

lemma instructionsPath_split:
  "splitSlash (tl (instructionsPath ext)) = [''api'', ''v2'', ''units'', pathEscape ext, ''instructions'']"
proof -
  have "splitSlash (pathEscape ext @ ''/instructions'') = pathEscape ext # splitSlash ''instructions''"
    by (rule splitSlash_append [OF pathEscape_slash]) (simp add: byte_def)
  then show ?thesis by (simp add: instructionsPath_def byte_def)
qed

lemma pathEscape_eq_iff: "pathEscape s = pathEscape t \<longleftrightarrow> s = t"
  by (metis pathUnescape_escape)

text \<open>An instruction reaches the unit it is meant for. Whatever bytes a device identifier holds, the path
  the adapter posts to is taken by the simulator's instruction handler, with that identifier as the unit,
  unless the identifier is empty, one of the two dot segments, which are cleaned away and redirected, or
  the slash alone, which the multiplexer takes for the end of a path.\<close>

theorem instruction_reaches_unit:
  "muxFind simRoutes ''POST'' (instructionsPath ext) =
     (if ext \<in> {[], ''.'', ''..''} then MuxRedirect
      else if ext = ''/'' then MuxNotFound
      else MuxFound (simAuth simInstructions) [(''ref'', ext)])"
proof -
  have dots: "pathEscape [] = []" "pathEscape ''.'' = ''.''" "pathEscape ''..'' = ''..''"
    by (simp_all add: pathEscape_def isUnreserved_def byte_def)
  have canonical: "canonicalPath (instructionsPath ext) \<longleftrightarrow> ext \<notin> {[], ''.'', ''..''}"
  proof -
    have "pathEscape ext = [] \<longleftrightarrow> ext = []" "pathEscape ext = ''.'' \<longleftrightarrow> ext = ''.''" "pathEscape ext = ''..'' \<longleftrightarrow> ext = ''..''"
      using pathEscape_eq_iff [of ext] dots by metis+
    moreover have "canonicalPath (instructionsPath ext) \<longleftrightarrow>
        pathEscape ext \<noteq> [] \<and> pathEscape ext \<noteq> ''.'' \<and> pathEscape ext \<noteq> ''..''"
      unfolding canonicalPath_def instructionsPath_split
      by (auto simp: instructionsPath_def byte_def)
    ultimately show ?thesis by simp
  qed
  have segs: "pathSegments (instructionsPath ext) = [''api'', ''v2'', ''units'', ext, ''instructions'']"
    unfolding pathSegments_def instructionsPath_split
    by (simp add: instructionsPath_def pathUnescape_def byte_def percentDecode_escape)
  have found: "muxFind simRoutes ''POST'' (instructionsPath ext) = MuxFound (simAuth simInstructions) [(''ref'', ext)]"
    if "ext \<notin> {[], ''.'', ''..'', ''/''}"
    by (rule sim_mux.takes [where pat = "''POST /api/v2/units/{ref}/instructions''" and verb = "''POST''" and
        segs = "[Lit ''api'', Lit ''v2'', Lit ''units'', Wild ''ref'', Lit ''instructions'']"])
      (use that canonical in \<open>simp_all add: simRoutes_def verbMatches_def segs\<close>)
  have "pathSegments (instructionsPath ''/'') = [''api'', ''v2'', ''units'', ''/'', ''instructions'']"
    if "ext = ''/''" using segs that by simp
  then have "pathMatches simRoutes (instructionsPath ext) = []" if "ext = ''/''"
    using that by (simp add: pathMatches_def simRoutes_def)
  moreover have "instructionsPath ext \<noteq> ''*''" by (simp add: instructionsPath_def)
  ultimately show ?thesis
    using canonical found by (cases "ext = ''/''") (auto simp: muxFind_def)
qed

end
