(* ===== verification/Process.thy ===== *)
theory Process
  imports Connector
begin

text \<open>
  The life of the process (\<^verbatim>\<open>cmd/connector/main.go\<close>): it loads its settings, waits for the database,
  starts two servers, the pollers and the reaper, waits for a signal or the failure of a server, and
  shuts down. An execution is a sequence of events, each of which one goroutine, a client or a signal
  causes; \<open>step\<close> is None when the event cannot happen now, so a goroutine that blocks has no event.
\<close>

section \<open>State\<close>

text \<open>
  Where \<^verbatim>\<open>run\<close> is. In \<open>Opening\<close> it calls \<^verbatim>\<open>storage.Open\<close>, in \<open>Backoff\<close> it waits two seconds for
  the next attempt, in \<open>Serving\<close> it waits in the \<^verbatim>\<open>select\<close>; then it is inside \<^verbatim>\<open>Shutdown\<close>,
  \<^verbatim>\<open>GracefulStop\<close> and \<^verbatim>\<open>wg.Wait\<close> in turn. A panic outside an HTTP handler ends the process, and so
  does a signal that nobody catches.
\<close>

datatype phase =
    Opening
  | Backoff
  | Serving
  | ClosingHttp
  | StoppingGrpc
  | Draining
  | Returned "error option"
  | Crashed
  | Killed

text \<open>
  A server: its goroutine has not got to listening, it accepts connections, it has ended and left
  connections behind, or it has ended without any (or was never started).
\<close>

datatype server = ServerIdle | ServerUp | ServerClosed | ServerDown

text \<open>A poller: before its loop, about to run a cycle with a watermark, waiting for a tick, ended.\<close>

datatype poll_state = PollUnstarted | PollDue Time | PollWaiting Time | PollStopped

text \<open>
  \<open>ps_done\<close>: the context is done. \<open>ps_catching\<close>: signals cancel the context instead of killing.
  \<open>ps_errs\<close> is the buffer of \<^verbatim>\<open>errCh\<close>, \<open>ps_wg\<close> the wait group's counter. Requests, calls and
  streams are those that have arrived and not ended.
\<close>

record process =
  ps_phase :: phase
  ps_done :: bool
  ps_catching :: bool
  ps_errs :: "error list"
  ps_wg :: int
  ps_http :: server
  ps_grpc :: server
  ps_pollers :: "poll_state list"
  ps_reaper :: bool
  ps_requests :: "http_in list"
  ps_rpcs :: "entry list"
  ps_streams :: "nat list"
  ps_world :: world

definition initially :: "phase \<Rightarrow> world \<Rightarrow> process" where
  "initially ph w = \<lparr>ps_phase = ph, ps_done = False, ps_catching = True, ps_errs = [], ps_wg = 0,
     ps_http = ServerDown, ps_grpc = ServerDown, ps_pollers = [], ps_reaper = False, ps_requests = [],
     ps_rpcs = [], ps_streams = [], ps_world = w\<rparr>"

definition ended :: "process \<Rightarrow> bool" where
  "ended p \<longleftrightarrow> (case ps_phase p of Returned r \<Rightarrow> True | Crashed \<Rightarrow> True | Killed \<Rightarrow> True | _ \<Rightarrow> False)"

text \<open>\<^verbatim>\<open>main\<close>: the status with which the process exits by itself.\<close>

definition exitStatus :: "process \<Rightarrow> int option" where
  "exitStatus p =
     (case ps_phase p of
        Returned None \<Rightarrow> Some 0
      | Returned (Some err) \<Rightarrow> Some 1
      | Crashed \<Rightarrow> Some 2
      | _ \<Rightarrow> None)"

section \<open>Steps\<close>

datatype proc_event =
    Signal
  | OpenAttempt
  | RetryTimer
  | GiveUp
  | HttpListens
  | HttpFails error
  | HttpCloses
  | GrpcListens
  | GrpcFails error
  | GrpcReturns
  | PollerStarts nat
  | PollerCycle nat
  | PollerTick nat
  | PollerEnds nat
  | ReaperTicks
  | ReaperEnds
  | RequestArrives http_in
  | RequestServed nat
  | RpcArrives entry
  | RpcServed nat
  | StreamOpens
  | StreamReceives nat
  | StreamEnds nat
  | MainSignal
  | MainError
  | ShutdownReturns bool
  | GracefulStopReturns
  | WaitReturns

definition guarded :: "bool \<Rightarrow> process \<Rightarrow> process option" where
  "guarded b p = (if b then Some p else None)"

text \<open>\<^verbatim>\<open>httpSrv\<close> has been told to shut down, \<^verbatim>\<open>grpcSrv\<close> has been told to stop.\<close>

definition closing :: "process \<Rightarrow> bool" where
  "closing p \<longleftrightarrow> ps_phase p \<in> set [ClosingHttp, StoppingGrpc, Draining]"

definition stopping :: "process \<Rightarrow> bool" where
  "stopping p \<longleftrightarrow> ps_phase p \<in> set [StoppingGrpc, Draining]"

definition connected :: "server \<Rightarrow> bool" where
  "connected s \<longleftrightarrow> s = ServerUp \<or> s = ServerClosed"

definition dropAt :: "nat \<Rightarrow> 'a list \<Rightarrow> 'a list" where
  "dropAt k xs = take k xs @ drop (Suc k) xs"

definition errChCapacity :: nat where "errChCapacity = 3"

text \<open>A worker sends its error and is done; it blocks while the channel is full.\<close>

definition wgDone :: "process \<Rightarrow> process" where
  "wgDone p = p\<lparr>ps_wg := ps_wg p - 1\<rparr>"

definition sendErr :: "error \<Rightarrow> process \<Rightarrow> process option" where
  "sendErr err p = guarded (length (ps_errs p) < errChCapacity) (p\<lparr>ps_errs := ps_errs p @ [err]\<rparr>)"

definition startWorkers :: "config \<Rightarrow> externals \<Rightarrow> process \<Rightarrow> process" where
  "startWorkers cfg ex p =
     (let ps = pollersOf cfg (ex_client ex)
      in p\<lparr>ps_phase := Serving, ps_http := ServerIdle, ps_grpc := ServerIdle,
           ps_pollers := map (\<lambda>_. PollUnstarted) ps, ps_reaper := True, ps_wg := 3 + int (length ps)\<rparr>)"

text \<open>One attempt of the start-up loop.\<close>

definition openAttempt :: "pool_params \<Rightarrow> migration list \<Rightarrow> config \<Rightarrow> externals \<Rightarrow> process \<Rightarrow> process" where
  "openAttempt pool files cfg ex p =
     (case Open pool files (cf_DatabaseURL cfg) (ps_world p) of
        (None, w) \<Rightarrow> startWorkers cfg ex (p\<lparr>ps_world := w\<rparr>)
      | (Some err, w) \<Rightarrow> p\<lparr>ps_phase := Backoff, ps_world := w\<rparr>)"

text \<open>The head of the poller's \<^verbatim>\<open>Run\<close>: the ticker panics for an interval that is not positive.\<close>

definition pollerStarts :: "poller \<Rightarrow> nat \<Rightarrow> process \<Rightarrow> process" where
  "pollerStarts q k p =
     (if pr_Interval q \<le> 0 then p\<lparr>ps_phase := Crashed\<rparr>
      else let (now, w) = timeNow (ps_world p)
           in p\<lparr>ps_pollers := (ps_pollers p)[k := PollDue (time_Add now (wrap64 (- pr_Interval q)))],
                ps_world := w\<rparr>)"

definition pollerCycle :: "poller \<Rightarrow> Time \<Rightarrow> nat \<Rightarrow> process \<Rightarrow> process" where
  "pollerCycle q since k p =
     (let (since', w) = cycle (withOverlap q) since (ps_world p)
      in p\<lparr>ps_pollers := (ps_pollers p)[k := PollWaiting since'], ps_world := w\<rparr>)"

fun isRpc :: "entry \<Rightarrow> bool" where
  "isRpc (RpcGetDevice uid) = True"
| "isRpc RpcListDevices = True"
| "isRpc (RpcListRecentEvents n) = True"
| "isRpc (RpcSendCommand rq) = True"
| "isRpc (RpcGetCommand uid) = True"
| "isRpc _ = False"

text \<open>
  The steps of a process that has not ended. \<^verbatim>\<open>ListenAndServe\<close> reports any failure but the one
  \<^verbatim>\<open>Shutdown\<close> causes; \<^verbatim>\<open>Serve\<close> of the gRPC server returns without an error once it is stopped, unless
  it is called after that. \<^verbatim>\<open>Shutdown\<close> waits for the requests being served or ten seconds,
  \<^verbatim>\<open>GracefulStop\<close> for every call and every stream.
\<close>

fun move :: "pool_params \<Rightarrow> migration list \<Rightarrow> config \<Rightarrow> externals \<Rightarrow> proc_event \<Rightarrow> process \<Rightarrow> process option" where
  "move pool files cfg ex Signal p =
     Some (if ps_catching p then p\<lparr>ps_done := True\<rparr> else p\<lparr>ps_phase := Killed\<rparr>)"
| "move pool files cfg ex OpenAttempt p = guarded (ps_phase p = Opening) (openAttempt pool files cfg ex p)"
| "move pool files cfg ex RetryTimer p = guarded (ps_phase p = Backoff) (p\<lparr>ps_phase := Opening\<rparr>)"
| "move pool files cfg ex GiveUp p =
     guarded (ps_phase p = Backoff \<and> ps_done p) (p\<lparr>ps_phase := Returned (Some (Sentinel Canceled))\<rparr>)"
| "move pool files cfg ex HttpListens p =
     guarded (ps_http p = ServerIdle \<and> \<not> closing p) (p\<lparr>ps_http := ServerUp\<rparr>)"
| "move pool files cfg ex (HttpFails err) p =
     (if ps_http p = ServerIdle
      then map_option (\<lambda>p. wgDone (p\<lparr>ps_http := ServerDown\<rparr>)) (sendErr err p)
      else if ps_http p = ServerUp \<and> \<not> closing p
      then map_option (\<lambda>p. wgDone (p\<lparr>ps_http := ServerClosed\<rparr>)) (sendErr err p)
      else None)"
| "move pool files cfg ex HttpCloses p =
     (if closing p \<and> ps_http p = ServerIdle then Some (wgDone (p\<lparr>ps_http := ServerDown\<rparr>))
      else if closing p \<and> ps_http p = ServerUp then Some (wgDone (p\<lparr>ps_http := ServerClosed\<rparr>))
      else None)"
| "move pool files cfg ex GrpcListens p =
     guarded (ps_grpc p = ServerIdle \<and> \<not> stopping p) (p\<lparr>ps_grpc := ServerUp\<rparr>)"
| "move pool files cfg ex (GrpcFails err) p =
     (if ps_grpc p = ServerIdle
      then map_option (\<lambda>p. wgDone (p\<lparr>ps_grpc := ServerDown\<rparr>)) (sendErr err p)
      else if ps_grpc p = ServerUp \<and> \<not> stopping p
      then map_option (\<lambda>p. wgDone (p\<lparr>ps_grpc := ServerClosed\<rparr>)) (sendErr err p)
      else None)"
| "move pool files cfg ex GrpcReturns p =
     guarded (ps_grpc p = ServerUp \<and> stopping p) (wgDone (p\<lparr>ps_grpc := ServerClosed\<rparr>))"
| "move pool files cfg ex (PollerStarts k) p =
     guarded (k < length (ps_pollers p) \<and> ps_pollers p ! k = PollUnstarted)
       (pollerStarts (pollersOf cfg (ex_client ex) ! k) k p)"
| "move pool files cfg ex (PollerCycle k) p =
     (if k < length (ps_pollers p)
      then case ps_pollers p ! k of
             PollDue since \<Rightarrow> Some (pollerCycle (pollersOf cfg (ex_client ex) ! k) since k p)
           | _ \<Rightarrow> None
      else None)"
| "move pool files cfg ex (PollerTick k) p =
     (if k < length (ps_pollers p)
      then case ps_pollers p ! k of
             PollWaiting since \<Rightarrow> Some (p\<lparr>ps_pollers := (ps_pollers p)[k := PollDue since]\<rparr>)
           | _ \<Rightarrow> None
      else None)"
| "move pool files cfg ex (PollerEnds k) p =
     (if ps_done p \<and> k < length (ps_pollers p)
      then case ps_pollers p ! k of
             PollWaiting since \<Rightarrow> Some (wgDone (p\<lparr>ps_pollers := (ps_pollers p)[k := PollStopped]\<rparr>))
           | _ \<Rightarrow> None
      else None)"
| "move pool files cfg ex ReaperTicks p =
     guarded (ps_reaper p) (p\<lparr>ps_world := enter cfg ex ReaperTick (ps_world p)\<rparr>)"
| "move pool files cfg ex ReaperEnds p =
     guarded (ps_reaper p \<and> ps_done p) (wgDone (p\<lparr>ps_reaper := False\<rparr>))"
| "move pool files cfg ex (RequestArrives rq) p =
     guarded (connected (ps_http p)) (p\<lparr>ps_requests := ps_requests p @ [rq]\<rparr>)"
| "move pool files cfg ex (RequestServed k) p =
     guarded (k < length (ps_requests p))
       (p\<lparr>ps_requests := dropAt k (ps_requests p),
          ps_world := enter cfg ex (Http (ps_requests p ! k)) (ps_world p)\<rparr>)"
| "move pool files cfg ex (RpcArrives call) p =
     guarded (isRpc call \<and> connected (ps_grpc p) \<and> \<not> stopping p) (p\<lparr>ps_rpcs := ps_rpcs p @ [call]\<rparr>)"
| "move pool files cfg ex (RpcServed k) p =
     guarded (k < length (ps_rpcs p))
       (p\<lparr>ps_rpcs := dropAt k (ps_rpcs p), ps_world := enter cfg ex (ps_rpcs p ! k) (ps_world p)\<rparr>)"
| "move pool files cfg ex StreamOpens p =
     guarded (connected (ps_grpc p) \<and> \<not> stopping p)
       (p\<lparr>ps_streams := ps_streams p @ [fst (Subscribe (ps_world p))],
          ps_world := enter cfg ex StreamSubscribe (ps_world p)\<rparr>)"
| "move pool files cfg ex (StreamReceives k) p =
     guarded (k < length (ps_streams p))
       (p\<lparr>ps_world := enter cfg ex (StreamReceive (ps_streams p ! k)) (ps_world p)\<rparr>)"
| "move pool files cfg ex (StreamEnds k) p =
     guarded (k < length (ps_streams p))
       (p\<lparr>ps_streams := dropAt k (ps_streams p),
          ps_world := enter cfg ex (StreamCancel (ps_streams p ! k)) (ps_world p)\<rparr>)"
| "move pool files cfg ex MainSignal p =
     guarded (ps_phase p = Serving \<and> ps_done p) (p\<lparr>ps_phase := ClosingHttp\<rparr>)"
| "move pool files cfg ex MainError p =
     guarded (ps_phase p = Serving \<and> ps_errs p \<noteq> [])
       (p\<lparr>ps_phase := ClosingHttp, ps_errs := tl (ps_errs p), ps_done := True, ps_catching := False\<rparr>)"
| "move pool files cfg ex (ShutdownReturns timedOut) p =
     guarded (ps_phase p = ClosingHttp \<and> (timedOut \<or> ps_requests p = [])) (p\<lparr>ps_phase := StoppingGrpc\<rparr>)"
| "move pool files cfg ex GracefulStopReturns p =
     guarded (ps_phase p = StoppingGrpc \<and> ps_rpcs p = [] \<and> ps_streams p = []) (p\<lparr>ps_phase := Draining\<rparr>)"
| "move pool files cfg ex WaitReturns p =
     guarded (ps_phase p = Draining \<and> ps_wg p = 0) (p\<lparr>ps_phase := Returned None\<rparr>)"

definition step :: "pool_params \<Rightarrow> migration list \<Rightarrow> config \<Rightarrow> externals \<Rightarrow> proc_event \<Rightarrow> process \<Rightarrow> process option" where
  "step pool files cfg ex e p = (if ended p then None else move pool files cfg ex e p)"

fun runEvents ::
  "pool_params \<Rightarrow> migration list \<Rightarrow> config \<Rightarrow> externals \<Rightarrow> proc_event list \<Rightarrow> process \<Rightarrow> process option" where
  "runEvents pool files cfg ex [] p = Some p"
| "runEvents pool files cfg ex (e # es) p =
     (case step pool files cfg ex e p of None \<Rightarrow> None | Some p' \<Rightarrow> runEvents pool files cfg ex es p')"

text \<open>
  \<^verbatim>\<open>run\<close>: without acceptable settings it returns at once; a registry that cannot be built
  panics; otherwise it goes on to the database.
\<close>

definition run ::
  "pool_params \<Rightarrow> migration list \<Rightarrow> env \<Rightarrow> externals \<Rightarrow> proc_event list \<Rightarrow> world \<Rightarrow> process option" where
  "run pool files env ex es w =
     (case Load env of
        Inl err \<Rightarrow> (if es = [] then Some (initially (Returned (Some err)) w) else None)
      | Inr cfg \<Rightarrow>
          runEvents pool files cfg ex es (initially (if NewMetrics = None then Crashed else Opening) w))"

end
