(* ===== verification/ProcessResults.thy ===== *)
theory ProcessResults
  imports Process
begin

text \<open>
  What the life of the process keeps and where it ends: the invariant of channels and counters, that
  everything the world goes through is a run of the connected system, that shutting down ends, what an
  open stream does to it, and the exit status.
\<close>

section \<open>The invariant\<close>

definition live :: "server \<Rightarrow> nat" where
  "live s = (if s = ServerIdle \<or> s = ServerUp then 1 else 0)"

lemma live_simps [simp]:
  "live ServerIdle = 1" "live ServerUp = 1" "live ServerClosed = 0" "live ServerDown = 0"
  by (simp_all add: live_def)

definition polling :: "poll_state list \<Rightarrow> nat" where
  "polling ps = length (filter (\<lambda>s. s \<noteq> PollStopped) ps)"

lemma polling_update:
  assumes "k < length ps"
  shows "polling (ps[k := s]) + (if ps ! k \<noteq> PollStopped then 1 else 0) = polling ps + (if s \<noteq> PollStopped then 1 else 0)"
  using assms
proof (induction ps arbitrary: k)
  case (Cons a ps)
  show ?case
  proof (cases k)
    case (Suc j)
    with Cons.IH [of j] Cons.prems show ?thesis
      by (cases "s = PollStopped"; cases "ps ! j = PollStopped") (simp_all add: polling_def)
  qed (simp add: polling_def)
qed simp

lemma polling_same [simp]:
  "k < length ps \<Longrightarrow> ps ! k \<noteq> PollStopped \<Longrightarrow> s \<noteq> PollStopped \<Longrightarrow> polling (ps[k := s]) = polling ps"
  using polling_update [of k ps s] by simp

lemma polling_stop:
  "k < length ps \<Longrightarrow> ps ! k \<noteq> PollStopped \<Longrightarrow> polling ps = Suc (polling (ps[k := PollStopped]))"
  using polling_update [of k ps PollStopped] by simp

definition running :: "process \<Rightarrow> nat" where
  "running p = live (ps_http p) + live (ps_grpc p) + polling (ps_pollers p) + of_bool (ps_reaper p)"

lemma running_simps [simp]:
  "running (p\<lparr>ps_phase := a\<rparr>) = running p" "running (p\<lparr>ps_done := b\<rparr>) = running p"
  "running (p\<lparr>ps_catching := c\<rparr>) = running p" "running (p\<lparr>ps_errs := d\<rparr>) = running p"
  "running (p\<lparr>ps_wg := e\<rparr>) = running p" "running (p\<lparr>ps_requests := f\<rparr>) = running p"
  "running (p\<lparr>ps_rpcs := g\<rparr>) = running p" "running (p\<lparr>ps_streams := h\<rparr>) = running p"
  "running (p\<lparr>ps_world := i\<rparr>) = running p"
  by (simp_all add: running_def)

lemma running_update:
  "live s = live (ps_http p) \<Longrightarrow> running (p\<lparr>ps_http := s\<rparr>) = running p"
  "live s = live (ps_grpc p) \<Longrightarrow> running (p\<lparr>ps_grpc := s\<rparr>) = running p"
  "live (ps_http p) = Suc (live s) \<Longrightarrow> running p = Suc (running (p\<lparr>ps_http := s\<rparr>))"
  "live (ps_grpc p) = Suc (live s) \<Longrightarrow> running p = Suc (running (p\<lparr>ps_grpc := s\<rparr>))"
  "ps_reaper p \<Longrightarrow> running p = Suc (running (p\<lparr>ps_reaper := False\<rparr>))"
  "k < length (ps_pollers p) \<Longrightarrow> ps_pollers p ! k \<noteq> PollStopped \<Longrightarrow> u \<noteq> PollStopped \<Longrightarrow>
     running (p\<lparr>ps_pollers := (ps_pollers p)[k := u]\<rparr>) = running p"
  "k < length (ps_pollers p) \<Longrightarrow> ps_pollers p ! k \<noteq> PollStopped \<Longrightarrow>
     running p = Suc (running (p\<lparr>ps_pollers := (ps_pollers p)[k := PollStopped]\<rparr>))"
  using polling_stop [of k "ps_pollers p"] by (simp_all add: running_def)

definition inactive :: "process \<Rightarrow> bool" where
  "inactive p \<longleftrightarrow> ps_errs p = [] \<and> ps_http p = ServerDown \<and> ps_grpc p = ServerDown \<and> ps_pollers p = [] \<and>
     \<not> ps_reaper p \<and> ps_requests p = [] \<and> ps_rpcs p = [] \<and> ps_streams p = [] \<and> ps_catching p"

definition starting :: "phase \<Rightarrow> bool" where
  "starting ph = (case ph of Opening \<Rightarrow> True | Backoff \<Rightarrow> True | Returned r \<Rightarrow> r \<noteq> None | _ \<Rightarrow> False)"

definition shutting :: "phase \<Rightarrow> bool" where
  "shutting ph =
     (case ph of ClosingHttp \<Rightarrow> True | StoppingGrpc \<Rightarrow> True | Draining \<Rightarrow> True | Returned r \<Rightarrow> r = None | _ \<Rightarrow> False)"

definition active :: "phase \<Rightarrow> bool" where
  "active ph =
     (case ph of Serving \<Rightarrow> True | ClosingHttp \<Rightarrow> True | StoppingGrpc \<Rightarrow> True | Draining \<Rightarrow> True | _ \<Rightarrow> False)"

definition drained :: "phase \<Rightarrow> bool" where
  "drained ph = (case ph of Draining \<Rightarrow> True | Returned r \<Rightarrow> r = None | _ \<Rightarrow> False)"

lemmas phase_defs = starting_def shutting_def active_def drained_def

lemma phase_simps [simp]:
  "starting Opening" "starting Backoff" "\<not> starting Serving" "\<not> starting ClosingHttp" "\<not> starting StoppingGrpc"
  "\<not> starting Draining" "starting (Returned r) = (r \<noteq> None)" "\<not> starting Crashed" "\<not> starting Killed"
  "\<not> shutting Opening" "\<not> shutting Backoff" "\<not> shutting Serving" "shutting ClosingHttp" "shutting StoppingGrpc"
  "shutting Draining" "shutting (Returned r) = (r = None)" "\<not> shutting Crashed" "\<not> shutting Killed"
  "\<not> active Opening" "\<not> active Backoff" "active Serving" "active ClosingHttp" "active StoppingGrpc"
  "active Draining" "\<not> active (Returned r)" "\<not> active Crashed" "\<not> active Killed"
  "\<not> drained Opening" "\<not> drained Backoff" "\<not> drained Serving" "\<not> drained ClosingHttp" "\<not> drained StoppingGrpc"
  "drained Draining" "drained (Returned r) = (r = None)" "\<not> drained Crashed" "\<not> drained Killed"
  by (simp_all add: phase_defs)

definition proc_inv :: "config \<Rightarrow> externals \<Rightarrow> process \<Rightarrow> bool" where
  "proc_inv cfg ex p \<longleftrightarrow>
     length (ps_errs p) + live (ps_http p) + live (ps_grpc p) \<le> 2 \<and>
     ps_wg p = int (running p) \<and>
     (starting (ps_phase p) \<longrightarrow> inactive p) \<and>
     (shutting (ps_phase p) \<or> \<not> ps_catching p \<longrightarrow> ps_done p) \<and>
     (drained (ps_phase p) \<longrightarrow> ps_rpcs p = [] \<and> ps_streams p = []) \<and>
     (ps_phase p = Returned None \<longrightarrow> running p = 0) \<and>
     (active (ps_phase p) \<longrightarrow> length (ps_pollers p) = length (pollersOf cfg (ex_client ex)))"

lemma proc_inv_initially:
  "proc_inv cfg ex (initially Opening w)" "proc_inv cfg ex (initially (Returned (Some err)) w)"
  by (auto simp: proc_inv_def initially_def running_def polling_def inactive_def)

lemma guarded_Some [simp]: "guarded b p = Some p' \<longleftrightarrow> b \<and> p' = p"
  by (auto simp: guarded_def)

lemma guarded_None [simp]: "guarded b p = None \<longleftrightarrow> \<not> b"
  by (simp add: guarded_def)

lemma openAttempt_inv:
  assumes "proc_inv cfg ex p" "ps_phase p = Opening"
  shows "proc_inv cfg ex (openAttempt pool files cfg ex p)"
  using assms
  by (auto simp: proc_inv_def openAttempt_def startWorkers_def running_def polling_def inactive_def Let_def
      split: prod.split option.split)

text \<open>What the invariant does not see, and how it follows the single updates.\<close>

lemma inv_world [simp]: "proc_inv cfg ex (p\<lparr>ps_world := w\<rparr>) = proc_inv cfg ex p"
  by (simp add: proc_inv_def inactive_def)

lemma inv_started:
  assumes "proc_inv cfg ex p"
  shows "connected (ps_http p) \<Longrightarrow> \<not> starting (ps_phase p)" "connected (ps_grpc p) \<Longrightarrow> \<not> starting (ps_phase p)"
    "ps_requests p \<noteq> [] \<Longrightarrow> \<not> starting (ps_phase p)" "ps_rpcs p \<noteq> [] \<Longrightarrow> \<not> starting (ps_phase p)"
    "ps_streams p \<noteq> [] \<Longrightarrow> \<not> starting (ps_phase p)" "ps_http p \<noteq> ServerDown \<Longrightarrow> \<not> starting (ps_phase p)"
    "ps_grpc p \<noteq> ServerDown \<Longrightarrow> \<not> starting (ps_phase p)" "ps_reaper p \<Longrightarrow> \<not> starting (ps_phase p)"
    "ps_pollers p \<noteq> [] \<Longrightarrow> \<not> starting (ps_phase p)"
  using assms by (auto simp: proc_inv_def inactive_def connected_def)

lemma inv_requests: "proc_inv cfg ex p \<Longrightarrow> \<not> starting (ps_phase p) \<Longrightarrow> proc_inv cfg ex (p\<lparr>ps_requests := rs\<rparr>)"
  by (simp add: proc_inv_def)

lemma inv_calls:
  assumes "proc_inv cfg ex p" "\<not> starting (ps_phase p)"
  shows "drained (ps_phase p) \<longrightarrow> cs = [] \<Longrightarrow> proc_inv cfg ex (p\<lparr>ps_rpcs := cs\<rparr>)"
    "drained (ps_phase p) \<longrightarrow> js = [] \<Longrightarrow> proc_inv cfg ex (p\<lparr>ps_streams := js\<rparr>)"
  using assms by (simp_all add: proc_inv_def)

lemma inv_death: "proc_inv cfg ex p \<Longrightarrow> ph \<in> {Crashed, Killed} \<Longrightarrow> proc_inv cfg ex (p\<lparr>ps_phase := ph\<rparr>)"
  by (auto simp: proc_inv_def)

lemma inv_poll:
  assumes "proc_inv cfg ex p" "k < length (ps_pollers p)" "ps_pollers p ! k \<noteq> PollStopped" "s \<noteq> PollStopped"
  shows "proc_inv cfg ex (p\<lparr>ps_pollers := (ps_pollers p)[k := s]\<rparr>)"
proof -
  have "\<not> starting (ps_phase p)" using assms(1,2) inv_started(9) by fastforce
  with assms(1) running_update(6) [OF assms(2-4)] show ?thesis by (simp add: proc_inv_def)
qed

text \<open>A worker of a process that has not ended is done; a server may leave an error in the channel.\<close>

lemma inv_done:
  assumes "proc_inv cfg ex p" "running p = Suc (running q)" "\<not> ended p" "ps_wg q = ps_wg p"
    "length (ps_errs q) + live (ps_http q) + live (ps_grpc q) \<le> length (ps_errs p) + live (ps_http p) + live (ps_grpc p)"
    "ps_phase q = ps_phase p" "ps_done q = ps_done p" "ps_catching q = ps_catching p" "ps_rpcs q = ps_rpcs p"
    "ps_streams q = ps_streams p" "length (ps_pollers q) = length (ps_pollers p)"
  shows "proc_inv cfg ex (wgDone q)"
proof -
  have "running p \<noteq> 0" using assms(2) by simp
  then have "\<not> starting (ps_phase p)"
    using assms(1) by (auto simp: proc_inv_def inactive_def running_def polling_def)
  moreover have "ps_phase p \<noteq> Returned None" using assms(3) by (auto simp: ended_def)
  ultimately show ?thesis using assms by (simp add: proc_inv_def wgDone_def inactive_def)
qed

text \<open>The events in which a worker ends, those of the clients, and all others.\<close>

definition worker_ends :: "proc_event \<Rightarrow> bool" where
  "worker_ends e \<longleftrightarrow> (case e of HttpFails _ \<Rightarrow> True | HttpCloses \<Rightarrow> True | GrpcFails _ \<Rightarrow> True | GrpcReturns \<Rightarrow> True
     | PollerEnds _ \<Rightarrow> True | ReaperEnds \<Rightarrow> True | _ \<Rightarrow> False)"

definition of_client :: "proc_event \<Rightarrow> bool" where
  "of_client e \<longleftrightarrow> (case e of RequestArrives _ \<Rightarrow> True | RequestServed _ \<Rightarrow> True | RpcArrives _ \<Rightarrow> True | RpcServed _ \<Rightarrow> True
     | StreamOpens \<Rightarrow> True | StreamEnds _ \<Rightarrow> True | _ \<Rightarrow> False)"

lemma worker_ends_inv:
  assumes "move pool files cfg ex e p = Some p'" "proc_inv cfg ex p" "\<not> ended p" "worker_ends e"
  shows "proc_inv cfg ex p'"
proof (cases e)
  case (HttpFails err)
  then show ?thesis using assms(1-3)
    by (auto simp: sendErr_def running_def intro!: inv_done [OF assms(2)] split: if_splits)
next
  case HttpCloses
  then show ?thesis using assms(1-3)
    by (auto simp: running_def intro!: inv_done [OF assms(2)] split: if_splits)
next
  case (GrpcFails err)
  then show ?thesis using assms(1-3)
    by (auto simp: sendErr_def running_def intro!: inv_done [OF assms(2)] split: if_splits)
next
  case GrpcReturns
  then show ?thesis using assms(1-3)
    by (auto simp: running_def intro!: inv_done [OF assms(2)])
next
  case (PollerEnds k)
  then show ?thesis using assms(1-3) running_update(7) [of k p]
    by (auto intro!: inv_done [OF assms(2)] split: if_splits poll_state.splits)
next
  case ReaperEnds
  then show ?thesis using assms(1-3) running_update(5) [of p] by (auto intro!: inv_done [OF assms(2)])
qed (use assms(4) in \<open>simp_all add: worker_ends_def\<close>)

lemma of_client_inv:
  assumes "move pool files cfg ex e p = Some p'" "proc_inv cfg ex p" "\<not> ended p" "of_client e"
  shows "proc_inv cfg ex p'"
proof (cases e)
  case (RequestArrives rq)
  then show ?thesis using assms(1-3) inv_started(1) [OF assms(2)] by (auto intro: inv_requests)
next
  case (RequestServed k)
  then show ?thesis using assms(1-3) inv_started(3) [OF assms(2)]
    by (cases "ps_requests p = []") (auto intro: inv_requests)
next
  case (RpcArrives call)
  then show ?thesis using assms(1-3) inv_started(2) [OF assms(2)]
    by (auto intro!: inv_calls simp: stopping_def drained_def ended_def split: phase.splits)
next
  case (RpcServed k)
  then show ?thesis using assms(1-3) inv_started(4) [OF assms(2)]
    by (cases "ps_rpcs p = []") (auto intro!: inv_calls simp: proc_inv_def)
next
  case StreamOpens
  then show ?thesis using assms(1-3) inv_started(2) [OF assms(2)]
    by (auto intro!: inv_calls simp: stopping_def drained_def ended_def split: phase.splits)
next
  case (StreamEnds k)
  then show ?thesis using assms(1-3) inv_started(5) [OF assms(2)]
    by (cases "ps_streams p = []") (auto intro!: inv_calls simp: proc_inv_def)
qed (use assms(4) in \<open>simp_all add: of_client_def\<close>)

lemma move_inv:
  assumes "move pool files cfg ex e p = Some p'" "proc_inv cfg ex p" "\<not> ended p"
  shows "proc_inv cfg ex p'"
proof (cases "worker_ends e \<or> of_client e")
  case True
  then show ?thesis using worker_ends_inv [OF assms] of_client_inv [OF assms] by blast
next
  case other: False
  show ?thesis
  proof (cases e)
    case Signal
    then show ?thesis using assms(1,2)
      by (cases "ps_catching p") (auto intro: inv_death, simp add: proc_inv_def inactive_def)
  next
    case OpenAttempt
    then show ?thesis using assms(1,2) openAttempt_inv by auto
  next
    case (PollerStarts k)
    then show ?thesis using assms inv_poll [OF assms(2), of k]
      by (auto simp: pollerStarts_def inv_death split: if_splits prod.splits)
  next
    case (PollerCycle k)
    then show ?thesis using assms inv_poll [OF assms(2), of k]
      by (auto simp: pollerCycle_def split: if_splits prod.splits poll_state.splits)
  next
    case (PollerTick k)
    then show ?thesis using assms inv_poll [OF assms(2), of k]
      by (auto split: if_splits poll_state.splits)
  next
    case HttpListens
    then show ?thesis using assms inv_started(6) [OF assms(2)]
      by (auto simp: proc_inv_def running_update)
  next
    case GrpcListens
    then show ?thesis using assms inv_started(7) [OF assms(2)]
      by (auto simp: proc_inv_def running_update)
  next
    case MainError
    then show ?thesis using assms by (auto simp: proc_inv_def)
  qed (use assms other in \<open>auto simp: proc_inv_def inactive_def worker_ends_def of_client_def\<close>)
qed

lemma step_inv: "step pool files cfg ex e p = Some p' \<Longrightarrow> proc_inv cfg ex p \<Longrightarrow> proc_inv cfg ex p'"
  by (auto simp: step_def intro: move_inv split: if_splits)

lemma runEvents_inv: "runEvents pool files cfg ex es p = Some p' \<Longrightarrow> proc_inv cfg ex p \<Longrightarrow> proc_inv cfg ex p'"
  by (induction es arbitrary: p) (auto split: option.splits dest: step_inv)

text \<open>An execution either never starts or begins by opening the database.\<close>

lemma run_cases:
  assumes "run pool files env ex es w = Some p"
  obtains (refused) err where "Load env = Inl err" "es = []" "p = initially (Returned (Some err)) w"
  | (started) cfg where "Load env = Inr cfg" "runEvents pool files cfg ex es (initially Opening w) = Some p"
  using assms by (auto simp: run_def NewMetrics_ok split: sum.splits if_splits)

lemma run_inv:
  assumes "run pool files env ex es w = Some p"
  shows "\<exists>cfg. proc_inv cfg ex p"
  using assms
proof (cases rule: run_cases)
  case refused
  then show ?thesis by (simp add: proc_inv_initially)
next
  case (started cfg)
  then show ?thesis using runEvents_inv proc_inv_initially(1) by blast
qed

section \<open>Executions\<close>

text \<open>A process without providers on a database that answers.\<close>

definition demo_start :: env where
  "demo_start key = (if key = ''DATABASE_URL'' then ''x'' else [])"

definition demo_pool :: pool_params where
  "demo_pool = \<lparr>pp_ParseConfig = (\<lambda>_. None), pp_NewWithConfig = (\<lambda>_. None)\<rparr>"

lemma demo_Load: obtains cfg where "Load demo_start = Inr cfg" "pollersOf cfg (ex_client ex) = []"
proof -
  have "settings_ok demo_start" by (simp add: settings_ok_def cipherKeyOk_def demo_start_def)
  from Load_accepts [OF this] show thesis
    by (rule that) (simp add: pollersOf_def readConfig_def demo_start_def Let_def getenv_def)
qed

lemma demo_Open: obtains w where "Open demo_pool [] url (calm empty_database) = (None, w)"
  "w_hub w = \<lparr>h_chans = [], h_subs = [], h_panic = False\<rparr>"
proof -
  have "fst (Open demo_pool [] url (calm empty_database)) = None \<and>
      w_hub (snd (Open demo_pool [] url (calm empty_database))) = \<lparr>h_chans = [], h_subs = [], h_panic = False\<rparr>"
    by (simp add: Open_def demo_pool_def Ping_def migrate_def createMigrations_sql_def run_defs demo_world_def)
  then show thesis by (intro that) (auto simp: prod_eq_iff)
qed

definition demo_serving :: "world \<Rightarrow> process" where
  "demo_serving w = (initially Serving w)\<lparr>ps_http := ServerIdle, ps_grpc := ServerIdle, ps_reaper := True, ps_wg := 3\<rparr>"

lemma demo_run:
  obtains cfg w where "Load demo_start = Inr cfg" "w_hub w = \<lparr>h_chans = [], h_subs = [], h_panic = False\<rparr>"
    "\<forall>es. run demo_pool [] demo_start demo_externals (OpenAttempt # es) (calm empty_database) =
       runEvents demo_pool [] cfg demo_externals es (demo_serving w)"
proof -
  obtain cfg where cfg: "Load demo_start = Inr cfg" "pollersOf cfg (ex_client demo_externals) = []"
    by (rule demo_Load)
  obtain w where w: "Open demo_pool [] (cf_DatabaseURL cfg) (calm empty_database) = (None, w)"
    "w_hub w = \<lparr>h_chans = [], h_subs = [], h_panic = False\<rparr>" by (rule demo_Open)
  show thesis
    by (rule that [OF cfg(1) w(2)])
      (simp add: run_def cfg NewMetrics_ok step_def ended_def initially_def openAttempt_def w(1) startWorkers_def guarded_def demo_serving_def)
qed

text \<open>The HTTP server cannot listen; the process shuts down in order.\<close>

definition failure_events :: "proc_event list" where
  "failure_events = [OpenAttempt, HttpFails (Errorf ''address in use'' []), GrpcListens, MainError,
     ShutdownReturns False, GracefulStopReturns, GrpcReturns, ReaperEnds, WaitReturns]"

lemma demo_failure:
  obtains p where "run demo_pool [] demo_start demo_externals failure_events (calm empty_database) = Some p"
    "ps_phase p = Returned None"
proof -
  obtain cfg w where r: "\<forall>es. run demo_pool [] demo_start demo_externals (OpenAttempt # es) (calm empty_database) =
       runEvents demo_pool [] cfg demo_externals es (demo_serving w)"
    by (rule demo_run) blast
  show thesis
    by (rule that, simp add: failure_events_def r demo_serving_def step_def ended_def initially_def guarded_def
        sendErr_def errChCapacity_def wgDone_def stopping_def closing_def) simp
qed

text \<open>A client opens a stream, and a signal arrives.\<close>

definition signal_events :: "proc_event list" where
  "signal_events = [OpenAttempt, HttpListens, GrpcListens, StreamOpens, Signal, MainSignal, ShutdownReturns False]"

lemma demo_signal:
  obtains p cfg where "run demo_pool [] demo_start demo_externals signal_events (calm empty_database) = Some p"
    "Load demo_start = Inr cfg" "ps_phase p = StoppingGrpc" "ps_catching p" "ps_done p" "ps_streams p = [0]"
    "\<exists>q. runEvents demo_pool [] cfg demo_externals [ReaperEnds, HttpCloses] p = Some q \<and> ps_phase q = StoppingGrpc"
proof -
  obtain cfg w where r: "Load demo_start = Inr cfg" "w_hub w = \<lparr>h_chans = [], h_subs = [], h_panic = False\<rparr>"
      "\<forall>es. run demo_pool [] demo_start demo_externals (OpenAttempt # es) (calm empty_database) =
       runEvents demo_pool [] cfg demo_externals es (demo_serving w)"
    by (rule demo_run) blast
  show thesis
    by (rule that [OF _ r(1)], simp add: signal_events_def r demo_serving_def step_def ended_def initially_def
        guarded_def connected_def stopping_def closing_def)
      (simp_all add: Subscribe_def hubSubscribe_def r(2) step_def ended_def guarded_def closing_def wgDone_def)
qed

section \<open>Properties\<close>

text \<open>C10: the goroutines of the process never block each other or lose count. In every execution, a server
  that is still running finds room in errCh for its error, so it never blocks on the send; the wait group's
  counter is the number of workers that have not ended; and when run returns without an error, the context
  is done, every worker has ended, and no call and no stream is open.\<close>

theorem process_invariant:
  assumes "run pool files env ex es w = Some p"
  shows "(ps_http p \<in> {ServerIdle, ServerUp} \<or> ps_grpc p \<in> {ServerIdle, ServerUp} \<longrightarrow>
      length (ps_errs p) < errChCapacity) \<and>
    ps_wg p = int (running p) \<and>
    (ps_phase p = Returned None \<longrightarrow> ps_done p \<and> ps_http p \<notin> {ServerIdle, ServerUp} \<and>
       ps_grpc p \<notin> {ServerIdle, ServerUp} \<and> set (ps_pollers p) \<subseteq> {PollStopped} \<and> \<not> ps_reaper p \<and>
       ps_rpcs p = [] \<and> ps_streams p = [])"
proof -
  obtain cfg where inv: "proc_inv cfg ex p" using run_inv [OF assms] by blast
  have "set ps \<subseteq> {PollStopped}" if "polling ps = 0" for ps
    using that by (auto simp: polling_def filter_empty_conv)
  with inv show ?thesis
    by (auto simp: proc_inv_def errChCapacity_def running_def live_def split: if_splits)
qed

lemma process_invariant_witness:
  "\<exists>p. run demo_pool [] demo_start demo_externals failure_events (calm empty_database) = Some p \<and>
     ps_phase p = Returned None \<and> ps_wg p = int (running p) \<and> ps_done p \<and> \<not> ps_reaper p"
proof -
  obtain p where p: "run demo_pool [] demo_start demo_externals failure_events (calm empty_database) = Some p"
    "ps_phase p = Returned None" by (rule demo_failure)
  from process_invariant [OF p(1)] p show ?thesis by blast
qed

section \<open>What happens to the world\<close>

text \<open>Once the database is open, every step is an entry of the connected system or changes nothing shared.\<close>

lemma pollers_single:
  "k < length (pollersOf cfg client) \<Longrightarrow> pollersOf cfg client = [pollersOf cfg client ! k]"
  by (auto simp: pollersOf_def split: if_splits)

lemma move_system:
  assumes "move pool files cfg ex e p = Some p'" "proc_inv cfg ex p" "active (ps_phase p)" "\<not> ended p"
  shows "system_step cfg ex (ps_world p) (ps_world p')"
proof -
  have same: "system_step cfg ex v v" for v by (rule outside) (simp add: untouched_state_def)
  have len: "length (ps_pollers p) = length (pollersOf cfg (ex_client ex))"
    using assms(2,3) by (simp add: proc_inv_def)
  show ?thesis
  proof (cases e)
    case OpenAttempt
    then show ?thesis using assms by (auto)
  next
    case (PollerStarts k)
    have "system_step cfg ex v (snd (timeNow v))" for v by (rule outside) (simp add: untouched_state_def timeNow_def)
    then show ?thesis using assms(1) PollerStarts same
      by (auto simp: pollerStarts_def split: if_splits prod.splits) (metis snd_conv)
  next
    case (PollerCycle k)
    then obtain since where k: "k < length (ps_pollers p)"
      "p' = pollerCycle (pollersOf cfg (ex_client ex) ! k) since k p"
      using assms(1) by (auto split: if_splits poll_state.splits)
    have "ps_world p' = enter cfg ex (PollCycle since) (ps_world p)"
      using k pollers_single [of k cfg "ex_client ex"] len
      by (simp add: pollerCycle_def split: prod.splits) (metis list.simps(5) snd_conv)
    then show ?thesis by (simp only: system_step.entry)
  next
    case (RequestServed k)
    then show ?thesis using assms(1) by (auto simp del: enter.simps intro: system_step.entry)
  qed (use assms(1) same in \<open>auto simp: wgDone_def sendErr_def simp del: enter.simps
      intro: system_step.entry split: if_splits poll_state.splits\<close>)
qed

text \<open>The start-up loop ends with an open database or before anything has started.\<close>

lemma move_started:
  assumes "move pool files cfg ex e p = Some p'" "\<not> starting (ps_phase p)"
  shows "\<not> starting (ps_phase p')"
  using assms
  by (cases e) (auto simp: wgDone_def sendErr_def pollerStarts_def pollerCycle_def
      split: if_splits poll_state.splits prod.splits)

lemma move_starting:
  assumes "move pool files cfg ex e p = Some p'" "starting (ps_phase p)" "proc_inv cfg ex p"
  shows "starting (ps_phase p') \<or> (\<exists>w0. Open pool files (cf_DatabaseURL cfg) w0 = (None, ps_world p'))"
  using assms inv_started [OF assms(3)]
proof (cases e)
  case OpenAttempt
  then show ?thesis using assms
    by (auto simp: openAttempt_def startWorkers_def Let_def split: prod.splits option.splits)
qed (auto simp: proc_inv_def inactive_def connected_def)

lemma active_iff: "\<not> ended p \<Longrightarrow> active (ps_phase p) = (\<not> starting (ps_phase p))"
  by (simp add: ended_def split: phase.splits)

lemma runEvents_started:
  assumes "runEvents pool files cfg ex es p = Some p'" "proc_inv cfg ex p" "\<not> starting (ps_phase p)"
  shows "runs cfg ex (ps_world p) (ps_world p') \<and> \<not> starting (ps_phase p')"
  using assms
proof (induction es arbitrary: p)
  case (Cons e es)
  then obtain q where q: "move pool files cfg ex e p = Some q" "\<not> ended p" "runEvents pool files cfg ex es q = Some p'"
    by (auto simp: step_def split: if_splits option.splits)
  have "runs cfg ex (ps_world q) (ps_world p') \<and> \<not> starting (ps_phase p')"
    by (rule Cons.IH [OF q(3) move_inv [OF q(1) Cons.prems(2) q(2)] move_started [OF q(1) Cons.prems(3)]])
  moreover have "system_step cfg ex (ps_world p) (ps_world q)"
    using move_system [OF q(1) Cons.prems(2) _ q(2)] active_iff [OF q(2)] Cons.prems(3) by simp
  ultimately show ?case by (meson converse_rtranclp_into_rtranclp)
qed simp

lemma runEvents_opening:
  assumes "runEvents pool files cfg ex es p = Some p'" "proc_inv cfg ex p" "starting (ps_phase p)"
    "\<not> starting (ps_phase p')"
  shows "\<exists>w0 w1. Open pool files (cf_DatabaseURL cfg) w0 = (None, w1) \<and> runs cfg ex w1 (ps_world p')"
  using assms
proof (induction es arbitrary: p)
  case (Cons e es)
  then obtain q where q: "move pool files cfg ex e p = Some q" "\<not> ended p" "runEvents pool files cfg ex es q = Some p'"
    by (auto simp: step_def split: if_splits option.splits)
  note inv = move_inv [OF q(1) Cons.prems(2) q(2)]
  show ?case
  proof (cases "starting (ps_phase q)")
    case True
    then show ?thesis using Cons.IH [OF q(3) inv] Cons.prems(4) by blast
  next
    case False
    then show ?thesis
      using move_starting [OF q(1) Cons.prems(3,2)] runEvents_started [OF q(3) inv] by blast
  qed
qed simp



section \<open>Shutting down\<close>

text \<open>The events that take a process that is shutting down towards its end.\<close>

fun completes :: "proc_event \<Rightarrow> bool" where
  "completes (HttpFails err) = True" | "completes HttpCloses = True" | "completes HttpListens = True"
| "completes (GrpcFails err) = True" | "completes GrpcReturns = True" | "completes GrpcListens = True"
| "completes (PollerStarts k) = True" | "completes (PollerCycle k) = True" | "completes (PollerEnds k) = True"
| "completes ReaperEnds = True" | "completes (RpcServed k) = True" | "completes (StreamEnds k) = True"
| "completes MainSignal = True" | "completes MainError = True" | "completes (ShutdownReturns timedOut) = True"
| "completes GracefulStopReturns = True" | "completes WaitReturns = True"
| "completes _ = False"

definition rank :: "phase \<Rightarrow> nat" where
  "rank ph = (case ph of Serving \<Rightarrow> 4 | ClosingHttp \<Rightarrow> 3 | StoppingGrpc \<Rightarrow> 2 | Draining \<Rightarrow> 1 | _ \<Rightarrow> 0)"

definition serverWork :: "server \<Rightarrow> nat" where
  "serverWork s = (case s of ServerIdle \<Rightarrow> 2 | ServerUp \<Rightarrow> 1 | _ \<Rightarrow> 0)"

definition pollWork :: "poll_state \<Rightarrow> nat" where
  "pollWork s = (case s of PollUnstarted \<Rightarrow> 3 | PollDue t \<Rightarrow> 2 | PollWaiting t \<Rightarrow> 1 | PollStopped \<Rightarrow> 0)"

definition work :: "process \<Rightarrow> nat" where
  "work p = rank (ps_phase p) + serverWork (ps_http p) + serverWork (ps_grpc p) +
     sum_list (map pollWork (ps_pollers p)) + of_bool (ps_reaper p) + length (ps_rpcs p) + length (ps_streams p)"

lemma rank_simps [simp]:
  "rank Serving = 4" "rank ClosingHttp = 3" "rank StoppingGrpc = 2" "rank Draining = 1" "rank (Returned r) = 0"
  "rank Crashed = 0" "rank Killed = 0" "active ph \<Longrightarrow> 0 < rank ph"
  by (auto simp: rank_def active_def split: phase.splits)

lemma work_simps [simp]:
  "serverWork ServerIdle = 2" "serverWork ServerUp = 1" "serverWork ServerClosed = 0" "serverWork ServerDown = 0"
  "pollWork PollUnstarted = 3" "pollWork (PollDue t) = 2" "pollWork (PollWaiting t) = 1" "pollWork PollStopped = 0"
  by (simp_all add: serverWork_def pollWork_def)

lemma pollWork_update:
  "k < length ps \<Longrightarrow> sum_list (map pollWork (ps[k := s])) + pollWork (ps ! k) = sum_list (map pollWork ps) + pollWork s"
proof (induction ps arbitrary: k)
  case (Cons a ps)
  show ?case
  proof (cases k)
    case (Suc j)
    with Cons.IH [of j] Cons.prems show ?thesis by simp
  qed simp
qed simp

lemma pollWork_less:
  "k < length ps \<Longrightarrow> pollWork s < pollWork (ps ! k) \<Longrightarrow> sum_list (map pollWork (ps[k := s])) < sum_list (map pollWork ps)"
  using pollWork_update [of k ps s] by simp

lemma length_dropAt: "k < length xs \<Longrightarrow> length xs = Suc (length (dropAt k xs))"
  by (simp add: dropAt_def)

lemma completes_work:
  assumes "move pool files cfg ex e p = Some p'" "completes e" "active (ps_phase p)"
  shows "work p' < work p"
proof -
  have rank: "0 < rank (ps_phase p)" using assms(3) by simp
  show ?thesis
  proof (cases e)
    case (PollerStarts k)
    then show ?thesis using assms(1) rank
      by (auto simp: work_def pollerStarts_def pollWork_less split: if_splits prod.splits)
  next
    case (PollerCycle k)
    then show ?thesis using assms(1)
      by (auto simp: work_def pollerCycle_def pollWork_less split: if_splits prod.splits poll_state.splits)
  next
    case (PollerEnds k)
    then show ?thesis using assms(1)
      by (auto simp: work_def wgDone_def pollWork_less split: if_splits poll_state.splits)
  next
    case (RpcServed k)
    then show ?thesis using assms(1) length_dropAt [of k "ps_rpcs p"] by (auto simp: work_def)
  next
    case (StreamEnds k)
    then show ?thesis using assms(1) length_dropAt [of k "ps_streams p"] by (auto simp: work_def)
  qed (use assms in \<open>auto simp: work_def wgDone_def sendErr_def split: if_splits\<close>)
qed

lemma poller_progress:
  assumes "k < length (ps_pollers p)" "ps_pollers p ! k \<noteq> PollStopped" "ps_done p"
  shows "\<exists>e p'. completes e \<and> (\<forall>j. e \<noteq> StreamEnds j) \<and> move pool files cfg ex e p = Some p'"
proof (cases "ps_pollers p ! k")
  case PollUnstarted
  then show ?thesis using assms(1) by (intro exI [of _ "PollerStarts k"]) simp
next
  case (PollDue t)
  then show ?thesis using assms(1) by (intro exI [of _ "PollerCycle k"]) simp
next
  case (PollWaiting t)
  then show ?thesis using assms by (intro exI [of _ "PollerEnds k"]) simp
qed (use assms in simp)

lemma server_progress:
  assumes "proc_inv cfg ex p" "ps_phase p = Draining" "live (ps_http p) = 1 \<or> live (ps_grpc p) = 1"
  shows "\<exists>e p'. completes e \<and> (\<forall>j. e \<noteq> StreamEnds j) \<and> move pool files cfg ex e p = Some p'"
proof (cases "live (ps_http p) = 1")
  case True
  moreover have "closing p" using assms(2) by (simp add: closing_def)
  ultimately show ?thesis by (intro exI [of _ HttpCloses]) (cases "ps_http p"; simp)
next
  case False
  with assms(3) have up: "live (ps_grpc p) = 1" by blast
  then have g: "ps_grpc p \<in> {ServerIdle, ServerUp}" by (cases "ps_grpc p") simp_all
  from up assms(1) have "length (ps_errs p) < errChCapacity" by (simp add: proc_inv_def errChCapacity_def)
  then have "\<exists>p'. move pool files cfg ex (if ps_grpc p = ServerIdle then GrpcFails (Sentinel Canceled) else GrpcReturns) p = Some p'"
    using g assms(2) by (auto simp: stopping_def sendErr_def guarded_def)
  then show ?thesis
    by (intro exI [of _ "if ps_grpc p = ServerIdle then GrpcFails (Sentinel Canceled) else GrpcReturns"]) auto
qed

lemma shutdown_progress:
  assumes "proc_inv cfg ex p" "active (ps_phase p)" "ps_done p" "ps_phase p \<noteq> StoppingGrpc \<or> ps_streams p = []"
  shows "\<exists>e p'. completes e \<and> (\<forall>j. e \<noteq> StreamEnds j) \<and> move pool files cfg ex e p = Some p'"
proof -
  from assms(2) consider "ps_phase p = Serving" | "ps_phase p = ClosingHttp" | "ps_phase p = StoppingGrpc" | "ps_phase p = Draining"
    by (auto simp: active_def split: phase.splits)
  then show ?thesis
  proof cases
    case 1
    then show ?thesis using assms(3) by (intro exI [of _ MainSignal]) simp
  next
    case 2
    then show ?thesis by (intro exI [of _ "ShutdownReturns True"]) simp
  next
    case 3
    then show ?thesis using assms(4)
      by (intro exI [of _ "if ps_rpcs p = [] then GracefulStopReturns else RpcServed 0"]) auto
  next
    case 4
    show ?thesis
    proof (cases "running p = 0")
      case True
      then show ?thesis using 4 assms(1) by (intro exI [of _ WaitReturns]) (simp add: proc_inv_def)
    next
      case False
      then consider "live (ps_http p) = 1 \<or> live (ps_grpc p) = 1" | "polling (ps_pollers p) \<noteq> 0" | "ps_reaper p"
        by (cases "ps_http p"; cases "ps_grpc p") (auto simp: running_def)
      then show ?thesis
      proof cases
        case 1
        then show ?thesis using server_progress [OF assms(1) 4] by blast
      next
        case 2
        then obtain k where "k < length (ps_pollers p)" "ps_pollers p ! k \<noteq> PollStopped"
          by (auto simp: polling_def filter_empty_conv in_set_conv_nth)
        then show ?thesis using poller_progress assms(3) by blast
      next
        case 3
        then show ?thesis using assms(3) by (intro exI [of _ ReaperEnds]) simp
      qed
    qed
  qed
qed

lemma move_done: "move pool files cfg ex e p = Some p' \<Longrightarrow> ps_done p \<Longrightarrow> ps_done p'"
  by (cases e) (auto simp: wgDone_def sendErr_def pollerStarts_def pollerCycle_def openAttempt_def
      startWorkers_def Let_def split: if_splits poll_state.splits prod.splits option.splits)

lemma completes_run:
  assumes "runEvents pool files cfg ex fs p = Some p'" "list_all completes fs" "proc_inv cfg ex p"
    "\<not> starting (ps_phase p)" "ps_done p"
  shows "length fs + work p' \<le> work p \<and> proc_inv cfg ex p' \<and> \<not> starting (ps_phase p') \<and> ps_done p'"
  using assms
proof (induction fs arbitrary: p)
  case (Cons e fs)
  then obtain q where q: "move pool files cfg ex e p = Some q" "\<not> ended p" "runEvents pool files cfg ex fs q = Some p'"
    by (auto simp: step_def split: if_splits option.splits)
  have "work q < work p"
    using completes_work [OF q(1)] Cons.prems(2,4) active_iff [OF q(2)] by simp
  with Cons.IH [OF q(3) _ move_inv [OF q(1) Cons.prems(3) q(2)] move_started [OF q(1) Cons.prems(4)]
      move_done [OF q(1) Cons.prems(5)]] Cons.prems(2)
  show ?case by simp
qed simp

text \<open>C11: shutting down ends. Once the context is done in a process that serves, the events that complete the
  shutdown (the workers ending, calls being served, clients leaving their streams, run going on) can happen
  at most as often as there is work left, in whatever order they come; and when none of them that the
  process can cause by itself is possible any more, the process has ended or waits in GracefulStop for
  the client of an open stream.\<close>

theorem shutdown_terminates:
  assumes "run pool files env ex es w = Some p" "Load env = Inr cfg" "ps_done p" "\<not> starting (ps_phase p)"
    "runEvents pool files cfg ex fs p = Some p'" "list_all completes fs"
  shows "length fs \<le> work p \<and>
    (ended p' \<or> (\<exists>e. completes e \<and> (\<forall>j. e \<noteq> StreamEnds j) \<and> step pool files cfg ex e p' \<noteq> None) \<or>
     ps_phase p' = StoppingGrpc \<and> ps_streams p' \<noteq> [])"
proof -
  have r: "runEvents pool files cfg ex es (initially Opening w) = Some p"
    using assms(1,2) by (simp add: run_def NewMetrics_ok)
  have inv: "proc_inv cfg ex p" by (rule runEvents_inv [OF r proc_inv_initially(1)])
  note c = completes_run [OF assms(5,6) inv assms(4,3)]
  have "\<exists>e. completes e \<and> (\<forall>j. e \<noteq> StreamEnds j) \<and> step pool files cfg ex e p' \<noteq> None"
    if "\<not> ended p'" "ps_phase p' \<noteq> StoppingGrpc \<or> ps_streams p' = []"
    using shutdown_progress [of cfg ex p' pool files] c that active_iff [OF that(1)] by (fastforce simp: step_def)
  with c show ?thesis by auto
qed

lemma shutdown_terminates_witness:
  "\<exists>p q cfg. run demo_pool [] demo_start demo_externals signal_events (calm empty_database) = Some p \<and>
     runEvents demo_pool [] cfg demo_externals [ReaperEnds, HttpCloses] p = Some q \<and> 2 \<le> work p"
proof -
  obtain p cfg where p: "run demo_pool [] demo_start demo_externals signal_events (calm empty_database) = Some p"
    "Load demo_start = Inr cfg" "ps_phase p = StoppingGrpc" "ps_done p"
    "\<exists>q. runEvents demo_pool [] cfg demo_externals [ReaperEnds, HttpCloses] p = Some q \<and> ps_phase q = StoppingGrpc"
    by (rule demo_signal)
  then obtain q where q: "runEvents demo_pool [] cfg demo_externals [ReaperEnds, HttpCloses] p = Some q" by blast
  have "length [ReaperEnds, HttpCloses] \<le> work p"
    using shutdown_terminates [OF p(1,2,4) _ q] p(3) by simp
  with p(1) q show ?thesis by auto
qed



text \<open>The only way to return with an error after the settings were accepted.\<close>

lemma move_returned:
  assumes "move pool files cfg ex e p = Some q" "\<not> ended p"
  shows "(\<exists>err. ps_phase q = Returned (Some err)) \<longleftrightarrow> e = GiveUp"
  using assms
  by (cases e) (auto simp: ended_def wgDone_def sendErr_def pollerStarts_def pollerCycle_def openAttempt_def
      startWorkers_def Let_def split: if_splits poll_state.splits prod.splits option.splits)

lemma runEvents_returned:
  assumes "runEvents pool files cfg ex es p = Some p'" "\<not> ended p"
  shows "(\<exists>err. ps_phase p' = Returned (Some err)) \<longleftrightarrow> GiveUp \<in> set es"
  using assms
proof (induction es arbitrary: p)
  case (Cons e es)
  then obtain q where q: "move pool files cfg ex e p = Some q" "runEvents pool files cfg ex es q = Some p'"
    by (auto simp: step_def split: if_splits option.splits)
  show ?case
  proof (cases "ended q")
    case True
    with q(2) have "es = []" "p' = q" by (cases es; simp add: step_def)+
    then show ?thesis using move_returned [OF q(1) Cons.prems(2)] by auto
  next
    case False
    moreover have "e \<noteq> GiveUp" using move_returned [OF q(1) Cons.prems(2)] False by (auto simp: ended_def)
    ultimately show ?thesis using Cons.IH [OF q(2)] by auto
  qed
qed (auto simp: ended_def)

text \<open>C40: what the exit status says. When run returns, the status is 1 exactly if the settings were refused or a
  signal cut the wait for the database short, and 0 in every other case: the failure of a server, which
  makes the process shut down, is reported as success.\<close>

theorem exit_status_correct:
  assumes "run pool files env ex es w = Some p" "ps_phase p = Returned r"
  shows "exitStatus p = Some (if (\<exists>err. Load env = Inl err) \<or> GiveUp \<in> set es then 1 else 0)"
  using assms(1)
proof (cases rule: run_cases)
  case (refused err)
  then show ?thesis by (simp add: exitStatus_def initially_def)
next
  case (started cfg)
  have "\<not> ended (initially Opening w)" by (simp add: ended_def initially_def)
  from runEvents_returned [OF started(2) this] started(1) assms(2) show ?thesis
    by (cases r) (auto simp: exitStatus_def)
qed

lemma exit_status_correct_witness:
  "\<exists>p. run demo_pool [] demo_start demo_externals failure_events (calm empty_database) = Some p \<and>
     MainError \<in> set failure_events \<and> exitStatus p = Some 0"
proof -
  obtain p where p: "run demo_pool [] demo_start demo_externals failure_events (calm empty_database) = Some p"
    "ps_phase p = Returned None" by (rule demo_failure)
  obtain cfg where cfg: "Load demo_start = Inr cfg" by (rule demo_Load)
  have "MainError \<in> set failure_events" "GiveUp \<notin> set failure_events" by (simp_all add: failure_events_def)
  with exit_status_correct [OF p] p(1) cfg show ?thesis by simp
qed

end
