(* ===== verification/SystemResults.thy ===== *)
theory SystemResults
  imports Connector
begin

text \<open>
  What an edge device may rely on, from the bytes of its request through the multiplexer, the middleware,
  the token check, the handler and the statements to the tables, and for as long as the connector runs
  afterwards.
\<close>

section \<open>From a request to its handler\<close>

text \<open>The middleware runs the handler on a world with the same tables, subscribers and database.\<close>

lemma wrap_runs:
  assumes "wrap h route rq w = ((rid, reply), w')"
  obtains w2 w3 where "h rq w2 = (reply, w3)" "w_db w2 = w_db w" "w_pg w2 = w_pg w" "w_hub w2 = w_hub w"
    "w_db w' = w_db w3" "w_hub w' = w_hub w3"
proof -
  obtain rid' w1 where i: "incomingID rq w = (rid', w1)" by fastforce
  then have w1: "w_db w1 = w_db w" "w_pg w1 = w_pg w" "w_hub w1 = w_hub w"
    by (auto simp: incomingID_def uuidNew_def Let_def split: if_splits)
  obtain start w2 where t: "timeNow w1 = (start, w2)" by fastforce
  then have w2: "w_db w2 = w_db w1" "w_pg w2 = w_pg w1" "w_hub w2 = w_hub w1" by (auto simp: timeNow_def)
  obtain r w3 where h: "h rq w2 = (r, w3)" by fastforce
  obtain stop w4 where t': "timeNow w3 = (stop, w4)" by fastforce
  then have w4: "w_db w4 = w_db w3" "w_hub w4 = w_hub w3" by (auto simp: timeNow_def)
  show thesis
    by (rule that [of w2 w3]) (use w1 w2 w4 assms in \<open>auto simp: wrap_def Middleware_def i t h t'\<close>)
qed

lemma serve_edge:
  assumes "(pattern, g, route) \<in> set (wrappedRoutes cfg (ex_client ex))" "parsePattern pattern = (verb, segs)"
    "in_method rq = verb" "matchSegs segs (pathSegments (in_path rq)) = Some vs" "canonicalPath (in_path rq)"
  shows "serve cfg ex rq w = wrap g route (withPathValues vs rq) w"
proof -
  have "(pattern, wrap g route) \<in> set (routes cfg ex)" using assms(1) by (force simp: routes_def)
  from http_mux.takes [OF this assms(2) _ assms(4,5), of "in_method rq"] assms(3) show ?thesis
    by (simp add: serve_def verbMatches_def)
qed

lemma edge_paths [simp]:
  "pathSegments ''/v1/edge/commands'' = [''v1'', ''edge'', ''commands'']" "canonicalPath ''/v1/edge/commands''"
  "pathSegments ''/v1/edge/events'' = [''v1'', ''edge'', ''events'']" "canonicalPath ''/v1/edge/events''"
  by (simp_all add: pathSegments_def canonicalPath_def pathUnescape_def byte_def)

text \<open>A request that is not answered 401 had the token, and its handler ran.\<close>

lemma auth_runs: "auth a g rq w = (reply, w') \<Longrightarrow> rp_status reply \<noteq> 401 \<Longrightarrow> g rq w = (reply, w')"
  by (auto simp: auth_def split: if_splits)

lemma withPathValues_simps [simp]:
  "in_query (withPathValues vs rq) = in_query rq" "decode a u (withPathValues vs rq) = decode a u rq"
  by (simp_all add: withPathValues_def decode_def readBounded_def readLimited_def)

lemma serve_polls:
  assumes "in_method rq = ''GET''" "in_path rq = ''/v1/edge/commands''"
  shows "serve cfg ex rq w =
    wrap (auth (edgeAPI cfg (ex_client ex)) (getCommands (edgeAPI cfg (ex_client ex)))) ''edge_commands_poll''
      (withPathValues [] rq) w"
  by (rule serve_edge [where pattern = "''GET /v1/edge/commands''" and verb = "''GET''" and
      segs = "[Lit ''v1'', Lit ''edge'', Lit ''commands'']"])
    (use assms in \<open>simp_all add: wrappedRoutes_def ingestRoutes_def\<close>)

lemma serve_events:
  assumes "in_method rq = ''POST''" "in_path rq = ''/v1/edge/events''"
  shows "serve cfg ex rq w =
    wrap (auth (edgeAPI cfg (ex_client ex)) (postEvent (edgeAPI cfg (ex_client ex)))) ''edge_events''
      (withPathValues [] rq) w"
  by (rule serve_edge [where pattern = "''POST /v1/edge/events''" and verb = "''POST''" and
      segs = "[Lit ''v1'', Lit ''edge'', Lit ''events'']"])
    (use assms in \<open>simp_all add: wrappedRoutes_def ingestRoutes_def\<close>)

section \<open>Commands\<close>

lemma poll_served:
  assumes "db_inv (w_db w)" "in_method rq = ''GET''" "in_path rq = ''/v1/edge/commands''"
    "serve cfg ex rq w = ((rid, reply), w')" "rp_status reply = 200"
  shows "\<exists>cs. rp_body reply = JsonDoc (JObj [(''commands'', JArr (map commandWire cs))]) \<and>
    (\<forall>c\<in>set cs. (\<exists>row\<in>set (t_devices (w_db w)). device_key row = (ProviderGuardianEdge, in_query rq ''deviceId'') \<and>
        pg_uuid (w_pg w) (dv_id row) = Some (c_DeviceID c)) \<and>
      lifecycle (w_db w) (c_ID c) = Some CommandPending \<and> lifecycle (w_db w') (c_ID c) = Some CommandDelivered)"
proof -
  let ?a = "edgeAPI cfg (ex_client ex)"
  let ?g = "auth ?a (getCommands ?a)" and ?rq = "withPathValues [] rq"
  have served: "serve cfg ex rq w = wrap ?g ''edge_commands_poll'' ?rq w"
    by (rule serve_polls [OF assms(2,3)])
  obtain w2 w3 where r: "?g ?rq w2 = (reply, w3)" "w_db w2 = w_db w" "w_pg w2 = w_pg w" "w_db w' = w_db w3"
    by (rule wrap_runs [OF assms(4) [unfolded served]]) blast
  then have "getCommands ?a ?rq w2 = (reply, w3)" using auth_runs assms(5) by simp
  note get = getCommands_correct [OF _ assms(5) this [unfolded edgeAPI_def commandSvc_def]]
  have "db_inv (w_db w2)" using assms(1) r(2) by simp
  from get [OF this] show ?thesis
    unfolding r(2-4) list_all_iff withPathValues_simps by blast
qed

text \<open>A device is handed each of its commands once. Every command in a list that a poll over HTTP
  answers was pending and belongs to the device registered under the identifier of the request; and
  however long the connector runs and whatever else enters it, no later poll, of any device, is handed one
  of these commands again.\<close>

theorem edge_commands_handed_once:
  assumes "db_inv (w_db w)"
    "in_method rq = ''GET''" "in_path rq = ''/v1/edge/commands''" "serve cfg ex rq w = ((rid, reply), w1)" "rp_status reply = 200"
    "runs cfg ex w1 w2"
    "in_method rq' = ''GET''" "in_path rq' = ''/v1/edge/commands''" "serve cfg ex rq' w2 = ((rid', reply'), w3)" "rp_status reply' = 200"
  shows "\<exists>cs cs'. rp_body reply = JsonDoc (JObj [(''commands'', JArr (map commandWire cs))]) \<and>
    rp_body reply' = JsonDoc (JObj [(''commands'', JArr (map commandWire cs'))]) \<and>
    (\<forall>c\<in>set cs. lifecycle (w_db w) (c_ID c) = Some CommandPending \<and>
       (\<exists>row\<in>set (t_devices (w_db w)). device_key row = (ProviderGuardianEdge, in_query rq ''deviceId'') \<and>
          pg_uuid (w_pg w) (dv_id row) = Some (c_DeviceID c))) \<and>
    c_ID ` set cs \<inter> c_ID ` set cs' = {}"
proof -
  have "db_steps (w_db w) (w_db w1)" using serve_safe [of w cfg ex rq] assms(4) by (simp add: safe_def)
  then have inv1: "db_inv (w_db w1)" using assms(1) db_steps_inv by blast
  have steps: "db_steps (w_db w1) (w_db w2)" using runs_safe [OF assms(6)] by (simp add: safe_def)
  then have inv2: "db_inv (w_db w2)" using inv1 db_steps_inv by blast
  obtain cs where cs: "rp_body reply = JsonDoc (JObj [(''commands'', JArr (map commandWire cs))])"
    "\<forall>c\<in>set cs. (\<exists>row\<in>set (t_devices (w_db w)). device_key row = (ProviderGuardianEdge, in_query rq ''deviceId'') \<and>
        pg_uuid (w_pg w) (dv_id row) = Some (c_DeviceID c)) \<and>
      lifecycle (w_db w) (c_ID c) = Some CommandPending \<and> lifecycle (w_db w1) (c_ID c) = Some CommandDelivered"
    using poll_served [OF assms(1-5)] by blast
  obtain cs' where cs': "rp_body reply' = JsonDoc (JObj [(''commands'', JArr (map commandWire cs'))])"
    "\<forall>c\<in>set cs'. lifecycle (w_db w2) (c_ID c) = Some CommandPending"
    using poll_served [OF inv2 assms(7-10)] by blast
  have "c_ID c \<noteq> c_ID c'" if "c \<in> set cs" "c' \<in> set cs'" for c c'
  proof
    assume same: "c_ID c = c_ID c'"
    have "lifecycle (w_db w1) (c_ID c) = Some CommandDelivered" using cs(2) that(1) by blast
    from db_steps_moves [OF steps inv1 this] obtain s where
      s: "lifecycle (w_db w2) (c_ID c) = Some s" "CanTransition\<^sup>*\<^sup>* CommandDelivered s" by blast
    have "lifecycle (w_db w2) (c_ID c) = Some CommandPending" using cs'(2) that(2) same by simp
    with s show False using CanTransition_star_rank [OF s(2)] by (simp add: state_rank_def)
  qed
  then have "c_ID ` set cs \<inter> c_ID ` set cs' = {}" by blast
  moreover have "\<forall>c\<in>set cs. lifecycle (w_db w) (c_ID c) = Some CommandPending \<and>
       (\<exists>row\<in>set (t_devices (w_db w)). device_key row = (ProviderGuardianEdge, in_query rq ''deviceId'') \<and>
          pg_uuid (w_pg w) (dv_id row) = Some (c_DeviceID c))" using cs(2) by blast
  ultimately show ?thesis using cs(1) cs'(1) by blast
qed

lemma demo_get_simps [simp]:
  "in_method (demo_get ext) = ''GET''" "in_path (demo_get ext) = ''/v1/edge/commands''"
  "in_query (demo_get ext) ''deviceId'' = ext" "in_header (demo_get ext) h = []"
  by (simp_all add: demo_get_def)

lemma edge_commands_handed_once_witness:
  "let w = calm (demo_db [demo_command ''c1'' CommandPending]);
       first = serve demo_config demo_externals (demo_get ''x1'') w;
       second = serve demo_config demo_externals (demo_get ''x1'') (snd first)
   in \<exists>cs cs'. rp_body (snd (fst first)) = JsonDoc (JObj [(''commands'', JArr (map commandWire cs))]) \<and>
     rp_body (snd (fst second)) = JsonDoc (JObj [(''commands'', JArr (map commandWire cs'))]) \<and>
     c_ID ` set cs \<inter> c_ID ` set cs' = {}"
proof -
  let ?w = "calm (demo_db [demo_command ''c1'' CommandPending])"
  let ?first = "serve demo_config demo_externals (demo_get ''x1'') ?w"
  let ?second = "serve demo_config demo_externals (demo_get ''x1'') (snd ?first)"
  obtain rid reply w1 rid' reply' w2 where
    s: "?first = ((rid, reply), w1)" "?second = ((rid', reply'), w2)" by (metis prod.collapse)
  have "rp_status (snd (fst ?first)) = 200" "rp_status (snd (fst ?second)) = 200"
    by (simp_all add: serve_polls wrap_def Middleware_def incomingID_def auth_def edgeAPI_def newIngest_def demo_config_def
        getCommands_def withPathValues_def FindDeviceByExternalID_def findDevice_sql_def scanRow_def select_one_def
        scan_device_row_def device_key_def Poll_def poll_run_defs demo_defs storage_ingest_store_def commandSvc_def
        service_def storage_command_store_def repeatInc_def metricInc_def)
  with s have "rp_status reply = 200" "rp_status reply' = 200" by simp_all
  with edge_commands_handed_once [OF _ _ _ s(1) _ rtranclp.rtrancl_refl _ _ s(2) [unfolded s(1) snd_conv]]
  show ?thesis using s by (auto simp: Let_def)
qed

section \<open>Events\<close>

text \<open>An event that the connector has accepted is never lost. When a report over HTTP is answered 202, the
  event is stored under the device's own identifier for it, the answer says truly whether it was known
  before, subscribers were told of it exactly if it was new, and however long the connector runs and
  whatever else enters it, the event stays in the database.\<close>

theorem edge_event_never_lost:
  assumes "in_method rq = ''POST''" "in_path rq = ''/v1/edge/events''" "serve cfg ex rq w = ((rid, reply), w1)"
    "rp_status reply = 202" "runs cfg ex w1 w2"
  shows "\<exists>req. decode (edgeAPI cfg (ex_client ex)) unmarshalEvent rq = Inr req \<and>
    (let key = (ProviderGuardianEdge, eq_EventID req); known = (key \<in> hazard_keys (w_db w))
     in rp_body reply = JsonDoc (JObj [(''duplicate'', JBool known), (''status'', JStr ''accepted'')]) \<and>
       (if known then w_hub w1 = w_hub w else \<exists>e. hazard_key e = key \<and> w_hub w1 = hubPublish e (w_hub w)) \<and>
       key \<in> hazard_keys (w_db w2))"
proof -
  let ?a = "edgeAPI cfg (ex_client ex)"
  let ?g = "auth ?a (postEvent ?a)" and ?rq = "withPathValues [] rq"
  have served: "serve cfg ex rq w = wrap ?g ''edge_events'' ?rq w"
    by (rule serve_events [OF assms(1,2)])
  obtain v v' where r: "?g ?rq v = (reply, v')" "w_db v = w_db w" "w_hub v = w_hub w" "w_db w1 = w_db v'" "w_hub w1 = w_hub v'"
    by (rule wrap_runs [OF assms(3) [unfolded served]]) blast
  then have run: "postEvent ?a ?rq v = (reply, v')" using auth_runs assms(4) by simp
  have "\<exists>req. decode ?a unmarshalEvent rq = Inr req"
  proof (cases "decode ?a unmarshalEvent rq")
    case (Inl rep)
    then have "rp_status rep \<noteq> 202"
      by (auto simp: decode_def badRequest_def split: bounded_body.splits option.splits)
    then show ?thesis using run assms(4) Inl by (simp add: postEvent_def)
  qed simp
  then obtain req where req: "decode ?a unmarshalEvent rq = Inr req" by blast
  let ?key = "(ProviderGuardianEdge, eq_EventID req)"
  have "db_steps (w_db w1) (w_db w2)" using runs_safe [OF assms(5)] by (simp add: safe_def)
  then have keep: "hazard_keys (w_db w1) \<subseteq> hazard_keys (w_db w2)" by (rule hazards.steps_keep)
  note post = postEvent_correct [where cs = "commandSvc cfg (ex_client ex)" and token = "cf_EdgeAPIToken cfg" and
      maxBytes = "cf_MaxBodyBytes cfg" and r = ?rq and w = v, folded edgeAPI_def, unfolded run prod.case withPathValues_simps req sum.case Let_def r(2-5) [symmetric]]
  show ?thesis
    by (rule exI [of _ req]) (use post assms(4) keep req r(2-5) in \<open>auto simp: Let_def\<close>)
qed

definition demo_report :: http_in where
  \<open>demo_report = \<lparr>in_method = ''POST'', in_path = ''/v1/edge/events'', in_header = (\<lambda>_. []), in_query = (\<lambda>_. []),
     in_pathValue = (\<lambda>_. []),
     in_body = ''{"deviceId":"x1","eventId":"k","type":"FIRE","confirmedAtMs":1}'', in_broken = False\<rparr>\<close>

definition demo_reported :: eventRequest where
  "demo_reported = \<lparr>eq_DeviceID = ''x1'', eq_EventID = ''k'', eq_Type = HazardFire, eq_Confidence = 0,
     eq_FirstSeenMs = 0, eq_ConfirmedAtMs = 1, eq_AppVersion = []\<rparr>"

lemma demo_report_simps [simp]: "in_method demo_report = ''POST''" "in_path demo_report = ''/v1/edge/events''"
  by (simp_all add: demo_report_def)

lemma demo_report_decodes:
  "decode (edgeAPI demo_config client) unmarshalEvent demo_report = Inr demo_reported"
proof -
  have "unmarshalEvent (in_body demo_report) = Some demo_reported"
    by (simp add: demo_report_def demo_reported_def unmarshalEvent_def json_run decode_run HazardFire_def)
  moreover have "readBounded 1000 demo_report = BodyOk (in_body demo_report)"
    by (simp add: readBounded_ok maxDuration_def demo_report_def)
  ultimately show ?thesis by (simp add: decode_def edgeAPI_def newIngest_def demo_config_def)
qed

lemma demo_reported_valid: "valid_event (eventOf demo_reported ''d1'' now)"
  by (simp add: valid_event_def eventOf_def demo_reported_def zeroHazardEvent_def ValidProvider_def
      ValidHazardType_def msToTime_def time_UnixMilli_not_zero)

lemma demo_report_fields:
  "eq_DeviceID demo_reported = ''x1''" "in_header (withPathValues [] demo_report) h = []"
  "hazard_key ((eventOf demo_reported dev now)\<lparr>e_ID := uid\<rparr>) = (ProviderGuardianEdge, ''k'')"
  "e_DeviceID (eventOf demo_reported dev now) = dev" "e_Confidence (eventOf demo_reported dev now) = 0"
  "e_ID (eventOf demo_reported dev now) = []"
  by (simp_all add: demo_reported_def demo_report_def withPathValues_def eventOf_def hazard_key_def zeroHazardEvent_def)

lemmas demo_sql = UpsertDevice_def upsertDevice_sql_def edgeDevice_def device_key_def device_ids_def
  InsertHazardEvent_def withEventID_def insertHazard_sql_def

lemma demo_report_accepted:
  "rp_status (snd (fst (serve demo_config demo_externals demo_report (calm (demo_db []))))) = 202"
proof -
  let ?a = "edgeAPI demo_config (ex_client demo_externals)"
  have valid: "Validate (eventOf demo_reported ''d1'' now) = None" for now
    by (simp add: Validate_None_iff demo_reported_valid)
  have api: "ia_store ?a = storage_ingest_store" "ia_events ?a = storage_event_store" "ia_token ?a = []"
    by (simp_all add: edgeAPI_def newIngest_def demo_config_def)
  show ?thesis
    by (simp add: serve_events wrap_def Middleware_def incomingID_def auth_def api postEvent_def demo_report_decodes
        demo_report_fields storage_ingest_store_def storage_event_store_def Accept_def valid demo_sql demo_defs run_defs
        metricInc_def)
qed

lemma edge_event_never_lost_witness:
  "let w = snd (serve demo_config demo_externals demo_report (calm (demo_db [])));
       w' = enter demo_config demo_externals ReaperTick w
   in (ProviderGuardianEdge, ''k'') \<in> hazard_keys (w_db w')"
proof -
  let ?w = "calm (demo_db [])"
  obtain rid reply w1 where s: "serve demo_config demo_externals demo_report ?w = ((rid, reply), w1)"
    by (metis prod.collapse)
  then have ok: "rp_status reply = 202" using demo_report_accepted by simp
  have "runs demo_config demo_externals w1 (enter demo_config demo_externals ReaperTick w1)"
    by (rule r_into_rtranclp) (rule system_step.entry)
  from edge_event_never_lost [OF _ _ s ok this] show ?thesis
    by (auto simp: s Let_def demo_report_decodes demo_reported_def)
qed

end
