(* ===== verification/Threads.thy ===== *)
theory Threads
  imports Prelude
begin

text \<open>
  Goroutines that share a state, and their interleavings. A program is the tree of its atomic steps;
  one mutex can be taken and given back. A pool holds the goroutines that were started, who holds the
  mutex, and the state. The theory gives the rules by which a property of every single program becomes one
  of every interleaving.
\<close>

section \<open>Programs\<close>

text \<open>
  A program has ended with a result, or does an atomic step on the shared state that also decides how
  it goes on, or waits for the mutex, or gives it back.
\<close>

datatype ('s, 'r) thread =
    Done 'r
  | Step "'s \<Rightarrow> ('s, 'r) thread \<times> 's"
  | Lock "('s, 'r) thread"
  | Unlock "('s, 'r) thread"

lemma thread_induct [case_names Done Step Lock Unlock]:
  assumes "\<And>r. P (Done r)" "\<And>f. (\<And>s. P (fst (f s))) \<Longrightarrow> P (Step f)" "\<And>t. P t \<Longrightarrow> P (Lock t)" "\<And>t. P t \<Longrightarrow> P (Unlock t)"
  shows "P t"
proof (induction t)
  case (Step f)
  have "P (fst (f s))" for s by (rule Step [of "f s"]) (auto simp: fsts.simps)
  then show ?case by (rule assms(2))
qed (rule assms, assumption?)+

primrec andThen :: "('s, 'a) thread \<Rightarrow> ('a \<Rightarrow> ('s, 'b) thread) \<Rightarrow> ('s, 'b) thread" where
  "andThen (Done a) k = k a"
| "andThen (Step f) k = Step (map_prod (\<lambda>t. andThen t k) id \<circ> f)"
| "andThen (Lock t) k = Lock (andThen t k)"
| "andThen (Unlock t) k = Unlock (andThen t k)"

lemma andThen_Done [simp]: "andThen m Done = m"
  by (induction m rule: thread_induct) (auto simp: fun_eq_iff map_prod_def split_beta)

lemma andThen_assoc: "andThen (andThen m k) j = andThen m (\<lambda>a. andThen (k a) j)"
  by (induction m rule: thread_induct) (auto simp: fun_eq_iff map_prod_def split_beta)

text \<open>One atomic step: an operation with a result, or a mere change of the state.\<close>

definition act :: "('s \<Rightarrow> 'a \<times> 's) \<Rightarrow> ('s, 'a) thread" where
  "act op = Step (\<lambda>s. case op s of (a, s') \<Rightarrow> (Done a, s'))"

definition change :: "('s \<Rightarrow> 's) \<Rightarrow> ('s, unit) thread" where
  "change g = act (\<lambda>s. ((), g s))"

definition doing :: "('s \<Rightarrow> 's) \<Rightarrow> ('s, 'a) thread \<Rightarrow> ('s, 'a) thread" where
  "doing g t = andThen (change g) (\<lambda>_. t)"

text \<open>The body of a critical section, with the \<^verbatim>\<open>Unlock\<close> deferred to every way it ends.\<close>

definition locked :: "('s, 'a) thread \<Rightarrow> ('s, 'a) thread" where
  "locked body = Lock (andThen body (\<lambda>a. Unlock (Done a)))"

text \<open>A list of values handled one after the other.\<close>

fun forEach :: "('a \<Rightarrow> ('s, 'b) thread) \<Rightarrow> 'a list \<Rightarrow> ('s, unit) thread" where
  "forEach f [] = Done ()"
| "forEach f (x # xs) = andThen (f x) (\<lambda>_. forEach f xs)"

text \<open>What a program does when nothing else runs.\<close>

primrec exec :: "('s, 'r) thread \<Rightarrow> 's \<Rightarrow> 'r \<times> 's" where
  "exec (Done r) = Pair r"
| "exec (Step f) = (\<lambda>s. case (map_prod exec id \<circ> f) s of (g, s') \<Rightarrow> g s')"
| "exec (Lock t) = exec t"
| "exec (Unlock t) = exec t"

lemma exec_Step [simp]: "exec (Step f) s = (case f s of (t, s') \<Rightarrow> exec t s')"
  by (simp split: prod.split)

declare exec.simps(2) [simp del]

lemma exec_andThen [simp]: "exec (andThen m k) s = (case exec m s of (a, s') \<Rightarrow> exec (k a) s')"
proof (induction m arbitrary: s rule: thread_induct)
  case (Step f)
  then show ?case by (simp add: split_beta)
qed simp_all

lemma exec_act [simp]: "exec (act op) s = op s" "exec (change g) s = ((), g s)"
  by (simp_all add: act_def change_def split: prod.split)

lemma exec_doing [simp]: "exec (doing g t) s = exec t (g s)"
  by (simp add: doing_def)

lemma exec_locked [simp]: "exec (locked body) s = exec body s"
  by (simp add: locked_def split: prod.split)

lemma exec_forEach: "exec (forEach f xs) s = ((), fold (\<lambda>x s. snd (exec (f x) s)) xs s)"
  by (induction xs arbitrary: s) (simp_all split: prod.split)

section \<open>Interleavings\<close>

type_synonym ('e, 's, 'r) pool = "('e \<times> ('s, 'r) thread) list \<times> nat option \<times> 's"

text \<open>The moves of one goroutine. The mutex must be free to be taken.\<close>

inductive turn :: "nat \<Rightarrow> ('e, 's, 'r) pool \<Rightarrow> ('e, 's, 'r) pool \<Rightarrow> bool" for i where
  step: "i < length ts \<Longrightarrow> ts ! i = (e, Step f) \<Longrightarrow> f s = (t, s') \<Longrightarrow>
    turn i (ts, owner, s) (ts[i := (e, t)], owner, s')"
| lock: "i < length ts \<Longrightarrow> ts ! i = (e, Lock t) \<Longrightarrow> turn i (ts, None, s) (ts[i := (e, t)], Some i, s)"
| unlock: "i < length ts \<Longrightarrow> ts ! i = (e, Unlock t) \<Longrightarrow> turn i (ts, Some j, s) (ts[i := (e, t)], None, s)"

inductive_cases turn_cases: "turn i (ts, owner, s) (ts', owner', s')"

lemma turnE [consumes 1, case_names step lock unlock]:
  assumes "turn i (ts, owner, s) (ts', owner', s')"
  obtains e f t where "i < length ts" "ts ! i = (e, Step f)" "f s = (t, s')" "ts' = ts[i := (e, t)]" "owner' = owner"
  | e t where "i < length ts" "ts ! i = (e, Lock t)" "owner = None" "ts' = ts[i := (e, t)]" "owner' = Some i" "s' = s"
  | e t where "i < length ts" "ts ! i = (e, Unlock t)" "owner \<noteq> None" "ts' = ts[i := (e, t)]" "owner' = None" "s' = s"
  using assms by (rule turn_cases) blast+

text \<open>
  Executions: goroutines are started, move in any order, and the environment acts in between. The
  trace lists the moves with the state before and after each.
\<close>

type_synonym 's trace = "(nat \<times> 's \<times> 's) list"

inductive interleaving ::
  "('e \<Rightarrow> ('s, 'r) thread) \<Rightarrow> ('s \<Rightarrow> 's \<Rightarrow> bool) \<Rightarrow> ('e, 's, 'r) pool \<Rightarrow> 's trace \<Rightarrow> ('e, 's, 'r) pool \<Rightarrow> bool"
  for prog env c where
  start: "interleaving prog env c [] c"
| spawn: "interleaving prog env c tr (ts, owner, s) \<Longrightarrow> interleaving prog env c tr (ts @ [(e, prog e)], owner, s)"
| turn: "interleaving prog env c tr (ts, owner, s) \<Longrightarrow> turn i (ts, owner, s) (ts', owner', s') \<Longrightarrow>
    interleaving prog env c (tr @ [(i, s, s')]) (ts', owner', s')"
| outside: "interleaving prog env c tr (ts, owner, s) \<Longrightarrow> env s s' \<Longrightarrow> interleaving prog env c tr (ts, owner, s')"

section \<open>What every step guarantees\<close>

text \<open>
  Where the invariant \<open>I\<close> holds, every step of the program keeps it and is a change that \<open>G\<close> allows.
  The program may rely on \<open>I\<close> at each of its steps, not on anything else it saw before.
\<close>

primrec guards :: "('s \<Rightarrow> bool) \<Rightarrow> ('s \<Rightarrow> 's \<Rightarrow> bool) \<Rightarrow> ('s, 'r) thread \<Rightarrow> bool" where
  "guards I G (Done r) = True"
| "guards I G (Step f) = (\<forall>s. I s \<longrightarrow> fst ((map_prod (guards I G) id \<circ> f) s) \<and> I (snd (f s)) \<and> G s (snd (f s)))"
| "guards I G (Lock t) = guards I G t"
| "guards I G (Unlock t) = guards I G t"

text \<open>Every result of the program, whatever the others do.\<close>

primrec always :: "('s \<Rightarrow> bool) \<Rightarrow> ('r \<Rightarrow> bool) \<Rightarrow> ('s, 'r) thread \<Rightarrow> bool" where
  "always I Q (Done r) = Q r"
| "always I Q (Step f) = (\<forall>s. I s \<longrightarrow> fst ((map_prod (always I Q) id \<circ> f) s))"
| "always I Q (Lock t) = always I Q t"
| "always I Q (Unlock t) = always I Q t"

text \<open>
  \<open>wp I G Q t h s\<close>: suppose the program goes on as \<open>t\<close> after its own moves \<open>h\<close> (with the state before
  and after each) left the state \<open>s\<close>, and the others change the state as \<open>G\<close> allows and keep \<open>I\<close>. Then
  whenever it ends, \<open>Q\<close> holds of its result, of all its moves and of the state it leaves.
\<close>

primrec wp ::
  "('s \<Rightarrow> bool) \<Rightarrow> ('s \<Rightarrow> 's \<Rightarrow> bool) \<Rightarrow> ('r \<Rightarrow> ('s \<times> 's) list \<Rightarrow> 's \<Rightarrow> bool) \<Rightarrow> ('s, 'r) thread \<Rightarrow>
   ('s \<times> 's) list \<Rightarrow> 's \<Rightarrow> bool" where
  "wp I G Q (Done r) = Q r"
| "wp I G Q (Step f) = (\<lambda>h s. \<forall>s'. I s' \<and> G s s' \<longrightarrow>
     fst ((map_prod (wp I G Q) id \<circ> f) s') (h @ [(s', snd (f s'))]) (snd (f s')))"
| "wp I G Q (Lock t) = (\<lambda>h s. \<forall>s'. I s' \<and> G s s' \<longrightarrow> wp I G Q t (h @ [(s', s')]) s')"
| "wp I G Q (Unlock t) = (\<lambda>h s. \<forall>s'. I s' \<and> G s s' \<longrightarrow> wp I G Q t (h @ [(s', s')]) s')"

named_theorems program_rules \<open>what follows the structure of a program\<close>

lemma guards_rules [program_rules]:
  "guards I G (Done r)"
  "(\<And>s. I s \<Longrightarrow> I (snd (op s)) \<and> G s (snd (op s))) \<Longrightarrow> guards I G (act op)"
  "(\<And>s. I s \<Longrightarrow> I (g s) \<and> G s (g s)) \<Longrightarrow> guards I G (change g)"
  by (auto simp: act_def change_def split_beta)

lemma guards_andThen_always:
  "guards I G m \<Longrightarrow> always I Q m \<Longrightarrow> (\<And>a. Q a \<Longrightarrow> guards I G (k a)) \<Longrightarrow> guards I G (andThen m k)"
proof (induction m rule: thread_induct)
  case (Step f)
  then show ?case by auto
qed simp_all

lemma always_True [simp]: "always I (\<lambda>_. True) m"
proof (induction m rule: thread_induct)
  case (Step f)
  then show ?case by auto
qed simp_all

lemma guards_andThen [program_rules]:
  "guards I G m \<Longrightarrow> (\<And>a. guards I G (k a)) \<Longrightarrow> guards I G (andThen m k)"
  by (rule guards_andThen_always [of I G m "\<lambda>_. True"]) simp_all

lemma guards_doing [program_rules]:
  "(\<And>s. I s \<Longrightarrow> I (g s) \<and> G s (g s)) \<Longrightarrow> guards I G t \<Longrightarrow> guards I G (doing g t)"
  unfolding doing_def by (intro guards_andThen guards_rules)

lemma guards_locked [program_rules]: "guards I G body \<Longrightarrow> guards I G (locked body)"
  by (simp add: locked_def guards_andThen)

text \<open>Branches; every rule keeps what the branch knows.\<close>

lemma guards_branch [program_rules]:
  "(b \<Longrightarrow> guards I G t) \<Longrightarrow> (\<not> b \<Longrightarrow> guards I G t') \<Longrightarrow> guards I G (if b then t else t')"
  "(\<And>a. s = Inl a \<Longrightarrow> guards I G (f a)) \<Longrightarrow> (\<And>c. s = Inr c \<Longrightarrow> guards I G (g c)) \<Longrightarrow>
     guards I G (case s of Inl a \<Rightarrow> f a | Inr c \<Rightarrow> g c)"
  "(x = None \<Longrightarrow> guards I G t) \<Longrightarrow> (\<And>a. x = Some a \<Longrightarrow> guards I G (h a)) \<Longrightarrow>
     guards I G (case x of None \<Rightarrow> t | Some a \<Rightarrow> h a)"
  "(\<And>a c. p = (a, c) \<Longrightarrow> guards I G (k a c)) \<Longrightarrow> guards I G (case p of (a, c) \<Rightarrow> k a c)"
  by (auto split: sum.split option.split prod.split)

lemma always_branch:
  "(b \<Longrightarrow> always I Q t) \<Longrightarrow> (\<not> b \<Longrightarrow> always I Q t') \<Longrightarrow> always I Q (if b then t else t')"
  "(\<And>a. s = Inl a \<Longrightarrow> always I Q (f a)) \<Longrightarrow> (\<And>c. s = Inr c \<Longrightarrow> always I Q (g c)) \<Longrightarrow>
     always I Q (case s of Inl a \<Rightarrow> f a | Inr c \<Rightarrow> g c)"
  "(x = None \<Longrightarrow> always I Q t) \<Longrightarrow> (\<And>a. x = Some a \<Longrightarrow> always I Q (h a)) \<Longrightarrow>
     always I Q (case x of None \<Rightarrow> t | Some a \<Rightarrow> h a)"
  "(\<And>a c. p = (a, c) \<Longrightarrow> always I Q (k a c)) \<Longrightarrow> always I Q (case p of (a, c) \<Rightarrow> k a c)"
  by (auto split: sum.split option.split prod.split)

lemma guards_forEach: "(\<And>x. x \<in> set xs \<Longrightarrow> guards I G (f x)) \<Longrightarrow> guards I G (forEach f xs)"
  by (induction xs) (auto intro: guards_andThen)

lemma always_andThen:
  "always I Q m \<Longrightarrow> (\<And>a. Q a \<Longrightarrow> always I P (k a)) \<Longrightarrow> always I P (andThen m k)"
proof (induction m rule: thread_induct)
  case (Step f)
  then show ?case by auto
qed simp_all

lemma always_act: "(\<And>s. I s \<Longrightarrow> Q (fst (op s))) \<Longrightarrow> always I Q (act op)"
  by (auto simp: act_def split: prod.split) (metis fst_conv)

lemma always_locked: "always I Q body \<Longrightarrow> always I Q (locked body)"
  by (auto simp: locked_def intro: always_andThen)

lemma always_after: "(\<And>a. always I P (k a)) \<Longrightarrow> always I P (andThen m k)"
  by (rule always_andThen [of I "\<lambda>_. True"]) simp_all

lemma always_doing [simp]: "always I P t \<Longrightarrow> always I P (doing g t)"
  unfolding doing_def by (rule always_after)

lemma always_mono: "always I Q m \<Longrightarrow> (\<And>r. Q r \<Longrightarrow> Q' r) \<Longrightarrow> always I Q' m"
proof (induction m rule: thread_induct)
  case (Step f)
  then show ?case by auto
qed simp_all

lemma wp_StepD:
  "wp I G Q (Step f) h s \<Longrightarrow> I s' \<Longrightarrow> G s s' \<Longrightarrow> wp I G Q (fst (f s')) (h @ [(s', snd (f s'))]) (snd (f s'))"
  by simp

lemma wp_mono:
  assumes "wp I G Q t h s" "\<And>r h s. Q r h s \<Longrightarrow> Q' r h s"
  shows "wp I G Q' t h s"
  using assms(1)
proof (induction t arbitrary: h s rule: thread_induct)
  case (Step f)
  have "wp I G Q' (fst (f s')) (h @ [(s', snd (f s'))]) (snd (f s'))" if "I s'" "G s s'" for s'
    by (rule Step.IH [OF wp_StepD [OF Step.prems that]])
  then show ?case by simp
qed (simp_all add: assms(2))

lemma wp_conj: "wp I G Q t h s \<Longrightarrow> wp I G Q' t h s \<Longrightarrow> wp I G (\<lambda>r h s. Q r h s \<and> Q' r h s) t h s"
  by (induction t arbitrary: h s rule: thread_induct) auto

lemma wp_andThen: "wp I G (\<lambda>a. wp I G Q (k a)) m h s \<Longrightarrow> wp I G Q (andThen m k) h s"
proof (induction m arbitrary: h s rule: thread_induct)
  case (Step f)
  have "wp I G Q (andThen (fst (f s')) k) (h @ [(s', snd (f s'))]) (snd (f s'))" if "I s'" "G s s'" for s'
    by (rule Step.IH [OF wp_StepD [OF Step.prems that]])
  then show ?case by simp
qed simp_all

lemma wp_act:
  "(\<And>s'. I s' \<Longrightarrow> G s s' \<Longrightarrow> wp I G Q (k (fst (op s'))) (h @ [(s', snd (op s'))]) (snd (op s'))) \<Longrightarrow>
   wp I G Q (andThen (act op) k) h s"
  by (simp add: act_def split_beta)

lemma wp_act_last:
  "(\<And>s'. I s' \<Longrightarrow> G s s' \<Longrightarrow> Q (fst (op s')) (h @ [(s', snd (op s'))]) (snd (op s'))) \<Longrightarrow> wp I G Q (act op) h s"
  by (simp add: act_def split_beta)

lemma wp_doing:
  "(\<And>s'. I s' \<Longrightarrow> G s s' \<Longrightarrow> wp I G Q t (h @ [(s', g s')]) (g s')) \<Longrightarrow> wp I G Q (doing g t) h s"
  unfolding doing_def change_def by (rule wp_act) simp

lemma wp_True: "(\<And>r h s. Q r h s) \<Longrightarrow> wp I G Q t h s"
  by (induction t arbitrary: h s rule: thread_induct) auto

lemma wp_branch:
  "(b \<Longrightarrow> wp I G Q t h s) \<Longrightarrow> (\<not> b \<Longrightarrow> wp I G Q t' h s) \<Longrightarrow> wp I G Q (if b then t else t') h s"
  "(\<And>a. x = Inl a \<Longrightarrow> wp I G Q (f a) h s) \<Longrightarrow> (\<And>c. x = Inr c \<Longrightarrow> wp I G Q (g c) h s) \<Longrightarrow>
     wp I G Q (case x of Inl a \<Rightarrow> f a | Inr c \<Rightarrow> g c) h s"
  "(y = None \<Longrightarrow> wp I G Q t h s) \<Longrightarrow> (\<And>a. y = Some a \<Longrightarrow> wp I G Q (j a) h s) \<Longrightarrow>
     wp I G Q (case y of None \<Rightarrow> t | Some a \<Rightarrow> j a) h s"
  "(\<And>a c. p = (a, c) \<Longrightarrow> wp I G Q (k a c) h s) \<Longrightarrow> wp I G Q (case p of (a, c) \<Rightarrow> k a c) h s"
  by (auto split: sum.split option.split prod.split)

text \<open>A part of the program of which only its guarantee matters.\<close>

lemma wp_guards:
  assumes "\<And>s. G s s" "\<And>s s' s''. G s s' \<Longrightarrow> G s' s'' \<Longrightarrow> G s s''"
  shows "guards I G m \<Longrightarrow> always I P m \<Longrightarrow> I s \<Longrightarrow> G s0 s \<Longrightarrow>
    wp I G (\<lambda>a h' s'. P a \<and> I s' \<and> G s0 s' \<and> (\<exists>x. h' = h0 @ x)) m (h0 @ h) s"
proof (induction m arbitrary: h s rule: thread_induct)
  case (Step f)
  have "wp I G (\<lambda>a h' s'. P a \<and> I s' \<and> G s0 s' \<and> (\<exists>x. h' = h0 @ x)) (fst (f s')) ((h0 @ h) @ [(s', snd (f s'))]) (snd (f s'))"
    if s': "I s'" "G s s'" for s'
  proof -
    from Step.prems(1) s'(1) have g: "guards I G (fst (f s'))" "I (snd (f s'))" "G s' (snd (f s'))" by simp_all
    have "always I P (fst (f s'))" using Step.prems(2) s'(1) by simp
    moreover have "G s0 (snd (f s'))" using assms(2) Step.prems(4) s'(2) g(3) by blast
    ultimately show ?thesis using Step.IH [of s' "snd (f s')" "h @ [(s', snd (f s'))]"] g by simp
  qed
  then show ?case by simp
next
  case (Lock t)
  have "wp I G (\<lambda>a h' s'. P a \<and> I s' \<and> G s0 s' \<and> (\<exists>x. h' = h0 @ x)) t ((h0 @ h) @ [(s', s')]) s'" if "I s'" "G s s'" for s'
    using Lock.IH [of s' "h @ [(s', s')]"] Lock.prems that assms(2) [of s0 s s'] by simp
  then show ?case by simp
next
  case (Unlock t)
  have "wp I G (\<lambda>a h' s'. P a \<and> I s' \<and> G s0 s' \<and> (\<exists>x. h' = h0 @ x)) t ((h0 @ h) @ [(s', s')]) s'" if "I s'" "G s s'" for s'
    using Unlock.IH [of s' "h @ [(s', s')]"] Unlock.prems that assms(2) [of s0 s s'] by simp
  then show ?case by simp
qed auto

section \<open>Balanced use of the mutex\<close>

text \<open>\<open>balanced t held\<close>: every path takes the mutex only when it is not held, and has given it back at its end.\<close>

primrec balanced :: "('s, 'r) thread \<Rightarrow> bool \<Rightarrow> bool" where
  "balanced (Done r) = (\<lambda>held. \<not> held)"
| "balanced (Step f) = (\<lambda>held. \<forall>s. fst ((map_prod balanced id \<circ> f) s) held)"
| "balanced (Lock t) = (\<lambda>held. \<not> held \<and> balanced t True)"
| "balanced (Unlock t) = (\<lambda>held. held \<and> balanced t False)"

primrec lockFree :: "('s, 'r) thread \<Rightarrow> bool" where
  "lockFree (Done r) = True"
| "lockFree (Step f) = (\<forall>s. fst ((map_prod lockFree id \<circ> f) s))"
| "lockFree (Lock t) = False"
| "lockFree (Unlock t) = False"

lemma balanced_andThen [program_rules]: "balanced m False \<Longrightarrow> (\<And>a. balanced (k a) False) \<Longrightarrow> balanced (andThen m k) False"
proof -
  assume k: "\<And>a. balanced (k a) False"
  have "balanced m held \<Longrightarrow> balanced (andThen m k) held" for held
    using k by (induction m arbitrary: held rule: thread_induct) auto
  then show "balanced m False \<Longrightarrow> balanced (andThen m k) False" .
qed

lemma lockFree_andThen [program_rules]: "lockFree m \<Longrightarrow> (\<And>a. lockFree (k a)) \<Longrightarrow> lockFree (andThen m k)"
  by (induction m rule: thread_induct) auto

lemma lockFree_rules [program_rules]:
  "lockFree (Done r)" "lockFree (act op)" "lockFree (change g)"
  by (auto simp: act_def change_def split_beta)

lemma lockFree_doing [program_rules]: "lockFree t \<Longrightarrow> lockFree (doing g t)"
  unfolding doing_def by (intro lockFree_andThen lockFree_rules)

lemma lockFree_forEach [program_rules]: "(\<And>x. lockFree (f x)) \<Longrightarrow> lockFree (forEach f xs)"
  by (induction xs) (auto intro: lockFree_andThen)

lemma balanced_lockFree: "lockFree m \<Longrightarrow> balanced m False"
  by (induction m rule: thread_induct) auto

lemma balanced_locked [program_rules]: "lockFree body \<Longrightarrow> balanced (locked body) False"
proof -
  have "lockFree m \<Longrightarrow> balanced (andThen m (\<lambda>a. Unlock (Done a))) True" for m :: "('a, 'b) thread"
    by (induction m rule: thread_induct) auto
  then show "lockFree body \<Longrightarrow> balanced (locked body) False" by (simp add: locked_def)
qed

lemma balanced_rules [program_rules]:
  "balanced (Done r) False" "balanced (act op) False" "balanced (change g) False"
  by (simp_all add: balanced_lockFree lockFree_rules)

lemma balanced_doing [program_rules]: "balanced t False \<Longrightarrow> balanced (doing g t) False"
  unfolding doing_def by (intro balanced_andThen balanced_rules)

lemma balanced_forEach [program_rules]: "(\<And>x. balanced (f x) False) \<Longrightarrow> balanced (forEach f xs) False"
  by (induction xs) (auto intro: balanced_andThen)

lemma balanced_once: "balanced t True \<Longrightarrow> \<not> balanced t False"
  by (induction t rule: thread_induct) auto

lemma lockFree_branch [program_rules]:
  "lockFree t \<Longrightarrow> lockFree t' \<Longrightarrow> lockFree (if b then t else t')"
  "(\<And>a. lockFree (f a)) \<Longrightarrow> (\<And>c. lockFree (g c)) \<Longrightarrow> lockFree (case s of Inl a \<Rightarrow> f a | Inr c \<Rightarrow> g c)"
  "lockFree t \<Longrightarrow> (\<And>a. lockFree (h a)) \<Longrightarrow> lockFree (case x of None \<Rightarrow> t | Some a \<Rightarrow> h a)"
  "(\<And>a c. lockFree (k a c)) \<Longrightarrow> lockFree (case p of (a, c) \<Rightarrow> k a c)"
  by (auto split: sum.split option.split prod.split)

lemma balanced_branch [program_rules]:
  "balanced t False \<Longrightarrow> balanced t' False \<Longrightarrow> balanced (if b then t else t') False"
  "(\<And>a. balanced (f a) False) \<Longrightarrow> (\<And>c. balanced (g c) False) \<Longrightarrow> balanced (case s of Inl a \<Rightarrow> f a | Inr c \<Rightarrow> g c) False"
  "balanced t False \<Longrightarrow> (\<And>a. balanced (h a) False) \<Longrightarrow> balanced (case x of None \<Rightarrow> t | Some a \<Rightarrow> h a) False"
  "(\<And>a c. balanced (k a c) False) \<Longrightarrow> balanced (case p of (a, c) \<Rightarrow> k a c) False"
  by (auto split: sum.split option.split prod.split)

end
