(* ===== verification/Interleave.thy ===== *)
theory Interleave
  imports Threads
begin

text \<open>
  From programs to pools: what every program guarantees holds of every interleaving, the results of a
  goroutine are explained by one of its moves in the trace, the mutex never gets stuck, and a goroutine
  that runs alone does what its program does.
\<close>

section \<open>Guarantees\<close>

text \<open>\<open>chain I G s tr s'\<close>: from \<open>s\<close> through the moves of the trace to \<open>s'\<close> only changes that \<open>G\<close> allows.\<close>

fun chain :: "('s \<Rightarrow> bool) \<Rightarrow> ('s \<Rightarrow> 's \<Rightarrow> bool) \<Rightarrow> 's \<Rightarrow> 's trace \<Rightarrow> 's \<Rightarrow> bool" where
  "chain I G s [] s' = G s s'"
| "chain I G s ((i, a, b) # tr) s' = (G s a \<and> I a \<and> G a b \<and> chain I G b tr s')"

definition own :: "nat \<Rightarrow> 's trace \<Rightarrow> ('s \<times> 's) list" where
  "own i tr = map snd (filter (\<lambda>(j, _). j = i) tr)"

text \<open>The moves of one goroutine in a trace; every one of them stands in it.\<close>

lemma own_nth: "(a, b) \<in> set (own i tr) \<Longrightarrow> \<exists>k<length tr. tr ! k = (i, a, b)"
  by (auto simp: own_def in_set_conv_nth)

lemma trace_threads:
  "interleaving prog env ([], owner0, s0) tr (ts, owner, s) \<Longrightarrow> \<forall>(j, a, b)\<in>set tr. j < length ts"
proof (induction tr "(ts, owner, s)" arbitrary: ts owner s rule: interleaving.induct)
  case (turn tr ts owner s i ts' owner' s')
  from turn.hyps(3) have "i < length ts" "length ts' = length ts" by (auto elim: turnE)
  then show ?case using turn.hyps(2) by auto
qed auto

lemma nth_all: "\<forall>x\<in>set xs. P x \<Longrightarrow> i < length xs \<Longrightarrow> P (xs ! i)"
  by simp

lemma update_all: "\<forall>x\<in>set xs. P x \<Longrightarrow> P y \<Longrightarrow> \<forall>x\<in>set (xs[i := y]). P x"
  using set_update_subset_insert [of xs i y] by blast

lemma guards_StepD: "guards I G (Step f) \<Longrightarrow> I s \<Longrightarrow> guards I G (fst (f s)) \<and> I (snd (f s)) \<and> G s (snd (f s))"
  by simp

locale concurrent =
  fixes prog :: "'e \<Rightarrow> ('s, 'r) thread"
    and env :: "'s \<Rightarrow> 's \<Rightarrow> bool"
    and I :: "'s \<Rightarrow> bool"
    and G :: "'s \<Rightarrow> 's \<Rightarrow> bool"
  assumes G_refl: "G s s"
    and G_trans: "G s s' \<Longrightarrow> G s' s'' \<Longrightarrow> G s s''"
    and env_guards: "I s \<Longrightarrow> env s s' \<Longrightarrow> I s' \<and> G s s'"
    and prog_guards: "guards I G (prog e)"
begin

lemma chain_snoc: "chain I G s tr a \<Longrightarrow> I a \<Longrightarrow> G a b \<Longrightarrow> chain I G s (tr @ [(i, a, b)]) b"
  by (induction tr arbitrary: s) (auto simp: G_refl)

lemma chain_extend: "chain I G s tr a \<Longrightarrow> G a b \<Longrightarrow> chain I G s tr b"
  by (induction tr arbitrary: s) (auto intro: G_trans)

lemma chain_all: "chain I G s tr s' \<Longrightarrow> G s s'"
proof (induction tr arbitrary: s)
  case (Cons x tr)
  obtain i a b where x: "x = (i, a, b)" by (rule prod_cases3)
  with Cons have "G s a" "G a b" "G b s'" by auto
  then show ?case using G_trans by blast
qed simp

lemma chain_nth:
  "chain I G s tr s' \<Longrightarrow> k < length tr \<Longrightarrow> tr ! k = (i, a, b) \<Longrightarrow> G s a \<and> I a \<and> G a b \<and> G b s'"
proof (induction tr arbitrary: s k)
  case (Cons x tr)
  obtain j c d where x: "x = (j, c, d)" by (rule prod_cases3)
  with Cons.prems have first: "G s c" "I c" "G c d" "chain I G d tr s'" by auto
  show ?case
  proof (cases k)
    case 0
    with Cons.prems x first chain_all show ?thesis by auto
  next
    case (Suc l)
    with Cons first have "G d a \<and> I a \<and> G a b \<and> G b s'" by simp
    then show ?thesis using first G_trans by blast
  qed
qed simp

lemma chain_before:
  "chain I G s tr s' \<Longrightarrow> k < l \<Longrightarrow> l < length tr \<Longrightarrow> tr ! k = (i, a, b) \<Longrightarrow> tr ! l = (j, c, d) \<Longrightarrow> G b c"
proof (induction tr arbitrary: s k l)
  case (Cons x tr)
  obtain m p q where x: "x = (m, p, q)" by (rule prod_cases3)
  with Cons.prems have rest: "chain I G q tr s'" by auto
  obtain l' where l: "l = Suc l'" "l' < length tr" "tr ! l' = (j, c, d)" using Cons.prems by (cases l) auto
  show ?case
  proof (cases k)
    case 0
    then have "b = q" using Cons.prems(4) x by simp
    then show ?thesis using chain_nth [OF rest l(2,3)] by simp
  next
    case (Suc k')
    with Cons.prems l have "k' < l'" "tr ! k' = (i, a, b)" by simp_all
    from Cons.IH [OF rest this(1) l(2) this(2) l(3)] show ?thesis .
  qed
qed simp

lemma turn_guards:
  assumes "turn i (ts, owner, s) (ts', owner', s')" "I s" "\<forall>x\<in>set ts. guards I G (snd x)"
  shows "I s' \<and> G s s' \<and> (\<forall>x\<in>set ts'. guards I G (snd x))"
  using assms(1)
proof (cases rule: turnE)
  case (step e f t)
  with nth_all [OF assms(3), of i] have "guards I G (Step f)" by simp
  from guards_StepD [OF this assms(2)] step(3) have "guards I G t \<and> I s' \<and> G s s'" by simp
  then show ?thesis using step update_all [OF assms(3), of "(e, t)" i] by simp
next
  case (lock e t)
  with nth_all [OF assms(3), of i] have "guards I G t" by simp
  then show ?thesis using lock assms(2) update_all [OF assms(3), of "(e, t)" i] by (simp add: G_refl)
next
  case (unlock e t)
  with nth_all [OF assms(3), of i] have "guards I G t" by simp
  then show ?thesis using unlock assms(2) update_all [OF assms(3), of "(e, t)" i] by (simp add: G_refl)
qed

text \<open>Parallel composition: from a pool whose goroutines all keep the guarantee.\<close>

lemma interleaving_guards:
  assumes "interleaving prog env (ts0, owner0, s0) tr (ts, owner, s)" "I s0" "\<forall>x\<in>set ts0. guards I G (snd x)"
  shows "I s \<and> chain I G s0 tr s \<and> (\<forall>x\<in>set ts. guards I G (snd x))"
  using assms(1)
proof (induction tr "(ts, owner, s)" arbitrary: ts owner s rule: interleaving.induct)
  case start
  then show ?case using assms(2,3) by (simp add: G_refl)
next
  case (spawn tr ts owner s e)
  then show ?case by (simp add: prog_guards)
next
  case (turn tr ts owner s i ts' owner' s')
  from turn_guards [OF turn.hyps(3)] turn.hyps(2)
  show ?case by (auto intro: chain_snoc)
next
  case (outside tr ts owner s s')
  then show ?case using env_guards [of s s'] chain_extend by blast
qed

text \<open>Reasoning about one goroutine among all others.\<close>

lemma wp_skip:
  assumes "guards I G m" "always I P m" "I s"
    "\<And>a s' x. P a \<Longrightarrow> I s' \<Longrightarrow> G s s' \<Longrightarrow> wp I G Q (k a) (h @ x) s'"
  shows "wp I G Q (andThen m k) h s"
proof (rule wp_andThen, rule wp_mono)
  show "wp I G (\<lambda>a h' s'. P a \<and> I s' \<and> G s s' \<and> (\<exists>x. h' = h @ x)) m h s"
    using wp_guards [where G = G and h = "[]", OF G_refl G_trans assms(1,2,3) G_refl] by simp
qed (use assms(4) in blast)

lemma turn_wp:
  assumes "turn i (ts, owner, s) (ts', owner', s')" "ts ! i = (e, u)" "I s" "G s1 s" "wp I G P u h s1"
  obtains t where "ts' ! i = (e, t)" "wp I G P t (h @ [(s, s')]) s'"
  using assms(1)
proof (cases rule: turnE)
  case (step e2 f t)
  with assms(2,5) have "wp I G P (Step f) h s1" "e2 = e" by simp_all
  from wp_StepD [where I = I and G = G and f = f, OF this(1) assms(3,4)] step(3)
  have "wp I G P t (h @ [(s, s')]) s'" by simp
  with step \<open>e2 = e\<close> show thesis by (intro that [of t]) simp_all
next
  case (lock e2 t)
  with assms(2-5) show thesis by (intro that [of t]) auto
next
  case (unlock e2 t)
  with assms(2-5) show thesis by (intro that [of t]) auto
qed

lemma interleaving_wp:
  assumes "interleaving prog env ([], owner0, s0) tr (ts, owner, s)" "I s0"
    "\<And>e s. I s \<Longrightarrow> wp I G (Q e) (prog e) [] s" "i < length ts" "ts ! i = (e, t)"
  shows "\<exists>s1. G s1 s \<and> wp I G (Q e) t (own i tr) s1"
  using assms(1,4,5)
proof (induction tr "(ts, owner, s)" arbitrary: ts owner s e t rule: interleaving.induct)
  case start
  then show ?case by simp
next
  case (spawn tr ts owner s e')
  note g = interleaving_guards [OF spawn.hyps(1) assms(2)]
  show ?case
  proof (cases "i < length ts")
    case True
    with spawn.prems spawn.hyps(2) [of e t] show ?thesis by (simp add: nth_append)
  next
    case False
    then have i: "i = length ts" "e = e'" "t = prog e'" using spawn.prems by (auto simp: less_Suc_eq)
    have "own i tr = []" using trace_threads [OF spawn.hyps(1)] i(1) by (auto simp: own_def filter_empty_conv)
    then show ?thesis using g assms(3) [of s e'] G_refl i by auto
  qed
next
  case (turn tr ts owner s j ts' owner' s')
  have inv: "I s" "\<forall>x\<in>set ts. guards I G (snd x)" using interleaving_guards [OF turn.hyps(1) assms(2)] by simp_all
  have step: "G s s'" using turn_guards [OF turn.hyps(3) inv] by simp
  have len: "length ts' = length ts" "\<And>l. l \<noteq> j \<Longrightarrow> ts' ! l = ts ! l" using turn.hyps(3) by (auto elim: turnE)
  have i: "i < length ts" using turn.prems len by simp
  show ?case
  proof (cases "j = i")
    case False
    then have "ts ! i = (e, t)" using turn.prems len by simp
    from turn.hyps(2) [OF i this] obtain s1 where "G s1 s" "wp I G (Q e) t (own i tr) s1" by blast
    moreover have "own i (tr @ [(j, s, s')]) = own i tr" using False by (simp add: own_def)
    ultimately show ?thesis using G_trans step by metis
  next
    case True
    have own: "own i (tr @ [(j, s, s')]) = own i tr @ [(s, s')]" using True by (simp add: own_def)
    obtain e' u where u: "ts ! i = (e', u)" by fastforce
    from turn.hyps(2) [OF i u] obtain s1 where s1: "G s1 s" "wp I G (Q e') u (own i tr) s1" by blast
    from turn_wp [OF turn.hyps(3) [unfolded True] u inv(1) s1] turn.prems(2)
    have "e' = e" "wp I G (Q e') t (own i tr @ [(s, s')]) s'" by auto
    then show ?thesis unfolding own using G_refl by blast
  qed
next
  case (outside tr ts owner s s')
  then obtain s1 where "G s1 s" "wp I G (Q e) t (own i tr) s1" by blast
  moreover have "G s s'"
    using env_guards [OF _ outside.hyps(3)] interleaving_guards [OF outside.hyps(1) assms(2)] by simp
  ultimately show ?case using G_trans by blast
qed

lemma result_wp:
  assumes "interleaving prog env ([], owner0, s0) tr (ts, owner, s)" "I s0"
    "\<And>e s. I s \<Longrightarrow> wp I G (Q e) (prog e) [] s" "i < length ts" "ts ! i = (e, Done r)"
  shows "\<exists>s1. G s1 s \<and> Q e r (own i tr) s1"
  using interleaving_wp [OF assms] by simp

end

section \<open>The mutex\<close>

text \<open>
  With balanced programs the holder of the mutex is the one goroutine inside its critical section, and
  as long as some goroutine has not ended, one of them can move.
\<close>

lemma pool_balanced:
  assumes "interleaving prog env ([], None, s0) tr (ts, owner, s)" "\<And>e. balanced (prog e) False"
  shows "(\<forall>i<length ts. balanced (snd (ts ! i)) (owner = Some i)) \<and> (\<forall>i. owner = Some i \<longrightarrow> i < length ts)"
  using assms(1)
proof (induction tr "(ts, owner, s)" arbitrary: ts owner s rule: interleaving.induct)
  case start
  then show ?case by simp
next
  case (spawn tr ts owner s e)
  then have "owner \<noteq> Some (length ts)" by auto
  with spawn assms(2) [of e] show ?case by (auto simp: nth_append less_Suc_eq)
next
  case (turn tr ts owner s i ts' owner' s')
  from turn.hyps(3) show ?case
  proof (cases rule: turnE)
    case (step e f t)
    with turn.hyps(2) have "balanced (Step f) (owner = Some i)" by fastforce
    then have "balanced (fst (f s)) (owner = Some i)" by simp
    with step turn.hyps(2) show ?thesis by (auto simp: nth_list_update)
  next
    case (lock e t)
    with turn.hyps(2) have "balanced (Lock t) False" by fastforce
    with lock turn.hyps(2) show ?thesis by (auto simp: nth_list_update)
  next
    case (unlock e t)
    with turn.hyps(2) have b: "balanced (Unlock t) (owner = Some i)" by fastforce
    with unlock turn.hyps(2) show ?thesis by (auto simp: nth_list_update)
  qed
qed auto

definition returned :: "('s, 'r) thread \<Rightarrow> bool" where
  "returned t \<longleftrightarrow> (\<exists>r. t = Done r)"

lemma pool_moves:
  assumes "interleaving prog env ([], None, s0) tr (ts, owner, s)" "\<And>e. balanced (prog e) False"
    "i < length ts" "\<not> returned (snd (ts ! i))"
  shows "\<exists>j c. turn j (ts, owner, s) c"
proof -
  note inv = pool_balanced [OF assms(1,2)]
  obtain j where j: "j < length ts" "\<not> returned (snd (ts ! j))" "owner = None \<or> owner = Some j"
  proof (cases owner)
    case (Some k)
    with inv have "k < length ts" "balanced (snd (ts ! k)) True" by auto
    then show thesis using that [of k] Some by (cases "snd (ts ! k)") (auto simp: returned_def)
  qed (use assms(3,4) that in blast)
  obtain e t where t: "ts ! j = (e, t)" by fastforce
  with j inv have b: "balanced t (owner = Some j)" by fastforce
  show ?thesis
  proof (cases t)
    case (Step f)
    obtain t' s' where "f s = (t', s')" by fastforce
    with turn.step [OF j(1)] t Step show ?thesis by blast
  next
    case (Lock t')
    with b j(3) have "owner = None" by auto
    with turn.lock [OF j(1)] t Lock show ?thesis by blast
  next
    case (Unlock t')
    with b have "owner = Some j" by simp
    with turn.unlock [OF j(1)] t Unlock show ?thesis by blast
  qed (use j(2) t in \<open>auto simp: returned_def\<close>)
qed

text \<open>
  Every program is a well-founded tree, so a pool that starts nothing new makes finitely many moves,
  however the state changes between them.
\<close>

definition subprograms :: "(('s, 'r) thread \<times> ('s, 'r) thread) set" where
  "subprograms = {(t', t). (\<exists>f s. t = Step f \<and> t' = fst (f s)) \<or> t = Lock t' \<or> t = Unlock t'}"

lemma wf_subprograms: "wf subprograms"
proof (rule wfUNIVI)
  fix P :: "('s, 'r) thread \<Rightarrow> bool" and t
  assume "\<forall>t. (\<forall>t'. (t', t) \<in> subprograms \<longrightarrow> P t') \<longrightarrow> P t"
  then have down: "(\<And>t'. (t', t) \<in> subprograms \<Longrightarrow> P t') \<Longrightarrow> P t" for t by blast
  show "P t"
    by (induction t rule: thread_induct; rule down) (auto simp: subprograms_def)
qed

lemma turn_subprograms:
  assumes "turn i (ts, owner, s) (ts', owner', s')"
  shows "(map snd ts', map snd ts) \<in> listrel1 subprograms"
proof -
  have sub: "(map snd (ts[i := (e, t)]), map snd ts) \<in> listrel1 subprograms"
    if "i < length ts" "(t, snd (ts ! i)) \<in> subprograms" for e t
  proof -
    have "map snd ts = (map snd (ts[i := (e, t)]))[i := snd (ts ! i)]"
      using that(1) by (simp add: map_update flip: nth_map)
    with that show ?thesis
      by (auto simp: listrel1_iff_update map_update intro!: exI [of _ "snd (ts ! i)"] exI [of _ i])
  qed
  from assms show ?thesis
  proof (cases rule: turnE)
    case (step e f t)
    then have "t = fst (f s)" by simp
    with step sub show ?thesis by (auto simp: subprograms_def)
  next
    case (lock e t)
    with sub show ?thesis by (simp add: subprograms_def)
  next
    case (unlock e t)
    with sub show ?thesis by (simp add: subprograms_def)
  qed
qed

lemma turns_end: "\<not> (\<forall>n. \<exists>i owner s owner' s'. turn i (f n, owner, s) (f (Suc n), owner', s'))"
proof
  assume "\<forall>n. \<exists>i owner s owner' s'. turn i (f n, owner, s) (f (Suc n), owner', s')"
  then have down: "(map snd (f (Suc n)), map snd (f n)) \<in> listrel1 subprograms" for n
    using turn_subprograms by metis
  show False
    by (rule wf_no_infinite_down_chainE [OF wf_listrel1_iff [THEN iffD2, OF wf_subprograms], where f = "\<lambda>n. map snd (f n)"])
      (simp add: down)
qed

section \<open>One goroutine alone\<close>

lemma run_alone:
  assumes "interleaving prog env c tr (ts, owner, s)" "i < length ts" "ts ! i = (e, t)"
    "balanced t (owner = Some i)" "owner \<in> {None, Some i}" "exec t s = (r, s')"
  shows "\<exists>tr'. interleaving prog env c tr' (ts[i := (e, Done r)], None, s')"
  using assms
proof (induction t arbitrary: tr ts owner s rule: thread_induct)
  case (Done r')
  then have "owner = None" "ts[i := (e, Done r)] = ts" "s = s'" by (auto simp: list_update_same_conv)
  then show ?case using Done.prems(1) by auto
next
  case (Step f)
  obtain t s1 where f: "f s = (t, s1)" by fastforce
  have run: "interleaving prog env c (tr @ [(i, s, s1)]) (ts[i := (e, t)], owner, s1)"
    by (rule interleaving.turn [OF Step.prems(1) turn.step [where f = f]]) (use Step.prems(2,3) f in simp_all)
  have "balanced (fst (f s)) (owner = Some i)" using Step.prems(4) by simp
  with Step.IH [of "tr @ [(i, s, s1)]" "ts[i := (e, t)]" owner s1 s] run Step.prems f show ?case by simp
next
  case (Lock t)
  then have owner: "owner = None" by auto
  then have "interleaving prog env c (tr @ [(i, s, s)]) (ts[i := (e, t)], Some i, s)"
    using interleaving.turn [OF Lock.prems(1) [unfolded owner] turn.lock] Lock.prems by blast
  from Lock.IH [OF this] Lock.prems show ?case by auto
next
  case (Unlock t)
  then have owner: "owner = Some i" by auto
  then have "interleaving prog env c (tr @ [(i, s, s)]) (ts[i := (e, t)], None, s)"
    using interleaving.turn [OF Unlock.prems(1) [unfolded owner] turn.unlock] Unlock.prems by blast
  from Unlock.IH [OF this] Unlock.prems show ?case by auto
qed

end
