(* ===== verification/Goroutines.thy ===== *)
theory Goroutines
  imports Interleave Connector
begin

text \<open>
  The connector as programs of goroutines: every operation of more than one statement again, now as the
  sequence of its atomic steps. A step is one SQL statement (with the identifier drawn for it), one
  exchange with a provider, one reading of a clock, one use of the subscriber hub (under its mutex), one
  increment of a counter, or a look at the cached token. The mutex of the programs is that of the token
  manager, which is held across its requests. For each program there is the lemma that, run alone, it does
  what the operation does.
\<close>

type_synonym 'a program = "(world, 'a) thread"

section \<open>Storage operations of two statements\<close>

definition go_CreateCommand :: "Command \<Rightarrow> create_outcome program" where
  "go_CreateCommand c =
     andThen (act (withCommandID c)) (\<lambda>c1.
       let c2 = c1\<lparr>c_State := CommandPending\<rparr>
       in andThen (act (\<lambda>w. exec_sql (insertCommand_sql (w_pg w) c2 (create_payload c2)) w)) (\<lambda>r.
            act (afterInsertCommand c2 r)))"

definition go_TransitionCommand :: "string \<Rightarrow> CommandState \<Rightarrow> message \<Rightarrow> Command res program" where
  "go_TransitionCommand uid to msg =
     (case transition_sources to of
        None \<Rightarrow> Done (Inl (Sentinel ErrInvalidTransition))
      | Some from \<Rightarrow>
          andThen (act (\<lambda>w. exec_sql (transition_sql (w_pg w) uid to msg from) w)) (\<lambda>r.
            case r of
              Inl e \<Rightarrow> Done (Inl e)
            | Inr n \<Rightarrow>
                if n = 0 then
                  andThen (act (GetCommand uid)) (\<lambda>got.
                    case got of
                      Inl e \<Rightarrow> Done (Inl (Sentinel (if errIs e ErrNotFound then ErrNotFound else ErrInvalidTransition)))
                    | Inr _ \<Rightarrow> Done (Inl (Sentinel ErrInvalidTransition)))
                else act (GetCommand uid)))"

section \<open>The event pipeline\<close>

definition go_Accept :: "HazardEvent \<Rightarrow> bool res program" where
  "go_Accept e =
     doing (metricInc (EventsReceived (e_Source e)))
       (case Validate e of
          Some err \<Rightarrow> doing (metricInc (EventsFailed (e_Source e) ''validation'')) (Done (Inl (ErrRejected err)))
        | None \<Rightarrow>
            andThen (act (InsertHazardEvent e)) (\<lambda>r.
              case r of
                Inl err \<Rightarrow>
                  if errIs err ErrDuplicate then doing (metricInc (EventsDuplicate (e_Source e))) (Done (Inr True))
                  else doing (metricInc (EventsFailed (e_Source e) ''storage'')) (Done (Inl err))
              | Inr stored \<Rightarrow>
                  doing (metricInc (EventsProcessed (e_Source e))) (doing (publish stored) (Done (Inr False)))))"

definition go_AcceptFromProvider :: "NormalizedEvent \<Rightarrow> bool res program" where
  "go_AcceptFromProvider ne =
     andThen (act (UpsertDevice (zeroDevice\<lparr>d_ExternalID := ne_ExternalDeviceID ne,
         d_Provider := e_Source (ne_Event ne), d_Status := DeviceUnknown,
         d_LastSeenAt := e_ConfirmedAt (ne_Event ne)\<rparr>))) (\<lambda>r.
       case r of
         Inl err \<Rightarrow>
           doing (metricInc (EventsFailed (e_Source (ne_Event ne)) ''device_resolution''))
             (Done (Inl (Wrapf ''resolving device %q: %w'' [AStr (ne_ExternalDeviceID ne)] err)))
       | Inr deviceID \<Rightarrow> go_Accept ((ne_Event ne)\<lparr>e_DeviceID := deviceID\<rparr>))"

definition go_DeadLetter :: "ProviderName \<Rightarrow> message \<Rightarrow> string \<Rightarrow> unit program" where
  "go_DeadLetter source reason payload =
     doing (metricInc (EventsFailed source ''dead_letter''))
       (andThen (act (InsertDeadLetter source reason payload)) (\<lambda>_. Done ()))"

section \<open>Retries and tokens\<close>

type_synonym 's go_operation = "'s \<Rightarrow> (error option \<times> 's) program"

fun go_loop :: "Policy \<Rightarrow> int \<Rightarrow> 's go_operation \<Rightarrow> nat \<Rightarrow> nat \<Rightarrow> 's \<Rightarrow> (outcome \<times> 's) program" where
  "go_loop p tot op attempt left s =
     andThen (act ctxErr) (\<lambda>c.
       case c of
         Some c \<Rightarrow> Done (Returned (Some (Sentinel c)), s)
       | None \<Rightarrow>
           andThen (op s) (\<lambda>(r, s2).
             case r of
               None \<Rightarrow> Done (Returned None, s2)
             | Some err \<Rightarrow>
                 if final_error err then Done (Returned (Some err), s2)
                 else case left of
                        0 \<Rightarrow> Done (Returned (Some (Wrapf ''giving up after %d attempts: %w'' [AInt tot] err)), s2)
                      | Suc left' \<Rightarrow>
                          andThen (act (backoff p attempt)) (\<lambda>d.
                            case d of
                              None \<Rightarrow> Done (Panicked, s2)
                            | Some d \<Rightarrow>
                                andThen (act ctxErr) (\<lambda>c.
                                  case c of
                                    Some c \<Rightarrow> Done (Returned (Some (Sentinel c)), s2)
                                  | None \<Rightarrow> go_loop p tot op (Suc attempt) left' s2))))"

declare go_loop.simps [simp del]

definition go_Do :: "Policy \<Rightarrow> 's go_operation \<Rightarrow> 's \<Rightarrow> (outcome \<times> 's) program" where
  "go_Do p op s =
     (let attempts = max 1 (pl_Attempts p)
      in go_loop p attempts op 0 (nat attempts - 1) s)"

definition go_grantOp :: "oauth_config \<Rightarrow> form \<Rightarrow> Token go_operation" where
  "go_grantOp cfg f tok =
     (if hc_badURL (oc_client cfg) (oc_TokenURL cfg)
      then Done (Some (Permanent (Errorf ''net/http: bad request'' [])), tok)
      else andThen (act (http_do (grantRequest cfg f))) (\<lambda>answer.
        case answer of
          Inl d \<Rightarrow> Done (Some (Wrapf ''token endpoint: %w'' [] (Driver d)), tok)
        | Inr resp \<Rightarrow>
            (let (tr, ok) = decodeTokenResponse (take 65536 (rs_body resp)); code = rs_status resp
             in if code = 200 then
                  if \<not> ok then
                    Done (Some (Permanent (Wrapf ''malformed token response: %w'' [] jsonError)), tok)
                  else if tr_AccessToken tr = [] \<or> tr_ExpiresIn tr \<le> 0 then
                    Done (Some (Permanent (Errorf ''token response missing access_token/expires_in'' [])), tok)
                  else
                    andThen (act timeNow) (\<lambda>now.
                      Done (None, \<lparr>tk_AccessToken = tr_AccessToken tr, tk_RefreshToken = tr_RefreshToken tr,
                        tk_Expiry = tokenExpiry now (tr_ExpiresIn tr)\<rparr>))
                else if 400 \<le> code \<and> code < 500 then
                  Done (Some (Permanent (Errorf ''token endpoint %d (%s)'' [AInt code, AStr (tr_Error tr)])), tok)
                else Done (Some (Errorf ''token endpoint %d'' [AInt code]), tok))))"

definition go_grant :: "oauth_config \<Rightarrow> form \<Rightarrow> Token res program" where
  "go_grant cfg f =
     (let f' = formSet ''client_secret'' (oc_ClientSecret cfg) (formSet ''client_id'' (oc_ClientID cfg) f)
      in andThen (go_Do grantPolicy (go_grantOp cfg f') zeroToken) (\<lambda>(out, tok).
           case out of
             Returned None \<Rightarrow> Done (Inr tok)
           | Returned (Some e) \<Rightarrow> Done (Inl e)
           | Panicked \<Rightarrow> Done (Inl panicError)))"

definition go_obtainFresh :: "oauth_config \<Rightarrow> Token res program" where
  "go_obtainFresh cfg =
     andThen (go_grant cfg credentialsForm) (\<lambda>r.
       case r of Inl e \<Rightarrow> Done (Inl (Wrapf ''obtaining token: %w'' [] e)) | Inr tok \<Rightarrow> Done (Inr tok))"

definition go_obtainLocked :: "oauth_config \<Rightarrow> string \<Rightarrow> Token res program" where
  "go_obtainLocked cfg refresh =
     (if refresh \<noteq> [] then
        andThen (go_grant cfg (refreshForm refresh)) (\<lambda>r.
          case r of
            Inr tok \<Rightarrow> Done (Inr tok)
          | Inl e \<Rightarrow>
              if \<not> IsPermanent e then Done (Inl (Wrapf ''refreshing token: %w'' [] e)) else go_obtainFresh cfg)
      else go_obtainFresh cfg)"

definition lookAtToken :: "world \<Rightarrow> (Token \<times> Time) \<times> world" where
  "lookAtToken w = (let (now, w1) = timeNow w in ((w_token w1, now), w1))"

definition go_AccessToken :: "oauth_config \<Rightarrow> string res program" where
  "go_AccessToken cfg =
     locked (andThen (act lookAtToken) (\<lambda>(cached, now).
       if token_Valid cached now then Done (Inr (tk_AccessToken cached))
       else andThen (go_obtainLocked cfg (tk_RefreshToken cached)) (\<lambda>r.
              case r of
                Inl e \<Rightarrow> Done (Inl e)
              | Inr tok \<Rightarrow> doing (\<lambda>w. w\<lparr>w_token := tok\<rparr>) (Done (Inr (tk_AccessToken tok))))))"

definition go_Invalidate :: "unit program" where
  "go_Invalidate = locked (change Invalidate)"

section \<open>The AlphaSense adapter\<close>

definition go_alphaAnswer ::
  "string \<Rightarrow> string \<Rightarrow> (string \<Rightarrow> 'a option) \<Rightarrow> http_response \<Rightarrow> (bool \<times> 'a) go_operation" where
  "go_alphaAnswer verb path dec resp = (\<lambda>(refreshed, out).
     let code = rs_status resp
     in if 200 \<le> code \<and> code < 300 then
          (case dec (take 1048576 (rs_body resp)) of
             None \<Rightarrow> Done (Some (Permanent (Wrapf ''alphasense malformed response: %w'' [] jsonError)), (refreshed, out))
           | Some v \<Rightarrow> Done (None, (refreshed, v)))
        else if code = 401 then
          (if \<not> refreshed
           then andThen go_Invalidate (\<lambda>_. Done (Some (Errorf ''alphasense 401, retrying with fresh token'' []), (True, out)))
           else Done (Some (Permanent (Errorf ''alphasense rejected fresh token (401)'' [])), (refreshed, out)))
        else if code = 429 \<or> 500 \<le> code then
          Done (Some (Errorf ''alphasense %s %s: status %d'' [AStr verb, AStr path, AInt code]), (refreshed, out))
        else
          Done (Some (Permanent (Errorf ''alphasense %s %s: status %d'' [AStr verb, AStr path, AInt code])), (refreshed, out)))"

definition go_alphaOp ::
  "alpha_client \<Rightarrow> string \<Rightarrow> string \<Rightarrow> string \<Rightarrow> (string \<Rightarrow> 'a option) \<Rightarrow> (bool \<times> 'a) go_operation" where
  "go_alphaOp c verb path body dec st =
     andThen (go_AccessToken (ac_tokens c)) (\<lambda>r.
       case r of
         Inl err \<Rightarrow> Done (Some (Wrapf ''alphasense auth: %w'' [] err), st)
       | Inr token \<Rightarrow>
           if hc_badURL (ac_http c) (ac_baseURL c @ path)
           then Done (Some (Permanent (Errorf ''net/http: bad request'' [])), st)
           else andThen (act (http_do (alphaRequest c verb path body token))) (\<lambda>answer.
             case answer of
               Inl d \<Rightarrow> Done (Some (Wrapf ''alphasense %s %s: %w'' [AStr verb, AStr path] (Driver d)), st)
             | Inr resp \<Rightarrow> go_alphaAnswer verb path dec resp st))"

definition go_alphaDo ::
  "alpha_client \<Rightarrow> string \<Rightarrow> string \<Rightarrow> string \<Rightarrow> (string \<Rightarrow> 'a option) \<Rightarrow> 'a \<Rightarrow> 'a res program" where
  "go_alphaDo c verb path body dec zero =
     andThen (go_Do DefaultPolicy (go_alphaOp c verb path body dec) (False, zero)) (\<lambda>(out, (_, v)).
       case out of
         Returned None \<Rightarrow> Done (Inr v)
       | Returned (Some e) \<Rightarrow> Done (Inl e)
       | Panicked \<Rightarrow> Done (Inl panicError))"

definition go_FetchDevices :: "alpha_client \<Rightarrow> Device list res program" where
  "go_FetchDevices c =
     andThen (go_alphaDo c ''GET'' ''/api/v2/units'' [] unmarshalUnits []) (\<lambda>r.
       case r of
         Inl e \<Rightarrow> Done (Inl e)
       | Inr us \<Rightarrow> andThen (act timeNow) (\<lambda>now. Done (Inr (accepted (map (\<lambda>u. normalizeUnit u now) us)))))"

definition go_FetchEvents :: "alpha_client \<Rightarrow> Time \<Rightarrow> (NormalizedEvent list \<times> error option) program" where
  "go_FetchEvents c since =
     andThen (go_alphaDo c ''GET'' (alertsPath since) [] unmarshalAlerts []) (\<lambda>r.
       case r of
         Inl e \<Rightarrow> Done ([], Some e)
       | Inr as \<Rightarrow> andThen (act timeNow) (\<lambda>received.
           let rs = map (\<lambda>a. normalizeAlert a received) as in Done (accepted rs, firstErr rs)))"

type_synonym go_sender = "string \<Rightarrow> Command \<Rightarrow> (CommandState \<times> message) res program"

definition go_alphaSendCommand :: "alpha_client \<Rightarrow> go_sender" where
  "go_alphaSendCommand c ext cmd =
     (let instruction = instructionOf (c_Type cmd)
      in if instruction = [] then
           Done (Inl (Permanent (Errorf ''alphasense cannot express command %q'' [AStr (c_Type cmd)])))
         else andThen (go_alphaDo c ''POST'' (instructionsPath ext) (instructionBody instruction cmd)
                (\<lambda>_. Some ()) ()) (\<lambda>r.
                case r of
                  Inl e \<Rightarrow> Done (Inl e)
                | Inr _ \<Rightarrow> Done (Inr (CommandDelivered, Str ''accepted by alphasense''))))"

section \<open>Run alone, they are the operations\<close>

named_theorems exec_simps \<open>what a program does when nothing else runs\<close>

lemma exec_storage [exec_simps]:
  "exec (go_CreateCommand c) w = CreateCommand c w"
  "exec (go_TransitionCommand uid to msg) w = TransitionCommand uid to msg w"
  by (auto simp: go_CreateCommand_def CreateCommand_def go_TransitionCommand_def TransitionCommand_def Let_def
      split: prod.split sum.split option.split)

lemma exec_pipeline [exec_simps]:
  "exec (go_Accept e) w = Accept storage_event_store e w"
  "exec (go_AcceptFromProvider ne) w = AcceptFromProvider storage_event_store ne w"
  "exec (go_DeadLetter src why body) w = ((), DeadLetter storage_event_store src why body w)"
proof -
  show accept: "exec (go_Accept e) w = Accept storage_event_store e w" for e w
    by (simp add: go_Accept_def Accept_def storage_event_store_def Let_def split: prod.split sum.split option.split)
  show "exec (go_AcceptFromProvider ne) w = AcceptFromProvider storage_event_store ne w"
    by (simp add: go_AcceptFromProvider_def AcceptFromProvider_def accept split: prod.split sum.split)
      (simp add: storage_event_store_def)
  show "exec (go_DeadLetter src why body) w = ((), DeadLetter storage_event_store src why body w)"
    by (simp add: go_DeadLetter_def DeadLetter_def storage_event_store_def split: prod.split)
qed

text \<open>\<open>runs_as op' op\<close>: the program of a retried operation does what the operation does.\<close>

definition runs_as :: "'s go_operation \<Rightarrow> 's operation \<Rightarrow> bool" where
  "runs_as op' op \<longleftrightarrow> (\<forall>s w. exec (op' s) w = (case op (s, w) of (r, (s', w')) \<Rightarrow> ((r, s'), w')))"

lemma exec_loop:
  assumes "runs_as op' op"
  shows "exec (go_loop p tot op' a left s) w = (case Do_loop p tot op a left (s, w) of (r, (s', w')) \<Rightarrow> ((r, s'), w'))"
proof (induction left arbitrary: a s w)
  case 0
  show ?case
    using assms by (subst go_loop.simps, subst Do_loop.simps) (simp add: runs_as_def split: prod.split option.split)
next
  case (Suc left)
  show ?case
    using assms by (subst go_loop.simps, subst Do_loop.simps) (simp add: runs_as_def Suc split: prod.split option.split)
qed

lemma exec_Do:
  "runs_as op' op \<Longrightarrow> exec (go_Do p op' s) w = (case Do p op (s, w) of (r, (s', w')) \<Rightarrow> ((r, s'), w'))"
  by (simp add: go_Do_def Do_def Let_def exec_loop)

lemma runs_as_grant: "runs_as (go_grantOp cfg f) (grantOp cfg f)"
  by (auto simp: runs_as_def go_grantOp_def grantOp_def Let_def split: prod.split sum.split)

lemma exec_grant [exec_simps]: "exec (go_grant cfg f) w = grant cfg f w"
  by (simp add: go_grant_def grant_def Let_def exec_Do [OF runs_as_grant] split: prod.split outcome.split option.split)

lemma exec_obtain [exec_simps]:
  "exec (go_obtainFresh cfg) w = obtainFresh cfg w"
  "exec (go_obtainLocked cfg (tk_RefreshToken (w_token w))) w = obtainLocked cfg w"
  by (simp_all add: go_obtainFresh_def obtainFresh_def go_obtainLocked_def obtainLocked_def exec_simps
      split: prod.split sum.split)

lemma exec_token [exec_simps]:
  "exec (go_AccessToken cfg) w = AccessToken cfg w"
  "exec go_Invalidate w = ((), Invalidate w)"
  by (simp_all add: go_AccessToken_def AccessToken_def lookAtToken_def go_Invalidate_def exec_obtain Let_def
      split: prod.split sum.split)

lemma runs_as_alpha: "runs_as (go_alphaOp c verb path body dec) (alphaOp c verb path body dec)"
proof -
  have "runs_as (go_alphaAnswer verb path dec resp) (alphaAnswer verb path dec resp)" for resp
    by (simp add: runs_as_def go_alphaAnswer_def alphaAnswer_def exec_token Let_def split: option.split)
  then show ?thesis
    by (simp add: runs_as_def go_alphaOp_def alphaOp_def exec_token split: prod.split sum.split)
qed

lemma exec_alpha [exec_simps]:
  "exec (go_alphaDo c verb path body dec zero) w = alphaDo c verb path body dec zero w"
  "exec (go_FetchDevices c) w = FetchDevices c w"
  "exec (go_FetchEvents c since) w = FetchEvents c since w"
  "exec (go_alphaSendCommand c ext cmd) w = alphaSendCommand c ext cmd w"
proof -
  show do: "exec (go_alphaDo c verb path body dec zero) w = alphaDo c verb path body dec zero w"
    for c verb path body dec and zero :: 'b and w
    by (auto simp: go_alphaDo_def alphaDo_def exec_Do [OF runs_as_alpha] split: prod.split outcome.split option.split)
  show "exec (go_FetchDevices c) w = FetchDevices c w" "exec (go_FetchEvents c since) w = FetchEvents c since w"
    "exec (go_alphaSendCommand c ext cmd) w = alphaSendCommand c ext cmd w"
    by (simp_all add: go_FetchDevices_def FetchDevices_def go_FetchEvents_def FetchEvents_def alphaGet_def do Let_def
        go_alphaSendCommand_def alphaSendCommand_def split: prod.split sum.split)
qed

end
