(* ===== verification/GoHandlers.thy ===== *)
theory GoHandlers
  imports Goroutines
begin

text \<open>
  The handlers, the poller and the reaper as programs, and the goroutine that each entry of the connector
  starts. \<open>goroutine_alone\<close> is the link to \<open>Connector\<close>: run alone, a goroutine does what the entry does.
\<close>

section \<open>The command service\<close>

definition go_dispatch :: "go_sender \<Rightarrow> Device \<Rightarrow> Command \<Rightarrow> Command res program" where
  "go_dispatch send device cmd =
     andThen (send (d_ExternalID device) cmd) (\<lambda>r.
       case r of
         Inl err \<Rightarrow>
           andThen (go_TransitionCommand (c_ID cmd) CommandFailed (ErrText err)) (\<lambda>t.
             case t of
               Inl terr \<Rightarrow> Done (Inl terr)
             | Inr failed \<Rightarrow>
                 doing (metricInc (CommandTransitions CommandFailed))
                   (doing (metricInc CommandFailures) (Done (Inr failed))))
       | Inr (state, msg) \<Rightarrow>
           andThen (go_TransitionCommand (c_ID cmd) state msg) (\<lambda>t.
             case t of
               Inl terr \<Rightarrow> Done (Inl terr)
             | Inr updated \<Rightarrow> doing (metricInc (CommandTransitions state)) (Done (Inr updated))))"

definition go_enqueue :: "go_sender option \<Rightarrow> Device \<Rightarrow> Command \<Rightarrow> Command res program" where
  "go_enqueue sender device c =
     andThen (go_CreateCommand c) (\<lambda>r.
       case r of
         CmdError e \<Rightarrow> if errIs e ErrDuplicate then Done (Inr zeroCommand) else Done (Inl e)
       | CmdExisting cmd \<Rightarrow> Done (Inr cmd)
       | CmdCreated cmd \<Rightarrow>
           doing (metricInc (CommandsCreated (c_Type c)))
             (case sender of
                Some send \<Rightarrow> go_dispatch send device cmd
              | None \<Rightarrow> Done (Inr cmd)))"

definition go_Create ::
  "Duration \<Rightarrow> (ProviderName \<Rightarrow> go_sender option) \<Rightarrow> string \<Rightarrow> CommandType \<Rightarrow> string \<Rightarrow> string \<Rightarrow> Command res program" where
  "go_Create ttl senders deviceID typ payload idemKey =
     (if \<not> ValidCommandType typ
      then Done (Inl (Wrapf ''%w: unknown type %q'' [AStr typ] (Sentinel ErrValidation)))
      else if payload \<noteq> [] \<and> \<not> json_Valid payload
      then Done (Inl (Wrapf ''%w: payload is not valid JSON'' [] (Sentinel ErrValidation)))
      else andThen (act (GetDevice deviceID)) (\<lambda>r.
        case r of
          Inl e \<Rightarrow>
            if errIs e ErrNotFound
            then Done (Inl (Wrapf ''%w: unknown device %q'' [AStr deviceID] (Sentinel ErrValidation)))
            else Done (Inl e)
        | Inr device \<Rightarrow>
            (let sender = senders (d_Provider device)
             in if d_Provider device \<noteq> ProviderGuardianEdge \<and> sender = None
                then Done (Inl (Wrapf ''%w: provider %q does not accept commands''
                       [AStr (d_Provider device)] (Sentinel ErrValidation)))
                else andThen (act timeNow) (\<lambda>now.
                  go_enqueue sender device (newCommand deviceID typ payload idemKey (time_Add now ttl))))))"

definition go_Poll :: "string \<Rightarrow> int \<Rightarrow> Command list res program" where
  "go_Poll deviceID limit =
     andThen (act (FetchPendingCommands deviceID limit)) (\<lambda>r.
       case r of
         Inl e \<Rightarrow> Done (Inl e)
       | Inr cmds \<Rightarrow> doing (repeatInc (length cmds) (CommandTransitions CommandDelivered)) (Done (Inr cmds)))"

definition go_ReportResult :: "string \<Rightarrow> bool \<Rightarrow> string \<Rightarrow> Command res program" where
  "go_ReportResult commandID ok msg =
     (let to = (if ok then CommandAcknowledged else CommandFailed)
      in andThen (go_TransitionCommand commandID to (Str msg)) (\<lambda>r.
           case r of
             Inl e \<Rightarrow> Done (Inl e)
           | Inr cmd \<Rightarrow>
               doing (metricInc (CommandTransitions to))
                 (if ok then Done (Inr cmd) else doing (metricInc CommandFailures) (Done (Inr cmd)))))"

definition go_reaperTick :: "unit program" where
  "go_reaperTick =
     andThen (act ExpireCommands) (\<lambda>r.
       case r of
         Inl e \<Rightarrow> Done ()
       | Inr n \<Rightarrow>
           forEach (\<lambda>_. doing (metricInc (CommandTransitions CommandFailed)) (doing (metricInc CommandFailures) (Done ())))
             [0..<n])"

section \<open>The webhook handler\<close>

type_synonym go_handler = "http_in \<Rightarrow> http_reply program"

definition go_DeadLetterReject :: "string \<Rightarrow> error \<Rightarrow> string \<Rightarrow> http_reply program" where
  "go_DeadLetterReject reason err body =
     andThen (go_DeadLetter ProviderBetaGrid (ErrText err) body) (\<lambda>_. act (reject StatusBadRequest reason))"

definition go_processEvent :: "string \<Rightarrow> NormalizedEvent \<Rightarrow> http_reply program" where
  "go_processEvent body ne =
     andThen (go_AcceptFromProvider ne) (\<lambda>r.
       case r of
         Inr b \<Rightarrow> Done writeOK
       | Inl err \<Rightarrow>
           (case asRejected err of
              Some rej \<Rightarrow> go_DeadLetterReject ''invalid event'' rej body
            | None \<Rightarrow> act (reject StatusInternalServerError ''processing error'')))"

definition go_processHeartbeat :: "Heartbeat \<Rightarrow> Time \<Rightarrow> http_reply program" where
  "go_processHeartbeat hb sentAt =
     andThen (act (UpsertDevice (zeroDevice\<lparr>d_ExternalID := hb_ExternalDeviceID hb, d_Provider := ProviderBetaGrid,
         d_Status := hb_Status hb, d_LastSeenAt := sentAt\<rparr>))) (\<lambda>r.
       case r of
         Inl e \<Rightarrow> act (reject StatusInternalServerError ''storage error'')
       | Inr uid \<Rightarrow>
           andThen (act (TouchDevice uid (hb_Status hb) sentAt)) (\<lambda>t.
             case t of
               Inl e \<Rightarrow> act (reject StatusInternalServerError ''storage error'')
             | Inr u \<Rightarrow> Done writeOK))"

definition go_processDelivery :: "string \<Rightarrow> Delivery \<Rightarrow> http_reply program" where
  "go_processDelivery body d =
     (case del_Event d of
        Some ne \<Rightarrow> go_processEvent body ne
      | None \<Rightarrow>
          (case del_Heartbeat d of
             Some hb \<Rightarrow> go_processHeartbeat hb (del_SentAt d)
           | None \<Rightarrow> Done writeOK))"

definition go_gateDelivery :: "string \<Rightarrow> Delivery \<Rightarrow> http_reply program" where
  "go_gateDelivery body d =
     andThen (act (RecordWebhookDelivery ProviderBetaGrid (del_MsgID d))) (\<lambda>r.
       case r of
         Inl err \<Rightarrow>
           if errIs err ErrDuplicate then doing (metricInc (WebhookDuplicates ProviderBetaGrid)) (Done writeOK)
           else act (reject StatusInternalServerError ''storage error'')
       | Inr u \<Rightarrow> go_processDelivery body d)"

definition go_handleAuthentic :: "Duration \<Rightarrow> string \<Rightarrow> http_reply program" where
  "go_handleAuthentic maxSkew body =
     andThen (act timeNow) (\<lambda>now.
       case Parse body now of
         Inl err \<Rightarrow> go_DeadLetterReject ''malformed payload'' err body
       | Inr d \<Rightarrow>
           andThen (act timeNow) (\<lambda>now'.
             if maxSkew < dur_Abs (time_Sub now' (del_SentAt d))
             then act (reject StatusBadRequest ''timestamp outside window'')
             else go_gateDelivery body d))"

definition go_BetaGrid :: "string \<Rightarrow> Duration \<Rightarrow> int \<Rightarrow> go_handler" where
  "go_BetaGrid secret maxSkew maxBytes r =
     (if secret = [] then act (reject StatusServiceUnavailable ''webhook secret not configured'')
      else case readBounded maxBytes r of
             BodyBroken \<Rightarrow> act (reject StatusBadRequest ''unreadable body'')
           | BodyTooLarge \<Rightarrow> act (reject StatusRequestEntityTooLarge ''body too large'')
           | BodyOk body \<Rightarrow>
               if \<not> VerifySignature body (in_header r SignatureHeader) secret
               then act (reject StatusUnauthorized ''bad signature'')
               else go_handleAuthentic maxSkew body)"

section \<open>The edge interface\<close>

definition go_auth :: "ingest_api \<Rightarrow> go_handler \<Rightarrow> go_handler" where
  "go_auth a handler r =
     (if ia_token a \<noteq> [] \<and> stripPrefix bearerPrefix (in_header r ''Authorization'') \<noteq> Some (ia_token a)
      then Done (httpError (Str ''unauthorized'') StatusUnauthorized)
      else handler r)"

definition go_postTelemetry :: "ingest_api \<Rightarrow> go_handler" where
  "go_postTelemetry a r =
     (case decode a unmarshalTelemetry r of
        Inl rep \<Rightarrow> Done rep
      | Inr req \<Rightarrow>
          if tq_DeviceID req = [] \<or> tq_ReportedAtMs req \<le> 0
          then Done (badRequest ''deviceId and reportedAtMs are required'')
          else andThen (act timeNow) (\<lambda>now.
            andThen (act (UpsertDevice (edgeDevice (tq_DeviceID req) (tq_AppVersion req) now))) (\<lambda>dev.
              case dev of
                Inl e \<Rightarrow> Done internalError
              | Inr deviceID \<Rightarrow>
                  andThen (act (InsertTelemetry (telemetryOf req deviceID now))) (\<lambda>t.
                    case t of
                      Inl e \<Rightarrow> Done internalError
                    | Inr u \<Rightarrow>
                        doing (metricInc TelemetryReceived)
                          (Done (jsonReply StatusAccepted (JObj [(''status'', JStr ''accepted'')])))))))"

definition go_postEvent :: "ingest_api \<Rightarrow> go_handler" where
  "go_postEvent a r =
     (case decode a unmarshalEvent r of
        Inl rep \<Rightarrow> Done rep
      | Inr req \<Rightarrow>
          if eq_DeviceID req = [] then Done (badRequest ''deviceId is required'')
          else andThen (act timeNow) (\<lambda>now.
            andThen (act (UpsertDevice (edgeDevice (eq_DeviceID req) (eq_AppVersion req) now))) (\<lambda>dev.
              case dev of
                Inl e \<Rightarrow> Done internalError
              | Inr deviceID \<Rightarrow>
                  andThen (go_Accept (eventOf req deviceID now)) (\<lambda>acc.
                    case acc of
                      Inl e \<Rightarrow>
                        (case asRejected e of
                           Some rej \<Rightarrow> Done (httpError (ErrText rej) StatusBadRequest)
                         | None \<Rightarrow> Done internalError)
                    | Inr duplicate \<Rightarrow>
                        Done (jsonReply StatusAccepted
                          (JObj [(''duplicate'', JBool duplicate), (''status'', JStr ''accepted'')]))))))"

definition go_getCommands :: "go_handler" where
  "go_getCommands r =
     (let externalID = in_query r ''deviceId''
      in if externalID = [] then Done (badRequest ''deviceId query parameter is required'')
         else andThen (act (FindDeviceByExternalID ProviderGuardianEdge externalID)) (\<lambda>dev.
           case dev of
             Inl e \<Rightarrow>
               if errIs e ErrNotFound then Done (jsonReply StatusOK (JObj [(''commands'', JArr [])]))
               else Done internalError
           | Inr device \<Rightarrow>
               andThen (go_Poll (d_ID device) 10) (\<lambda>r.
                 case r of
                   Inl e \<Rightarrow> Done internalError
                 | Inr cmds \<Rightarrow> Done (jsonReply StatusOK (JObj [(''commands'', JArr (map commandWire cmds))])))))"

definition go_postCommandResult :: "ingest_api \<Rightarrow> go_handler" where
  "go_postCommandResult a r =
     (case decode a unmarshalCommandResult r of
        Inl rep \<Rightarrow> Done rep
      | Inr req \<Rightarrow>
          andThen (go_ReportResult (in_pathValue r ''id'') (cr_OK req) (cr_Message req)) (\<lambda>res.
            case res of
              Inr cmd \<Rightarrow> Done (jsonReply StatusOK (JObj [(''status'', JStr ''recorded'')]))
            | Inl e \<Rightarrow>
                Done (if errIs e ErrNotFound then httpError (Str ''unknown command'') StatusNotFound
                      else if errIs e ErrInvalidTransition
                      then httpError (Str ''command is not awaiting a result'') StatusConflict
                      else internalError)))"

section \<open>The platform interface\<close>

definition go_SendCommand ::
  "Duration \<Rightarrow> (ProviderName \<Rightarrow> go_sender option) \<Rightarrow> sendCommandRequest \<Rightarrow> pb_Command grpc_result program" where
  "go_SendCommand ttl senders req =
     andThen (go_Create ttl senders (sr_DeviceId req) (commandTypeFromProto (sr_Type req))
         (sr_PayloadJson req) (sr_IdempotencyKey req)) (\<lambda>r.
       case r of
         Inl e \<Rightarrow>
           Done (if errIs e ErrValidation then Inl (InvalidArgument, ErrText e)
                 else statusError Internal ''command creation failed'')
       | Inr c \<Rightarrow> Done (Inr (commandToProto c)))"

section \<open>The poller\<close>

definition go_pollDevices :: "alpha_client \<Rightarrow> unit program" where
  "go_pollDevices c =
     doing (metricInc (ProviderRequests ProviderAlphaSense ''fetch_devices''))
       (andThen (go_FetchDevices c) (\<lambda>r.
          case r of
            Inl err \<Rightarrow> doing (metricInc (ProviderRequestErrors ProviderAlphaSense ''fetch_devices'' (errKind err))) (Done ())
          | Inr ds \<Rightarrow> forEach (\<lambda>d. act (UpsertDevice d)) ds))"

definition go_pollEvents :: "alpha_client \<Rightarrow> Duration \<Rightarrow> Time \<Rightarrow> Time \<Rightarrow> Time program" where
  "go_pollEvents c lap cycleStart since =
     doing (metricInc (ProviderRequests ProviderAlphaSense ''fetch_events''))
       (andThen (go_FetchEvents c (time_Add since (- lap))) (\<lambda>(evs, err).
          case err of
            Some err \<Rightarrow>
              doing (metricInc (ProviderRequestErrors ProviderAlphaSense ''fetch_events'' (errKind err))) (Done since)
          | None \<Rightarrow> andThen (forEach go_AcceptFromProvider evs) (\<lambda>_. Done cycleStart)))"

definition go_cycle :: "alpha_client \<Rightarrow> Duration \<Rightarrow> Time \<Rightarrow> Time program" where
  "go_cycle c lap since =
     andThen (act timeNow) (\<lambda>cycleStart.
       andThen (go_pollDevices c) (\<lambda>_. go_pollEvents c lap cycleStart since))"

section \<open>The goroutines of the connector\<close>

definition go_sendersOf :: "config \<Rightarrow> http_client \<Rightarrow> ProviderName \<Rightarrow> go_sender option" where
  "go_sendersOf cfg client =
     (if as_BaseURL (cf_AlphaSense cfg) \<noteq> []
      then [ProviderAlphaSense \<mapsto> go_alphaSendCommand (alphaClientOf cfg client)] else Map.empty)"

definition go_Middleware :: "go_handler \<Rightarrow> string \<Rightarrow> http_in \<Rightarrow> (string \<times> http_reply) program" where
  "go_Middleware handler route rq =
     andThen (act (incomingID rq)) (\<lambda>rid.
       andThen (act timeNow) (\<lambda>start.
         andThen (handler rq) (\<lambda>reply.
           let rec = WriteHeader (rp_status reply) newRecorder
           in andThen (act timeNow) (\<lambda>stop.
                doing (metricInc (HTTPDuration route (in_method rq) (itoa (sr_status rec)))) (Done (rid, reply))))))"

type_synonym go_served = "http_in \<Rightarrow> (string option \<times> http_reply) program"

definition go_wrap :: "go_handler \<Rightarrow> string \<Rightarrow> go_served" where
  "go_wrap h route rq = andThen (go_Middleware h route rq) (\<lambda>(rid, reply). Done (Some rid, reply))"

definition go_wrappedRoutes :: "config \<Rightarrow> http_client \<Rightarrow> (string \<times> go_handler \<times> string) list" where
  "go_wrappedRoutes cfg client =
     (let a = edgeAPI cfg client
      in [(''POST /v1/edge/telemetry'', go_auth a (go_postTelemetry a), ''edge_telemetry''),
          (''POST /v1/edge/events'', go_auth a (go_postEvent a), ''edge_events''),
          (''GET /v1/edge/commands'', go_auth a go_getCommands, ''edge_commands_poll''),
          (''POST /v1/edge/commands/{id}/result'', go_auth a (go_postCommandResult a), ''edge_command_result''),
          (''POST /v1/webhooks/betagrid'',
           go_BetaGrid (cf_BetaGridWebhookSecret cfg) (cf_WebhookMaxSkew cfg) (cf_MaxBodyBytes cfg), ''webhook_betagrid'')])"

text \<open>The routes outside the middleware are single steps.\<close>

definition go_routes :: "config \<Rightarrow> externals \<Rightarrow> (string \<times> go_served) list" where
  "go_routes cfg ex =
     map (\<lambda>(pattern, h, route). (pattern, go_wrap h route)) (go_wrappedRoutes cfg (ex_client ex)) @
     map (\<lambda>(pattern, h). (pattern, \<lambda>rq. act (bare h rq))) (plainRoutes ex)"

definition go_serve :: "config \<Rightarrow> externals \<Rightarrow> go_served" where
  "go_serve cfg ex rq =
     (case muxFind (go_routes cfg ex) (in_method rq) (in_path rq) of
        MuxBadRequest \<Rightarrow> Done (None, httpError (Str []) StatusBadRequest)
      | MuxRedirect \<Rightarrow> Done (None, httpError (Str []) 301)
      | MuxNotFound \<Rightarrow> Done (None, httpError (Str ''404 page not found'') StatusNotFound)
      | MuxNotAllowed \<Rightarrow> Done (None, httpError (Str ''Method Not Allowed'') 405)
      | MuxFound h vs \<Rightarrow> h (withPathValues vs rq))"

text \<open>What a goroutine ends with: the answer of a request or a call, or nothing.\<close>

datatype answer =
    HttpAnswer "string option" http_reply
  | CommandAnswer "pb_Command grpc_result"
  | DeviceAnswer "pb_Device grpc_result"
  | DevicesAnswer "pb_Device list grpc_result"
  | EventsAnswer "pb_HazardEvent list grpc_result"
  | NoAnswer

definition giving :: "('a \<Rightarrow> answer) \<Rightarrow> 'a program \<Rightarrow> answer program" where
  "giving f t = andThen t (\<lambda>a. Done (f a))"

fun goroutine :: "config \<Rightarrow> externals \<Rightarrow> entry \<Rightarrow> answer program" where
  "goroutine cfg ex (Http rq) = giving (\<lambda>(rid, reply). HttpAnswer rid reply) (go_serve cfg ex rq)"
| "goroutine cfg ex (RpcGetDevice uid) = giving DeviceAnswer (act (rpcGetDevice (grpcServer cfg (ex_client ex)) uid))"
| "goroutine cfg ex RpcListDevices = giving DevicesAnswer (act (rpcListDevices (grpcServer cfg (ex_client ex))))"
| "goroutine cfg ex (RpcListRecentEvents n) =
     giving EventsAnswer (act (rpcListRecentEvents (grpcServer cfg (ex_client ex)) n))"
| "goroutine cfg ex (RpcSendCommand rq) =
     giving CommandAnswer (go_SendCommand (cf_CommandTTL cfg) (go_sendersOf cfg (ex_client ex)) rq)"
| "goroutine cfg ex (RpcGetCommand uid) = giving CommandAnswer (act (rpcGetCommand (grpcServer cfg (ex_client ex)) uid))"
| "goroutine cfg ex StreamSubscribe = giving (\<lambda>_. NoAnswer) (act Subscribe)"
| "goroutine cfg ex (StreamReceive i) =
     giving (\<lambda>_. NoAnswer) (change (\<lambda>w. if i < length (h_chans (w_hub w)) then receive i w else w))"
| "goroutine cfg ex (StreamCancel i) = giving (\<lambda>_. NoAnswer) (change (cancelSubscription i))"
| "goroutine cfg ex (PollCycle since) =
     giving (\<lambda>_. NoAnswer)
       (case pollersOf cfg (ex_client ex) of
          [] \<Rightarrow> Done since
        | p # _ \<Rightarrow> go_cycle (alphaClientOf cfg (ex_client ex)) (pr_Overlap (withOverlap p)) since)"
| "goroutine cfg ex ReaperTick = giving (\<lambda>_. NoAnswer) go_reaperTick"

section \<open>Run alone, they are the handlers\<close>

text \<open>The senders of the programs are those of the service.\<close>

definition senders_agree :: "(ProviderName \<Rightarrow> go_sender option) \<Rightarrow> (ProviderName \<Rightarrow> command_sender option) \<Rightarrow> bool" where
  "senders_agree go senders \<longleftrightarrow> (\<forall>p. (go p = None) = (senders p = None) \<and>
     (\<forall>g send ext cmd w. go p = Some g \<longrightarrow> senders p = Some send \<longrightarrow> exec (g ext cmd) w = send ext cmd w))"

lemma senders_agree_of: "senders_agree (go_sendersOf cfg client) (sendersOf cfg client)"
  by (auto simp: senders_agree_def go_sendersOf_def sendersOf_def exec_simps)

lemma exec_dispatch:
  assumes "\<And>ext w. exec (g ext cmd) w = send ext cmd w"
  shows "exec (go_dispatch g device cmd) w = dispatch (service ttl senders) send device cmd w"
  by (simp add: go_dispatch_def dispatch_def assms exec_simps store_methods split: prod.split sum.split)

lemma exec_enqueue:
  assumes "(go = None) = (sender = None)"
    "\<And>g send ext cmd w. go = Some g \<Longrightarrow> sender = Some send \<Longrightarrow> exec (g ext cmd) w = send ext cmd w"
  shows "exec (go_enqueue go device c) w = enqueue (service ttl senders) sender device c w"
proof -
  have "exec (go_dispatch g device cmd) w = dispatch (service ttl senders) send device cmd w"
    if "go = Some g" "sender = Some send" for g send cmd w
    by (rule exec_dispatch) (rule assms(2) [OF that])
  then show ?thesis
    using assms(1) by (auto simp: go_enqueue_def enqueue_def exec_simps store_methods Let_def
        split: prod.split create_outcome.split option.split)
qed

lemma exec_create:
  assumes "senders_agree go senders"
  shows "exec (go_Create ttl go dev typ payload key) w = Create (service ttl senders) dev typ payload key w"
proof -
  have "(go p = None) = (senders p = None)" for p using assms by (simp add: senders_agree_def)
  moreover have "exec (go_enqueue (go p) device c) w = enqueue (service ttl senders) (senders p) device c w" for p device c w
    by (rule exec_enqueue) (use assms in \<open>auto simp: senders_agree_def\<close>)
  ultimately show ?thesis
    by (auto simp: go_Create_def Create_def Let_def split: prod.split sum.split)
qed

lemma exec_commands:
  "exec (go_Poll dev limit) w = Poll (service ttl senders) dev limit w"
  "exec (go_ReportResult uid ok msg) w = ReportResult (service ttl senders) uid ok msg w"
  "exec go_reaperTick w = ((), reaperTick (service ttl senders) w)"
proof -
  show "exec (go_Poll dev limit) w = Poll (service ttl senders) dev limit w"
    by (simp add: go_Poll_def Poll_def split: prod.split sum.split)
  show "exec (go_ReportResult uid ok msg) w = ReportResult (service ttl senders) uid ok msg w"
    by (simp add: go_ReportResult_def ReportResult_def exec_simps Let_def split: prod.split sum.split)
  have "fold (\<lambda>x. g) [0..<n] v = (g ^^ n) v" for g :: "world \<Rightarrow> world" and n v
    by (induction n arbitrary: v) auto
  then show "exec go_reaperTick w = ((), reaperTick (service ttl senders) w)"
    by (simp add: go_reaperTick_def reaperTick_def exec_forEach split: prod.split sum.split)
qed

lemma exec_webhook [exec_simps]:
  "exec (go_BetaGrid secret skew maxBytes rq) w = BetaGrid (newWebhook secret skew maxBytes) rq w"
proof -
  let ?h = "newWebhook secret skew maxBytes"
  have fields: "wk_events ?h = storage_event_store" "wk_store ?h = storage_webhook_store" "wk_secret ?h = secret"
    "wk_maxSkew ?h = skew" "wk_maxBytes ?h = maxBytes" by (simp_all add: newWebhook_def)
  have event: "exec (go_processEvent body ne) w = processEvent ?h body ne w" for body ne w
    by (simp add: go_processEvent_def processEvent_def go_DeadLetterReject_def exec_simps fields
        split: prod.split sum.split option.split)
  have "exec (go_processHeartbeat hb sent) w = processHeartbeat ?h hb sent w" for hb sent w
    by (simp add: go_processHeartbeat_def processHeartbeat_def fields storage_webhook_store_def split: prod.split sum.split)
  with event have "exec (go_processDelivery body d) w = processDelivery ?h body d w" for body d w
    by (simp add: go_processDelivery_def processDelivery_def split: option.split)
  then have "exec (go_gateDelivery body d) w = gateDelivery ?h body d w" for body d w
    by (simp add: go_gateDelivery_def gateDelivery_def fields storage_webhook_store_def split: prod.split sum.split)
  then have "exec (go_handleAuthentic skew body) w = handleAuthentic ?h body w" for body w
    by (simp add: go_handleAuthentic_def handleAuthentic_def go_DeadLetterReject_def exec_simps fields Let_def
        split: prod.split sum.split)
  then show ?thesis
    by (simp add: go_BetaGrid_def BetaGrid_def fields split: bounded_body.split)
qed

lemma exec_auth: "(\<And>w. exec (g rq) w = h rq w) \<Longrightarrow> exec (go_auth a g rq) w = auth a h rq w"
  by (simp add: go_auth_def auth_def)

lemma exec_ingest:
  fixes cfg client
  defines "a \<equiv> edgeAPI cfg client"
  shows "exec (go_postTelemetry a rq) w = postTelemetry a rq w" "exec (go_postEvent a rq) w = postEvent a rq w"
    "exec (go_getCommands rq) w = getCommands a rq w" "exec (go_postCommandResult a rq) w = postCommandResult a rq w"
proof -
  have fields: "ia_store a = storage_ingest_store" "ia_events a = storage_event_store"
    "ia_commands a = service (cf_CommandTTL cfg) (sendersOf cfg client)" by (simp_all add: a_def edgeAPI_def commandSvc_def)
  show "exec (go_postTelemetry a rq) w = postTelemetry a rq w"
    by (simp add: go_postTelemetry_def postTelemetry_def fields Let_def split: prod.split sum.split)
  show "exec (go_postEvent a rq) w = postEvent a rq w"
    by (simp add: go_postEvent_def postEvent_def fields exec_simps Let_def split: prod.split sum.split option.split)
  show "exec (go_getCommands rq) w = getCommands a rq w"
    by (simp add: go_getCommands_def getCommands_def fields exec_commands(1) [of _ _ _ "cf_CommandTTL cfg" "sendersOf cfg client"]
        Let_def split: prod.split sum.split)
  show "exec (go_postCommandResult a rq) w = postCommandResult a rq w"
    by (simp add: go_postCommandResult_def postCommandResult_def fields
        exec_commands(2) [of _ _ _ _ "cf_CommandTTL cfg" "sendersOf cfg client"] split: prod.split sum.split)
qed

lemma exec_send:
  "exec (go_SendCommand (cf_CommandTTL cfg) (go_sendersOf cfg client) rq) w = rpcSendCommand (grpcServer cfg client) rq w"
  by (simp add: go_SendCommand_def rpcSendCommand_def grpcServer_def commandSvc_def
      exec_create [OF senders_agree_of] split: prod.split sum.split)

lemma exec_cycle:
  assumes "pollersOf cfg client = p # ps"
  shows "exec (go_cycle (alphaClientOf cfg client) (pr_Overlap (withOverlap p)) since) w = cycle (withOverlap p) since w"
proof -
  let ?p = "withOverlap p" and ?c = "alphaClientOf cfg client"
  have p: "pr_Provider ?p = alphaProvider ?c" "pr_Devices ?p = UpsertDevice"
    "pr_Events ?p = AcceptFromProvider storage_event_store"
    using assms by (auto simp: pollersOf_def withOverlap_def split: if_splits)
  have "exec (go_pollDevices ?c) w = ((), pollDevices ?p w)" for w
    by (simp add: go_pollDevices_def pollDevices_def p alphaProvider_def exec_simps exec_forEach Let_def
        split: prod.split sum.split)
  moreover have "exec (go_pollEvents ?c (pr_Overlap ?p) start since) w = pollEvents ?p start since w" for start w
    by (simp add: go_pollEvents_def pollEvents_def p alphaProvider_def exec_simps exec_forEach Let_def
        split: prod.split option.split)
  ultimately show ?thesis by (simp add: go_cycle_def cycle_def Let_def split: prod.split)
qed

lemma exec_wrap:
  assumes "\<And>rq w. exec (g rq) w = h rq w"
  shows "exec (go_wrap g route rq) w = wrap h route rq w"
  by (simp add: go_wrap_def wrap_def go_Middleware_def Middleware_def assms Let_def split: prod.split)

lemma muxFind_map:
  "muxFind (map (\<lambda>(p, h). (p, f h)) rs) verb path = map_mux_result f (muxFind rs verb path)"
proof -
  have m: "pathMatches (map (\<lambda>(p, h). (p, f h)) rs) path = map (\<lambda>(v, h, vs). (v, f h, vs)) (pathMatches rs path)"
    by (induction rs) (auto simp: pathMatches_def split: prod.split option.split)
  have n: "filter (\<lambda>(v, _). verbMatches v verb) (map (\<lambda>(v, h, vs). (v, f h, vs)) ms) =
      map (\<lambda>(v, h, vs). (v, f h, vs)) (filter (\<lambda>(v, _). verbMatches v verb) ms)" for ms
    by (induction ms) auto
  show ?thesis
    unfolding muxFind_def m n
    by (cases "filter (\<lambda>(v, _). verbMatches v verb) (pathMatches rs path)") (auto split: prod.split)
qed

lemma routes_agree: "routes cfg ex = map (\<lambda>(p, h). (p, \<lambda>rq w. exec (h rq) w)) (go_routes cfg ex)"
proof -
  let ?a = "edgeAPI cfg (ex_client ex)"
  have "(\<lambda>rq w. exec (go_wrap (go_auth ?a g) route rq) w) = wrap (auth ?a h) route"
    if "\<And>rq w. exec (g rq) w = h rq w" for g h route
    by (intro ext exec_wrap exec_auth that)
  moreover have "(\<lambda>rq w. exec (go_wrap (go_BetaGrid s skew m) route rq) w) = wrap (BetaGrid (newWebhook s skew m)) route"
    for s skew m route by (intro ext exec_wrap exec_webhook)
  moreover have "(\<lambda>rq. exec (act (bare h rq))) = bare h" for h by (intro ext) simp
  moreover have "exec (go_getCommands rq) w = getCommands ?a rq w" for rq w by (rule exec_ingest)
  ultimately show ?thesis
    by (simp add: routes_def go_routes_def wrappedRoutes_def go_wrappedRoutes_def ingestRoutes_def plainRoutes_def
        webhookHandler_def exec_ingest(1,2,4) Let_def)
qed

lemma exec_serve: "exec (go_serve cfg ex rq) w = serve cfg ex rq w"
  unfolding go_serve_def serve_def routes_agree muxFind_map
  by (cases "muxFind (go_routes cfg ex) (in_method rq) (in_path rq)") simp_all

lemma exec_giving [simp]: "exec (giving f t) w = (case exec t w of (a, w') \<Rightarrow> (f a, w'))"
  by (simp add: giving_def)

lemma goroutine_alone: "snd (exec (goroutine cfg ex en) w) = enter cfg ex en w"
proof (cases en)
  case (Http rq)
  then show ?thesis by (simp add: exec_serve split: prod.split)
next
  case (RpcSendCommand rq)
  then show ?thesis by (simp add: exec_send split: prod.split)
next
  case (PollCycle since)
  then show ?thesis by (cases "pollersOf cfg (ex_client ex)") (simp_all add: exec_cycle split: prod.split)
next
  case ReaperTick
  then show ?thesis
    by (simp add: commandSvc_def exec_commands(3) [of _ "cf_CommandTTL cfg" "sendersOf cfg (ex_client ex)"])
qed (simp_all split: prod.split)

end
