(* ===== verification/GoRules.thy ===== *)
theory GoRules
  imports GoHandlers
begin

text \<open>
  Every program of the connector keeps, with each of its steps, the guarantee \<open>safe\<close> of \<open>Safety\<close>, and
  uses the mutex in a balanced way. \<open>connector\<close> is the interpretation of the interleaving theory on the
  goroutines of the connector.
\<close>

section \<open>Safe steps\<close>

definition sound :: "world \<Rightarrow> bool" where
  "sound w \<longleftrightarrow> db_inv (w_db w)"

abbreviation ok :: "'r program \<Rightarrow> bool" where
  "ok \<equiv> guards sound safe"

lemma safe_sound: "safe w w' \<Longrightarrow> sound w \<Longrightarrow> sound w'"
  using db_steps_inv by (auto simp: safe_def sound_def)

lemma ok_act: "(\<And>w. safe w (snd (op w))) \<Longrightarrow> ok (act op)"
  by (rule guards_rules(2)) (use safe_sound in blast)

lemma ok_doing: "(\<And>w. safe w (g w)) \<Longrightarrow> ok t \<Longrightarrow> ok (doing g t)"
  by (rule guards_doing) (use safe_sound in blast)

lemma ok_change: "(\<And>w. safe w (g w)) \<Longrightarrow> ok (change g)"
  by (rule guards_rules(3)) (use safe_sound in blast)

lemma quiet_safe:
  "safe w (snd (ctxErr w))" "safe w (snd (timeNow w))" "safe w (snd (http_do rq w))" "safe w (snd (backoff p n w))"
  "safe w (snd (lookAtToken w))" "safe w (Invalidate w)" "safe w (w\<lparr>w_token := tok\<rparr>)" "safe w (snd (incomingID hq w))"
  "safe w (snd (withCommandID c w))"
  by (simp_all add: safe_def metrics_grow_refl environment_defs http_do_def backoff_def rand_N_def lookAtToken_def
      Invalidate_def incomingID_def withCommandID_def Let_def)

lemmas ok_rules = guards_rules(1) guards_branch guards_andThen guards_locked ok_act ok_doing ok_change

lemma step_safe:
  "safe w (snd (UpsertDevice d w))" "safe w (snd (TouchDevice dev st seen w))" "safe w (snd (InsertTelemetry t w))"
  "safe w (snd (InsertHazardEvent e w))" "safe w (snd (RecordWebhookDelivery p key w))"
  "safe w (snd (InsertDeadLetter src why body w))" "safe w (snd (FetchPendingCommands dev limit w))"
  "safe w (snd (ExpireCommands w))" "safe w (snd (GetDevice uid w))" "safe w (snd (FindDeviceByExternalID p ext w))"
  "safe w (snd (GetCommand uid w))" "safe w (snd (afterInsertCommand c r w))"
  "safe w (snd (exec_sql (insertCommand_sql pg c doc) w))"
  "transition_sources to = Some from \<Longrightarrow> safe w (snd (exec_sql (transition_sql pg uid to msg from) w))"
  "safe w (publish e w)" "safe w (snd (Subscribe w))" "safe w (cancelSubscription i w)"
  "admissible m \<Longrightarrow> safe w (metricInc m w)" "admissible m \<Longrightarrow> safe w (repeatInc n m w)"
  "utf8Valid reason \<Longrightarrow> safe w (snd (reject code reason w))"
  by (simp_all add: safe_store [OF _ safe_refl] steps_intros afterInsertCommand_effect safe_hub safe_env safe_refl repeatInc_def)

lemma ok_storage:
  "ok (go_CreateCommand c)" "ok (go_TransitionCommand uid to msg)"
  unfolding go_CreateCommand_def go_TransitionCommand_def Let_def
  by (intro ok_rules; simp add: step_safe quiet_safe)+

lemma ok_accept: "utf8Valid (e_Source e) \<Longrightarrow> ok (go_Accept e)"
  unfolding go_Accept_def by (intro ok_rules; simp add: step_safe byte_def)

lemma ok_pipeline:
  "utf8Valid (e_Source (ne_Event ne)) \<Longrightarrow> ok (go_AcceptFromProvider ne)"
  "utf8Valid src \<Longrightarrow> ok (go_DeadLetter src why body)"
  unfolding go_AcceptFromProvider_def go_DeadLetter_def
  by (intro ok_rules ok_accept; simp add: step_safe byte_def)+

section \<open>The adapter\<close>

lemma ok_loop: "(\<And>s. ok (op s)) \<Longrightarrow> ok (go_loop p tot op a left s)"
proof (induction left arbitrary: a s)
  case 0
  then show ?case by (subst go_loop.simps) (auto intro!: ok_rules simp: quiet_safe)
next
  case (Suc left)
  then show ?case by (subst go_loop.simps) (auto intro!: ok_rules simp: quiet_safe)
qed

lemma ok_token:
  "ok (go_grantOp cfg f tok)" "ok (go_grant cfg f)" "ok (go_obtainFresh cfg)" "ok (go_obtainLocked cfg rt)"
  "ok (go_AccessToken cfg)" "ok go_Invalidate"
proof -
  show op: "ok (go_grantOp cfg f tok)" for f tok
    unfolding go_grantOp_def Let_def by (intro ok_rules; simp add: quiet_safe)
  show grant: "ok (go_grant cfg f)" for f
    unfolding go_grant_def go_Do_def Let_def
    by (rule guards_andThen [OF ok_loop [OF op]]) (auto split: prod.split outcome.split option.split)
  show fresh: "ok (go_obtainFresh cfg)"
    unfolding go_obtainFresh_def by (intro ok_rules grant)
  show locked: "ok (go_obtainLocked cfg rt)" for rt
    unfolding go_obtainLocked_def by (intro ok_rules grant fresh)
  show "ok (go_AccessToken cfg)"
    unfolding go_AccessToken_def by (intro ok_rules locked; simp add: quiet_safe)
  show "ok go_Invalidate" unfolding go_Invalidate_def by (intro ok_rules; simp add: quiet_safe)
qed

lemma ok_alpha:
  "ok (go_alphaDo c verb path body dec zero)" "ok (go_FetchDevices c)" "ok (go_FetchEvents c since)"
  "ok (go_alphaSendCommand c ext cmd)"
proof -
  have answer: "ok (go_alphaAnswer verb path dec resp st)" for verb path and dec :: "string \<Rightarrow> 'c option" and resp st
    unfolding go_alphaAnswer_def Let_def by (intro ok_rules ok_token)
  have op: "ok (go_alphaOp c verb path body dec st)" for verb path body and dec :: "string \<Rightarrow> 'c option" and st
    unfolding go_alphaOp_def by (intro ok_rules ok_token answer; simp add: quiet_safe)
  have do: "ok (go_alphaDo c verb path body dec zero)" for verb path body and dec :: "string \<Rightarrow> 'c option" and zero
    unfolding go_alphaDo_def go_Do_def Let_def
    by (rule guards_andThen [OF ok_loop [OF op]]) (auto split: prod.split outcome.split option.split)
  show "ok (go_alphaDo c verb path body dec zero)" by (rule do)
  show "ok (go_FetchDevices c)" "ok (go_FetchEvents c since)" "ok (go_alphaSendCommand c ext cmd)"
    unfolding go_FetchDevices_def go_FetchEvents_def go_alphaSendCommand_def Let_def
    by (intro ok_rules do; simp add: quiet_safe)+
qed

section \<open>The handlers\<close>

text \<open>Senders that are safe and only report states that can be counted.\<close>

definition ok_senders :: "(ProviderName \<Rightarrow> go_sender option) \<Rightarrow> bool" where
  "ok_senders senders \<longleftrightarrow> (\<forall>p send ext cmd. senders p = Some send \<longrightarrow>
     ok (send ext cmd) \<and> always sound (pred_sum (\<lambda>_. True) (utf8Valid \<circ> fst)) (send ext cmd))"

lemma ok_senders_of: "ok_senders (go_sendersOf cfg client)"
proof -
  have "always sound (pred_sum (\<lambda>_. True) (utf8Valid \<circ> fst)) (go_alphaSendCommand c ext cmd)" for c ext cmd
    unfolding go_alphaSendCommand_def Let_def by (intro always_branch always_after; simp)
  then show ?thesis by (simp add: ok_senders_def go_sendersOf_def ok_alpha)
qed

lemma ok_dispatch:
  assumes "ok (send (d_ExternalID device) cmd)"
    "always sound (pred_sum (\<lambda>_. True) (utf8Valid \<circ> fst)) (send (d_ExternalID device) cmd)"
  shows "ok (go_dispatch send device cmd)"
  unfolding go_dispatch_def
  by (rule guards_andThen_always [OF assms]) (intro ok_rules ok_storage; simp add: step_safe)

lemma ok_enqueue:
  assumes "ok_senders senders" "utf8Valid (c_Type c)"
  shows "ok (go_enqueue (senders p) device c)"
proof -
  have "ok (go_dispatch send device cmd)" if "senders p = Some send" for send cmd
    using assms(1) that by (intro ok_dispatch) (auto simp: ok_senders_def)
  then have "ok (case r of
      CmdError e \<Rightarrow> if errIs e ErrDuplicate then Done (Inr zeroCommand) else Done (Inl e)
    | CmdExisting cmd \<Rightarrow> Done (Inr cmd)
    | CmdCreated cmd \<Rightarrow>
        doing (metricInc (CommandsCreated (c_Type c)))
          (case senders p of Some send \<Rightarrow> go_dispatch send device cmd | None \<Rightarrow> Done (Inr cmd)))" for r
    using assms(2) by (cases r) (auto intro!: ok_rules simp: step_safe)
  then show ?thesis unfolding go_enqueue_def by (intro guards_andThen ok_storage)
qed

lemma ok_create: "ok_senders senders \<Longrightarrow> ok (go_Create ttl senders dev typ payload key)"
  unfolding go_Create_def Let_def by (intro ok_rules ok_enqueue; simp add: step_safe quiet_safe newCommand_def)

lemma ok_commands:
  "ok (go_Poll dev limit)" "ok (go_ReportResult uid done msg)" "ok go_reaperTick"
  unfolding go_Poll_def go_ReportResult_def go_reaperTick_def Let_def
  by (intro ok_rules ok_storage guards_forEach; simp add: step_safe)+

lemma ok_webhook: "ok (go_BetaGrid secret skew maxBytes rq)"
proof -
  have dead: "ok (go_DeadLetterReject reason err body)" if "utf8Valid reason" for reason err body
    unfolding go_DeadLetterReject_def by (intro ok_rules ok_pipeline; simp add: step_safe that)
  have "ok (go_processDelivery body d)" if "Parse body' now = Inr d" for body body' now d
    unfolding go_processDelivery_def go_processEvent_def go_processHeartbeat_def
    by (intro ok_rules ok_pipeline dead; simp add: step_safe byte_def Parse_source [OF that])
  then have "ok (go_gateDelivery body d)" if "Parse body' now = Inr d" for body body' now d
    unfolding go_gateDelivery_def using that by (intro ok_rules; simp add: step_safe byte_def)
  then have "ok (go_handleAuthentic skew body)" for body
    unfolding go_handleAuthentic_def by (intro ok_rules dead; simp add: step_safe quiet_safe byte_def)
  then show ?thesis
    by (auto simp: go_BetaGrid_def step_safe byte_def split: bounded_body.split intro!: ok_act)
qed

lemma ok_ingest:
  "ok (go_postTelemetry a rq)" "ok (go_postEvent a rq)" "ok (go_getCommands rq)" "ok (go_postCommandResult a rq)"
proof -
  have edge: "utf8Valid (e_Source (eventOf req dev now))" for req dev now by (simp add: eventOf_def)
  show "ok (go_postTelemetry a rq)" "ok (go_postEvent a rq)" "ok (go_getCommands rq)" "ok (go_postCommandResult a rq)"
    unfolding go_postTelemetry_def go_postEvent_def go_getCommands_def go_postCommandResult_def Let_def
    by (intro ok_rules ok_accept ok_commands; simp add: step_safe quiet_safe edge)+
qed

lemma FetchEvents_always:
  "always sound (\<lambda>(evs, err). \<forall>ne\<in>set evs. e_Source (ne_Event ne) = ProviderAlphaSense) (go_FetchEvents c since)"
proof -
  have accepted: "x \<in> set (accepted rs) \<Longrightarrow> Inr x \<in> set rs" for x and rs :: "NormalizedEvent res list"
    by (induction rs rule: accepted.induct) auto
  have "e_Source (ne_Event ne) = ProviderAlphaSense"
    if "ne \<in> set (accepted (map (\<lambda>a. normalizeAlert a received) as))" for ne as received
  proof -
    from accepted [OF that] obtain a where "normalizeAlert a received = Inr ne" by (auto dest: sym)
    then show ?thesis using normalizeAlert_cases by blast
  qed
  then show ?thesis
    unfolding go_FetchEvents_def Let_def by (intro always_after always_branch; simp)
qed

lemma ok_cycle: "ok (go_cycle c lap since)"
proof -
  have devices: "ok (go_pollDevices c)"
    unfolding go_pollDevices_def by (intro ok_rules ok_alpha guards_forEach; simp add: step_safe byte_def)
  have events: "ok (go_pollEvents c lap start since)" for start
    unfolding go_pollEvents_def
    by (intro ok_doing guards_andThen_always [OF ok_alpha(3) FetchEvents_always];
        (intro ok_rules guards_forEach ok_pipeline)?; simp add: step_safe byte_def)
  show ?thesis unfolding go_cycle_def by (intro ok_rules devices events; simp add: quiet_safe)
qed

section \<open>Every goroutine\<close>

lemma go_routes_cases:
  assumes "(pattern, h) \<in> set (go_routes cfg ex)"
  obtains (wrapped) g route where "h = go_wrap g route" "\<And>rq. ok (g rq)" "utf8Valid route"
  | (plain) g where "h = (\<lambda>rq. act (bare g rq))" "(pattern, g) \<in> set (plainRoutes ex)"
proof -
  have auth: "ok (go_auth a g rq)" if "\<And>rq. ok (g rq)" for a g rq
    unfolding go_auth_def by (intro ok_rules that)
  from assms consider g route where "(pattern, g, route) \<in> set (go_wrappedRoutes cfg (ex_client ex))" "h = go_wrap g route"
    | g where "(pattern, g) \<in> set (plainRoutes ex)" "h = (\<lambda>rq. act (bare g rq))"
    by (auto simp: go_routes_def)
  then show thesis
  proof cases
    case (1 g route)
    then have "ok (g rq)" "utf8Valid route" for rq
      by (auto simp: go_wrappedRoutes_def Let_def byte_def intro: auth ok_ingest ok_webhook)
    then show thesis using wrapped 1(2) by blast
  next
    case (2 g)
    then show thesis using plain by blast
  qed
qed

lemma go_routes_patterns: "map fst (go_routes cfg ex) = map fst (routes cfg ex)"
  by (simp add: routes_agree) (induction "go_routes cfg ex", auto)

lemma ok_serve: "ok (go_serve cfg ex rq)"
proof (cases "muxFind (go_routes cfg ex) (in_method rq) (in_path rq)")
  case (MuxFound h vs)
  let ?rq = "withPathValues vs rq"
  from muxFind_found [OF MuxFound] obtain pattern verb segs where r: "(pattern, h) \<in> set (go_routes cfg ex)"
    "parsePattern pattern = (verb, segs)" "verbMatches verb (in_method rq)" by blast
  have "pattern \<in> fst ` set (routes cfg ex)"
    using r(1) go_routes_patterns [of cfg ex] by (metis fst_conv image_eqI list.set_map)
  then have verb: "utf8Valid (in_method ?rq)" using routes_verb [OF _ r(2,3)] by (auto simp: withPathValues_def)
  from r(1) have "ok (h ?rq)"
  proof (cases rule: go_routes_cases)
    case (wrapped g route)
    have "ok (go_Middleware g route ?rq)"
      unfolding go_Middleware_def Let_def
      by (intro ok_rules wrapped(2); simp add: step_safe quiet_safe verb wrapped(3) itoa_valid)
    then show ?thesis unfolding wrapped(1) go_wrap_def by (intro ok_rules)
  next
    case (plain g)
    have "safe w (snd (bare g rq' w))" for rq' w
      using plainRoutes_safe [OF plain(2), of w rq'] by (simp add: bare_def split: prod.split) (metis snd_conv)
    then show ?thesis unfolding plain(1) by (intro ok_act)
  qed
  then show ?thesis using MuxFound by (simp add: go_serve_def)
qed (simp_all add: go_serve_def)

lemma ok_giving: "ok t \<Longrightarrow> ok (giving f t)"
  unfolding giving_def by (intro ok_rules)

lemma ok_goroutine: "ok (goroutine cfg ex en)"
proof (cases en)
  case (Http rq)
  then show ?thesis by (simp add: ok_giving ok_serve)
next
  case (RpcSendCommand rq)
  have "ok (go_SendCommand ttl (go_sendersOf cfg (ex_client ex)) rq)" for ttl
    unfolding go_SendCommand_def by (intro ok_rules ok_create ok_senders_of)
  with RpcSendCommand show ?thesis by (simp add: ok_giving)
next
  case (StreamReceive i)
  have "safe w (if i < length (h_chans (w_hub w)) then receive i w else w)" for w
    using enter_safe [of w cfg ex en] StreamReceive by simp
  with StreamReceive show ?thesis by (auto intro!: ok_giving ok_change)
next
  case (PollCycle since)
  then show ?thesis by (auto intro!: ok_giving simp: ok_cycle guards_rules split: list.split)
next
  case (RpcGetDevice uid)
  then show ?thesis using enter_safe [of _ cfg ex en] by (auto intro!: ok_giving ok_act)
next
  case RpcListDevices
  then show ?thesis using enter_safe [of _ cfg ex en] by (auto intro!: ok_giving ok_act)
next
  case (RpcListRecentEvents n)
  then show ?thesis using enter_safe [of _ cfg ex en] by (auto intro!: ok_giving ok_act)
next
  case (RpcGetCommand uid)
  then show ?thesis using enter_safe [of _ cfg ex en] by (auto intro!: ok_giving ok_act)
qed (auto intro!: ok_giving ok_act ok_change ok_commands simp: step_safe)

section \<open>Balanced use of the token mutex\<close>

lemma lockFree_loop: "(\<And>s. lockFree (op s)) \<Longrightarrow> lockFree (go_loop p tot op a left s)"
proof (induction left arbitrary: a s)
  case 0
  then show ?case by (subst go_loop.simps) (auto intro!: program_rules)
next
  case (Suc left)
  then show ?case by (subst go_loop.simps) (auto intro!: program_rules)
qed

lemma balanced_loop: "(\<And>s. balanced (op s) False) \<Longrightarrow> balanced (go_loop p tot op a left s) False"
proof (induction left arbitrary: a s)
  case 0
  then show ?case by (subst go_loop.simps) (auto intro!: program_rules)
next
  case (Suc left)
  then show ?case by (subst go_loop.simps) (auto intro!: program_rules)
qed

lemma balanced_token: "balanced (go_AccessToken cfg) False" "balanced go_Invalidate False"
proof -
  have op: "lockFree (go_grantOp cfg f tok)" for f tok
    unfolding go_grantOp_def Let_def by (intro program_rules)
  have grant: "lockFree (go_grant cfg f)" for f
    unfolding go_grant_def go_Do_def Let_def
    by (rule lockFree_andThen [OF lockFree_loop [OF op]]) (auto split: prod.split outcome.split option.split)
  have fresh: "lockFree (go_obtainFresh cfg)"
    unfolding go_obtainFresh_def by (intro program_rules grant)
  have "lockFree (go_obtainLocked cfg rt)" for rt
    unfolding go_obtainLocked_def by (intro program_rules grant fresh)
  then show "balanced (go_AccessToken cfg) False"
    unfolding go_AccessToken_def by (intro program_rules)
  show "balanced go_Invalidate False" unfolding go_Invalidate_def by (intro program_rules)
qed

lemma balanced_alpha:
  "balanced (go_alphaDo c verb path body dec zero) False" "balanced (go_FetchDevices c) False"
  "balanced (go_FetchEvents c since) False" "balanced (go_alphaSendCommand c ext cmd) False"
proof -
  have answer: "balanced (go_alphaAnswer verb path dec resp st) False" for verb path and dec :: "string \<Rightarrow> 'c option" and resp st
    unfolding go_alphaAnswer_def Let_def by (intro program_rules balanced_token)
  have op: "balanced (go_alphaOp c verb path body dec st) False" for verb path body and dec :: "string \<Rightarrow> 'c option" and st
    unfolding go_alphaOp_def by (intro program_rules balanced_token answer)
  have do: "balanced (go_alphaDo c verb path body dec zero) False" for verb path body and dec :: "string \<Rightarrow> 'c option" and zero
    unfolding go_alphaDo_def go_Do_def Let_def
    by (rule balanced_andThen [OF balanced_loop [OF op]]) (auto split: prod.split outcome.split option.split)
  show "balanced (go_alphaDo c verb path body dec zero) False" by (rule do)
  show "balanced (go_FetchDevices c) False" "balanced (go_FetchEvents c since) False"
    "balanced (go_alphaSendCommand c ext cmd) False"
    unfolding go_FetchDevices_def go_FetchEvents_def go_alphaSendCommand_def Let_def by (intro program_rules do)+
qed

lemma lockFree_pipeline: "lockFree (go_Accept e)" "lockFree (go_AcceptFromProvider ne)"
  "lockFree (go_DeadLetter src why body)" "lockFree (go_TransitionCommand uid to msg)" "lockFree (go_CreateCommand c)"
proof -
  show accept: "lockFree (go_Accept e)" for e
    unfolding go_Accept_def by (intro program_rules)
  show "lockFree (go_AcceptFromProvider ne)" "lockFree (go_DeadLetter src why body)"
    "lockFree (go_TransitionCommand uid to msg)" "lockFree (go_CreateCommand c)"
    unfolding go_AcceptFromProvider_def go_DeadLetter_def go_TransitionCommand_def go_CreateCommand_def Let_def
    by (intro program_rules accept)+
qed

lemmas balanced_pipeline = lockFree_pipeline [THEN balanced_lockFree]

lemma balanced_handlers:
  "balanced (go_postTelemetry a rq) False" "balanced (go_postEvent a rq) False" "balanced (go_getCommands rq) False"
  "balanced (go_postCommandResult a rq) False" "balanced (go_BetaGrid secret skew maxBytes rq) False"
  "balanced go_reaperTick False"
proof -
  show "balanced (go_postTelemetry a rq) False" "balanced (go_postEvent a rq) False" "balanced (go_getCommands rq) False"
    "balanced (go_postCommandResult a rq) False" "balanced go_reaperTick False"
    unfolding go_postTelemetry_def go_postEvent_def go_getCommands_def go_Poll_def go_postCommandResult_def
      go_ReportResult_def go_reaperTick_def Let_def
    by (intro program_rules balanced_pipeline)+
  have "balanced (go_handleAuthentic skew body) False" for body
    unfolding go_handleAuthentic_def go_gateDelivery_def go_processDelivery_def go_processEvent_def
      go_processHeartbeat_def go_DeadLetterReject_def
    by (intro program_rules balanced_pipeline)
  then show "balanced (go_BetaGrid secret skew maxBytes rq) False"
    unfolding go_BetaGrid_def by (auto split: bounded_body.split intro!: program_rules)
qed

lemma balanced_send:
  "balanced (go_SendCommand ttl (go_sendersOf cfg client) rq) False"
proof -
  have "balanced (send ext cmd) False" if "go_sendersOf cfg client p = Some send" for p send ext cmd
    using that by (auto simp: go_sendersOf_def balanced_alpha split: if_splits)
  then have dispatch: "balanced (go_dispatch send device cmd) False" if "go_sendersOf cfg client p = Some send" for p send device cmd
    unfolding go_dispatch_def using that by (intro program_rules balanced_pipeline)
  have "balanced (case r of
      CmdError e \<Rightarrow> if errIs e ErrDuplicate then Done (Inr zeroCommand) else Done (Inl e)
    | CmdExisting cmd \<Rightarrow> Done (Inr cmd)
    | CmdCreated cmd \<Rightarrow>
        doing (metricInc (CommandsCreated (c_Type c)))
          (case go_sendersOf cfg client p of Some send \<Rightarrow> go_dispatch send device cmd | None \<Rightarrow> Done (Inr cmd))) False"
    for r c p device
    by (cases r) (auto intro!: program_rules dispatch split: option.split)
  then have "balanced (go_enqueue (go_sendersOf cfg client p) device c) False" for p device c
    unfolding go_enqueue_def by (intro balanced_andThen balanced_pipeline)
  then show ?thesis
    unfolding go_SendCommand_def go_Create_def Let_def by (intro program_rules)
qed

lemma balanced_cycle: "balanced (go_cycle c lap since) False"
  unfolding go_cycle_def go_pollDevices_def go_pollEvents_def
  by (intro program_rules balanced_alpha balanced_pipeline)

lemma balanced_serve: "balanced (go_serve cfg ex rq) False"
proof (cases "muxFind (go_routes cfg ex) (in_method rq) (in_path rq)")
  case (MuxFound h vs)
  have auth: "balanced (go_auth a g rq) False" if "\<And>rq. balanced (g rq) False" for a g rq
    unfolding go_auth_def by (intro program_rules that)
  from muxFind_found [OF MuxFound] obtain pattern where "(pattern, h) \<in> set (go_routes cfg ex)" by blast
  then consider g route where "(pattern, g, route) \<in> set (go_wrappedRoutes cfg (ex_client ex))" "h = go_wrap g route"
    | g where "h = (\<lambda>rq. act (bare g rq))"
    by (auto simp: go_routes_def)
  then have "balanced (h rq') False" for rq'
  proof cases
    case (1 g route)
    then have "balanced (g rq) False" for rq
      by (auto simp: go_wrappedRoutes_def Let_def intro: auth balanced_handlers)
    then show ?thesis
      unfolding 1(2) go_wrap_def go_Middleware_def Let_def by (intro program_rules)
  qed (simp add: balanced_rules)
  then show ?thesis using MuxFound by (simp add: go_serve_def)
qed (simp_all add: go_serve_def)

lemma balanced_goroutine: "balanced (goroutine cfg ex en) False"
  by (cases en) (auto simp: giving_def balanced_serve balanced_send balanced_cycle balanced_handlers
      intro!: program_rules split: list.split)

section \<open>The interleavings of the connector\<close>

interpretation connector: concurrent "goroutine cfg ex" untouched_state sound safe for cfg ex
  by unfold_locales (auto intro: safe_refl safe_trans ok_goroutine dest: safe_untouched safe_sound)

end
