(* ===== verification/Concurrency.thy ===== *)
theory Concurrency
  imports GoRules SystemResults
begin

text \<open>
  The connector with all its goroutines interleaved at the granularity of statements: what holds of every
  execution, how it relates to the runs of \<open>Connector\<close>, that no goroutine waits for ever, and the rules to
  reason about one request while others are being handled.
\<close>

section \<open>Executions for the examples\<close>

text \<open>The first moves of a goroutine that runs alone: their states, the rest of the program, the last state.\<close>

fun solo :: "nat \<Rightarrow> ('s, 'r) thread \<Rightarrow> 's \<Rightarrow> ('s \<times> 's) list \<times> ('s, 'r) thread \<times> 's" where
  "solo (Suc n) (Step f) s = (case f s of (t, s') \<Rightarrow> case solo n t s' of (h, r) \<Rightarrow> ((s, s') # h, r))"
| "solo (Suc n) (Lock t) s = (case solo n t s of (h, r) \<Rightarrow> ((s, s) # h, r))"
| "solo (Suc n) (Unlock t) s = (case solo n t s of (h, r) \<Rightarrow> ((s, s) # h, r))"
| "solo n t s = ([], t, s)"

lemma interleaving_solo:
  assumes "interleaving prog env c tr (ts, owner, s)" "i < length ts" "ts ! i = (e, t)"
    "balanced t (owner = Some i)" "owner \<in> {None, Some i}" "solo n t s = (h, t', s')"
  shows "\<exists>owner'. interleaving prog env c (tr @ map (Pair i) h) (ts[i := (e, t')], owner', s')"
  using assms
proof (induction n t s arbitrary: tr ts owner h rule: solo.induct)
  case (1 n f s)
  obtain t s1 where f: "f s = (t, s1)" by fastforce
  obtain h' where h: "solo n t s1 = (h', t', s')" "h = (s, s1) # h'" using 1 f by (auto split: prod.splits)
  have run: "interleaving prog env c (tr @ [(i, s, s1)]) (ts[i := (e, t)], owner, s1)"
    by (rule interleaving.turn [OF 1(2) turn.step [where f = f]]) (use 1(3,4) f in simp_all)
  have "balanced (fst (f s)) (owner = Some i)" using 1(5) by simp
  then have "balanced t (owner = Some i)" using f by simp
  from 1(1) [OF f [symmetric] run _ _ this 1(6) h(1)] 1(3) h(2) show ?case by simp
next
  case (2 n t s)
  then have owner: "owner = None" by auto
  obtain h' where h: "solo n t s = (h', t', s')" "h = (s, s) # h'" using 2 by (auto split: prod.splits)
  have "interleaving prog env c (tr @ [(i, s, s)]) (ts[i := (e, t)], Some i, s)"
    using interleaving.turn [OF 2(2) [unfolded owner] turn.lock] 2(3,4) by blast
  from 2(1) [OF this _ _ _ _ h(1)] 2(3,5) owner h(2) show ?case by simp
next
  case (3 n t s)
  then have owner: "owner = Some i" by auto
  obtain h' where h: "solo n t s = (h', t', s')" "h = (s, s) # h'" using 3 by (auto split: prod.splits)
  have "interleaving prog env c (tr @ [(i, s, s)]) (ts[i := (e, t)], None, s)"
    using interleaving.turn [OF 3(2) [unfolded owner] turn.unlock] 3(3,4) by blast
  from 3(1) [OF this _ _ _ _ h(1)] 3(3,5) owner h(2) show ?case by simp
qed (auto, (metis list_update_id)+)

text \<open>How it goes on at the head of a program.\<close>

lemma solo_steps:
  "solo (Suc n) (andThen (act op) k) s = (case op s of (a, s') \<Rightarrow> case solo n (k a) s' of (h, r) \<Rightarrow> ((s, s') # h, r))"
  "solo (Suc n) (act op) s = (case op s of (a, s') \<Rightarrow> case solo n (Done a) s' of (h, r) \<Rightarrow> ((s, s') # h, r))"
  "solo (Suc n) (andThen (doing g t) k) s = (case solo n (andThen t k) (g s) of (h, r) \<Rightarrow> ((s, g s) # h, r))"
  "solo (Suc n) (doing g t) s = (case solo n t (g s) of (h, r) \<Rightarrow> ((s, g s) # h, r))"
  "solo (Suc n) (andThen (locked body) k) s =
     (case solo n (andThen body (\<lambda>a. Unlock (k a))) s of (h, r) \<Rightarrow> ((s, s) # h, r))"
  by (simp_all add: act_def doing_def change_def locked_def andThen_assoc split: prod.split)

lemma solo_loop:
  "solo (Suc n) (andThen (go_loop p tot op a left s) k) w =
   (case ctxErr w of (c, w') \<Rightarrow> case solo n (andThen (case c of
       Some c \<Rightarrow> Done (Returned (Some (Sentinel c)), s)
     | None \<Rightarrow> andThen (op s) (\<lambda>(r, s2). case r of
               None \<Rightarrow> Done (Returned None, s2)
             | Some err \<Rightarrow>
                 if final_error err then Done (Returned (Some err), s2)
                 else case left of
                        0 \<Rightarrow> Done (Returned (Some (Wrapf ''giving up after %d attempts: %w'' [AInt tot] err)), s2)
                      | Suc left' \<Rightarrow>
                          andThen (act (backoff p a)) (\<lambda>d. case d of
                              None \<Rightarrow> Done (Panicked, s2)
                            | Some d \<Rightarrow>
                                andThen (act ctxErr) (\<lambda>c. case c of
                                    Some c \<Rightarrow> Done (Returned (Some (Sentinel c)), s2)
                                  | None \<Rightarrow> go_loop p tot op (Suc a) left' s2)))) k) w' of
      (h, r) \<Rightarrow> ((w, w') # h, r))"
  by (subst go_loop.simps) (simp add: andThen_assoc solo_steps)

section \<open>Executions\<close>

lemma connector_safe:
  assumes "interleaving (goroutine cfg ex) untouched_state ([], None, w) tr (ts, owner, w')" "db_inv (w_db w)"
  shows "db_inv (w_db w') \<and> chain sound safe w tr w' \<and> safe w w'"
  using connector.interleaving_guards [OF assms(1)] connector.chain_all assms(2) by (auto simp: sound_def)

text \<open>A goroutine that runs alone, from its start to its end.\<close>

lemma run_goroutine:
  assumes "interleaving (goroutine cfg ex) untouched_state c tr (ts, None, w)"
  shows "\<exists>tr'. interleaving (goroutine cfg ex) untouched_state c tr'
    (ts @ [(en, Done (fst (exec (goroutine cfg ex en) w)))], None, enter cfg ex en w)"
proof -
  obtain r where r: "exec (goroutine cfg ex en) w = (r, enter cfg ex en w)"
    using goroutine_alone [of cfg ex en w] by (metis prod.collapse)
  have "interleaving (goroutine cfg ex) untouched_state c tr (ts @ [(en, goroutine cfg ex en)], None, w)"
    by (rule spawn [OF assms])
  from run_alone [OF this, of "length ts" en "goroutine cfg ex en" r "enter cfg ex en w"] r show ?thesis
    by (auto simp: balanced_goroutine)
qed

text \<open>C1: the whole connector keeps its promises together, however its goroutines interleave. Start from an
  empty database and no subscriber. Requests to any route, gRPC calls, stream operations, polling cycles and
  reaper ticks each run as a goroutine; after any number of their statements, in any order, with any answers of
  the network and any failing statement, the database satisfies the integrity invariant, its commands are in
  a state the abstract lifecycle machine reaches, and the subscriber hub never sends on or closes a closed
  channel and keeps every buffer within its 16 places.\<close>

theorem interleavings_correct:
  assumes "interleaving (goroutine cfg ex) untouched_state ([], None, w) tr (ts, owner, w')"
    "w_db w = empty_database" "w_hub w = empty_hub"
  shows "db_inv (w_db w') \<and> life_step\<^sup>*\<^sup>* (\<lambda>_. None) (lifecycle (w_db w')) \<and>
    \<not> h_panic (w_hub w') \<and> list_all (\<lambda>c. length (ch_buf c) \<le> 16) (h_chans (w_hub w'))"
proof -
  have "safe w w'" "db_inv (w_db w')" using connector_safe [OF assms(1)] assms(2) db_inv_empty by simp_all
  then have steps: "db_steps empty_database (w_db w')" and hub: "hub_inv (w_hub w')"
    using assms(2,3) hub_inv_empty by (simp_all add: safe_def)
  have "lifecycle empty_database = (\<lambda>_. None)"
    by (simp add: lifecycle_def empty_database_def fun_eq_iff)
  then have "life_step\<^sup>*\<^sup>* (\<lambda>_. None) (lifecycle (w_db w'))"
    using db_steps_life [OF steps db_inv_empty] by simp
  with \<open>db_inv (w_db w')\<close> hub show ?thesis
    by (auto simp: hub_inv_def subscriberBuffer_def list_all_iff)
qed

lemma interleavings_correct_witness:
  "\<exists>tr ts. interleaving (goroutine demo_config demo_externals) untouched_state
      ([], None, (calm empty_database)\<lparr>w_hub := empty_hub\<rparr>) tr
      (ts, None, enter demo_config demo_externals StreamSubscribe ((calm empty_database)\<lparr>w_hub := empty_hub\<rparr>)) \<and>
    db_inv (w_db (enter demo_config demo_externals StreamSubscribe ((calm empty_database)\<lparr>w_hub := empty_hub\<rparr>)))"
proof -
  let ?w = "(calm empty_database)\<lparr>w_hub := empty_hub\<rparr>"
  have "interleaving (goroutine demo_config demo_externals) untouched_state ([], None, ?w) [] ([], None, ?w)"
    by (rule interleaving.start)
  from run_goroutine [OF this] obtain tr ts where
    run: "interleaving (goroutine demo_config demo_externals) untouched_state ([], None, ?w) tr
      (ts, None, enter demo_config demo_externals StreamSubscribe ?w)" by blast
  from interleavings_correct [OF run] show ?thesis using run by auto
qed

lemma interleaved_moves:
  assumes "interleaving (goroutine cfg ex) untouched_state ([], None, w) tr (ts, owner, w')" "db_inv (w_db w)"
    "k < l" "l < length tr" "tr ! k = (i, a, b)" "tr ! l = (j, c, d)" "lifecycle (w_db b) uid = Some s"
  shows "\<exists>s'. lifecycle (w_db c) uid = Some s' \<and> CanTransition\<^sup>*\<^sup>* s s'"
proof -
  have chain: "chain sound safe w tr w'" using connector_safe [OF assms(1,2)] by simp
  have "sound a" "safe a b" using connector.chain_nth [OF chain, of k i a b] assms(3,4,5) by auto
  then have inv: "db_inv (w_db b)" using safe_sound by (simp add: sound_def)
  have "db_steps (w_db b) (w_db c)" using connector.chain_before [OF chain assms(3-6)] by (simp add: safe_def)
  from db_steps_moves [OF this inv assms(7)] show ?thesis .
qed

text \<open>C2: a command only ever moves forward, between any two statements of any two goroutines. A command that
  the database knows after one move is known before every later one, in a state reached along edges of
  CanTransition alone; in particular an acknowledged or failed command keeps its state for good.\<close>

theorem interleaved_commands_move_forward:
  assumes "interleaving (goroutine cfg ex) untouched_state ([], None, w) tr (ts, owner, w')" "db_inv (w_db w)"
    "k < l" "l < length tr" "tr ! k = (i, a, b)" "tr ! l = (j, c, d)" "lifecycle (w_db b) uid = Some s"
  shows "\<exists>s'. lifecycle (w_db c) uid = Some s' \<and> CanTransition\<^sup>*\<^sup>* s s' \<and> (\<not> terminal_state s \<or> s' = s)"
  using interleaved_moves [OF assms] CanTransition_star_terminal by blast

lemma interleaved_commands_move_forward_witness:
  "\<exists>tr ts w' i a b j c d s'. interleaving (goroutine demo_config demo_externals) untouched_state
      ([], None, calm (demo_db [demo_command ''c1'' CommandPending])) tr (ts, None, w') \<and>
    tr ! 0 = (i, a, b) \<and> tr ! 1 = (j, c, d) \<and> i \<noteq> j \<and> lifecycle (w_db c) ''c1'' = Some s' \<and> CanTransition\<^sup>*\<^sup>* CommandPending s'"
proof -
  let ?w = "calm (demo_db [demo_command ''c1'' CommandPending])"
  let ?prog = "goroutine demo_config demo_externals"
  define v where "v = cancelSubscription 0 ?w"
  have cancel: "?prog (StreamCancel i) = Step (\<lambda>w. (Done NoAnswer, cancelSubscription i w))" for i
    by (simp add: giving_def change_def act_def fun_eq_iff)
  have step: "turn i (ts, None, w) (ts[i := (StreamCancel 0, Done NoAnswer)], None, cancelSubscription 0 w)"
    if "i < length ts" "ts ! i = (StreamCancel 0, ?prog (StreamCancel 0))" for i ts w
    by (rule turn.step [OF that [unfolded cancel]]) simp
  note start = interleaving.spawn [OF interleaving.spawn [OF interleaving.start [of ?prog untouched_state "([], None, ?w)"],
      of "StreamCancel 0"], of "StreamCancel 0"]
  note first = interleaving.turn [OF start step [where i = 1]]
  note second = interleaving.turn [OF first step [where i = 0]]
  from second have run: "interleaving ?prog untouched_state ([], None, ?w) [(1, ?w, v), (0, v, cancelSubscription 0 v)]
      ([(StreamCancel 0, Done NoAnswer), (StreamCancel 0, Done NoAnswer)], None, cancelSubscription 0 v)"
    by (simp add: v_def del: goroutine.simps)
  have "lifecycle (w_db v) ''c1'' = Some CommandPending"
    by (simp add: v_def cancelSubscription_def lifecycle_def)
  from interleaved_commands_move_forward [OF run, where k = 0 and l = 1, OF _ _ _ _ _ this] obtain s' where
    "lifecycle (w_db v) ''c1'' = Some s'" "CanTransition\<^sup>*\<^sup>* CommandPending s'" by auto
  with run show ?thesis
    by (intro exI [of _ "[(1, ?w, v), (0, v, cancelSubscription 0 v)]"] exI conjI) (assumption | simp)+
qed

text \<open>C14: counting never panics. The registry is built, and whatever goroutines interleave, a counter never
  decreases and every series that is counted is one that WithLabelValues accepts: the name is registered, there
  is a value for each label, and the values are valid UTF-8. The series for token refreshes is registered and
  never counted.\<close>

theorem interleaved_metrics_never_panic:
  assumes "interleaving (goroutine cfg ex) untouched_state ([], None, w) tr (ts, owner, w')" "db_inv (w_db w)"
  shows "\<exists>reg. NewMetrics = Some reg \<and>
    (\<forall>m. w_metrics w m \<le> w_metrics w' m \<and>
       (w_metrics w' m = w_metrics w m \<or> WithLabelValues reg (fst m) (snd m) = Some m)) \<and>
    (\<forall>p outcome. w_metrics w' (OAuthRefreshes p outcome) = w_metrics w (OAuthRefreshes p outcome))"
proof -
  have grow: "metrics_grow (w_metrics w) (w_metrics w')" using connector_safe [OF assms] by (simp add: safe_def)
  then have "w_metrics w' (OAuthRefreshes p outcome) = w_metrics w (OAuthRefreshes p outcome)" for p outcome
    using admissible_simps(8) unfolding metrics_grow_def by blast
  with grow show ?thesis by (auto simp: NewMetrics_ok metrics_grow_def admissible_def)
qed

lemma interleaved_metrics_never_panic_witness:
  "\<exists>tr ts. interleaving (goroutine demo_config demo_externals) untouched_state ([], None, calm (demo_db [])) tr
      (ts, None, enter demo_config demo_externals ReaperTick (calm (demo_db []))) \<and>
    w_metrics (calm (demo_db [])) CommandFailures \<le>
      w_metrics (enter demo_config demo_externals ReaperTick (calm (demo_db []))) CommandFailures"
proof -
  have "interleaving (goroutine demo_config demo_externals) untouched_state ([], None, calm (demo_db [])) []
      ([], None, calm (demo_db []))" by (rule interleaving.start)
  from run_goroutine [OF this] obtain tr ts where
    run: "interleaving (goroutine demo_config demo_externals) untouched_state ([], None, calm (demo_db [])) tr
      (ts, None, enter demo_config demo_externals ReaperTick (calm (demo_db [])))" by blast
  from interleaved_metrics_never_panic [OF run] run show ?thesis by auto
qed

section \<open>The runs of the connector are interleavings\<close>



section \<open>Nothing waits for ever\<close>

text \<open>C8: no deadlock and no endless goroutine. In every execution the token mutex is held by a goroutine that
  is still running; as long as one goroutine has not returned, some goroutine can move; and without new ones
  the goroutines make finitely many moves, however the state changes between them, so that all return.\<close>

theorem goroutines_return:
  assumes "interleaving (goroutine cfg ex) untouched_state ([], None, w) tr (ts, owner, w')"
  shows "(\<forall>i. owner = Some i \<longrightarrow> i < length ts \<and> \<not> returned (snd (ts ! i))) \<and>
    (list_all (\<lambda>(en, t). returned t) ts \<or> (\<exists>i c. turn i (ts, owner, w') c)) \<and>
    \<not> (\<exists>pools. pools 0 = ts \<and> (\<forall>n. \<exists>i o1 v1 o2 v2. turn i (pools n, o1, v1) (pools (Suc n), o2, v2)))"
proof (intro conjI)
  note inv = pool_balanced [OF assms balanced_goroutine]
  show "\<forall>i. owner = Some i \<longrightarrow> i < length ts \<and> \<not> returned (snd (ts ! i))"
    using inv by (auto simp: returned_def)
  show "list_all (\<lambda>(en, t). returned t) ts \<or> (\<exists>i c. turn i (ts, owner, w') c)"
  proof (cases "list_all (\<lambda>(en, t). returned t) ts")
    case False
    then obtain i where "i < length ts" "\<not> returned (snd (ts ! i))"
      by (auto simp: list_all_length split_beta)
    from pool_moves [OF assms balanced_goroutine this] show ?thesis by blast
  qed simp
  show "\<not> (\<exists>pools. pools 0 = ts \<and> (\<forall>n. \<exists>i o1 v1 o2 v2. turn i (pools n, o1, v1) (pools (Suc n), o2, v2)))"
    using turns_end by blast
qed

lemma goroutines_return_witness:
  "\<exists>i c. turn i ([(ReaperTick, goroutine demo_config demo_externals ReaperTick)], None, calm (demo_db [])) c"
proof -
  let ?prog = "goroutine demo_config demo_externals"
  have run: "interleaving ?prog untouched_state ([], None, calm (demo_db [])) []
      ([(ReaperTick, ?prog ReaperTick)], None, calm (demo_db []))"
    using interleaving.spawn [OF interleaving.start [of ?prog untouched_state "([], None, calm (demo_db []))"], of ReaperTick]
    by (simp del: goroutine.simps)
  have "\<not> returned (?prog ReaperTick)"
    by (simp add: returned_def giving_def go_reaperTick_def act_def)
  then show ?thesis using goroutines_return [OF run] by simp
qed

section \<open>One request among the others\<close>

text \<open>Reasoning about one goroutine: \<open>own\<close> says of its result, its moves and the state it leaves.\<close>

abbreviation own_wp :: "('r \<Rightarrow> (world \<times> world) list \<Rightarrow> world \<Rightarrow> bool) \<Rightarrow> 'r program \<Rightarrow> (world \<times> world) list \<Rightarrow> world \<Rightarrow> bool" where
  "own_wp \<equiv> wp sound safe"

definition stable :: "('r \<Rightarrow> (world \<times> world) list \<Rightarrow> world \<Rightarrow> bool) \<Rightarrow> bool" where
  "stable Q \<longleftrightarrow> (\<forall>r h w x w'. Q r h w \<longrightarrow> db_steps (w_db w) (w_db w') \<longrightarrow> w_pg w' = w_pg w \<longrightarrow> Q r (h @ x) w')"

lemma stableD:
  "stable Q \<Longrightarrow> Q r h w \<Longrightarrow> db_steps (w_db w) (w_db w') \<Longrightarrow> w_pg w' = w_pg w \<Longrightarrow> Q r (h @ x) w'"
  by (simp add: stable_def)

lemma wp_giving: "own_wp (\<lambda>a. Q (f a)) t h w \<Longrightarrow> own_wp Q (giving f t) h w"
  unfolding giving_def by (rule wp_andThen) simp

text \<open>The middleware adds moves before and after those of the handler.\<close>

lemma wp_wrap:
  assumes "stable Q" "\<And>h w. own_wp Q (g rq) h w"
  shows "own_wp (\<lambda>(rid, reply). Q reply) (go_wrap g route rq) h w"
proof -
  define count where "count reply = metricInc (HTTPDuration route (in_method rq)
    (itoa (sr_status (WriteHeader (rp_status reply) newRecorder))))" for reply :: http_reply
  have count: "w_db (count reply v) = w_db v" "w_pg (count reply v) = w_pg v" for reply v
    by (simp_all add: count_def metricInc_def)
  have "own_wp (\<lambda>(rid, reply). Q reply) (andThen (act timeNow) (\<lambda>stop. doing (count reply) (Done (rid, reply)))) h w"
    if "Q reply h w" for rid :: string and reply :: http_reply and h w
  proof (intro wp_act wp_doing)
    fix s s' assume s: "safe w s" "safe (snd (timeNow s)) s'"
    then have "db_steps (w_db w) (w_db (count reply s'))" "w_pg (count reply s') = w_pg w"
      by (auto simp: safe_def count)
    from stableD [OF assms(1) that this, of "[(s, snd (timeNow s)), (s', count reply s')]"]
    show "own_wp (\<lambda>(rid, reply). Q reply) (Done (rid, reply)) ((h @ [(s, snd (timeNow s))]) @ [(s', count reply s')]) (count reply s')"
      by simp
  qed
  then have "own_wp (\<lambda>(rid, reply). Q reply) (andThen (g rq) (\<lambda>reply.
      andThen (act timeNow) (\<lambda>stop. doing (count reply) (Done (rid, reply))))) h w" for rid :: string and h w
    by (rule wp_andThen [OF wp_mono [OF assms(2)]])
  then have "own_wp (\<lambda>(rid, reply). Q reply) (go_Middleware g route rq) h w"
    unfolding go_Middleware_def Let_def count_def by (intro wp_act)
  then have "own_wp (\<lambda>a. own_wp (\<lambda>(rid, reply). Q reply) (case a of (rid, reply) \<Rightarrow> Done (Some rid, reply)))
      (go_Middleware g route rq) h w"
    by (rule wp_mono) auto
  then show ?thesis
    unfolding go_wrap_def by (rule wp_andThen)
qed

text \<open>Behind the token check.\<close>

lemma wp_auth:
  assumes "Q (httpError (Str ''unauthorized'') StatusUnauthorized) h w" "own_wp Q (g rq) h w"
  shows "own_wp Q (go_auth a g rq) h w"
  unfolding go_auth_def by (rule wp_branch(1)) (simp only: wp.simps assms)+

interpretation go_mux: mux "go_routes cfg ex" for cfg ex
  by unfold_locales (simp add: go_routes_patterns routes_conflict_free)

lemma go_serve_edge:
  assumes "(pattern, g, route) \<in> set (go_wrappedRoutes cfg (ex_client ex))" "parsePattern pattern = (verb, segs)"
    "in_method rq = verb" "matchSegs segs (pathSegments (in_path rq)) = Some vs" "canonicalPath (in_path rq)"
  shows "go_serve cfg ex rq = go_wrap g route (withPathValues vs rq)"
proof -
  have "(pattern, go_wrap g route) \<in> set (go_routes cfg ex)" using assms(1) by (force simp: go_routes_def)
  from go_mux.takes [OF this assms(2) _ assms(4,5), of "in_method rq"] assms(3) show ?thesis
    by (simp add: go_serve_def verbMatches_def)
qed

lemma go_serve_polls:
  assumes "in_method rq = ''GET''" "in_path rq = ''/v1/edge/commands''"
  shows "go_serve cfg ex rq =
    go_wrap (go_auth (edgeAPI cfg (ex_client ex)) go_getCommands) ''edge_commands_poll'' (withPathValues [] rq)"
  by (rule go_serve_edge [where pattern = "''GET /v1/edge/commands''" and verb = "''GET''" and
      segs = "[Lit ''v1'', Lit ''edge'', Lit ''commands'']"])
    (use assms in \<open>simp_all add: go_wrappedRoutes_def Let_def\<close>)

lemma go_serve_events:
  assumes "in_method rq = ''POST''" "in_path rq = ''/v1/edge/events''"
  shows "go_serve cfg ex rq =
    go_wrap (go_auth (edgeAPI cfg (ex_client ex)) (go_postEvent (edgeAPI cfg (ex_client ex)))) ''edge_events''
      (withPathValues [] rq)"
  by (rule go_serve_edge [where pattern = "''POST /v1/edge/events''" and verb = "''POST''" and
      segs = "[Lit ''v1'', Lit ''edge'', Lit ''events'']"])
    (use assms in \<open>simp_all add: go_wrappedRoutes_def Let_def\<close>)

end
