(* ===== verification/Overlaps.thy ===== *)
theory Overlaps
  imports Concurrency
begin

text \<open>
  What clients may rely on while the connector handles their requests at the same time: polls share out the
  commands, reports of one event are told apart, and calls with one idempotency key get one command.
\<close>

section \<open>Examples of two requests\<close>

text \<open>Two goroutines, one after the other, for the examples.\<close>

lemma two_goroutines:
  "\<exists>tr. interleaving (goroutine cfg ex) untouched_state ([], None, w) tr
     ([(en, Done (fst (exec (goroutine cfg ex en) w))),
       (en', Done (fst (exec (goroutine cfg ex en') (enter cfg ex en w))))], None, enter cfg ex en' (enter cfg ex en w))"
proof -
  have "interleaving (goroutine cfg ex) untouched_state ([], None, w) [] ([], None, w)" by (rule interleaving.start)
  from run_goroutine [OF this, of en] obtain tr where
    "interleaving (goroutine cfg ex) untouched_state ([], None, w) tr
      ([] @ [(en, Done (fst (exec (goroutine cfg ex en) w)))], None, enter cfg ex en w)" by blast
  from run_goroutine [OF this, of en'] show ?thesis by simp
qed

lemma exec_http: "fst (exec (goroutine cfg ex (Http rq)) w) = HttpAnswer (fst (fst (serve cfg ex rq w))) (snd (fst (serve cfg ex rq w)))"
  by (simp add: exec_serve split: prod.split)

section \<open>Overlapping polls\<close>

text \<open>A device keeps its identifier, provider and external identifier.\<close>

definition device_tags :: "database \<Rightarrow> (string \<times> (ProviderName \<times> string)) set" where
  "device_tags db = (\<lambda>r. (dv_id r, device_key r)) ` set (t_devices db)"

lemma db_step_device_tags: "db_step db db' \<Longrightarrow> device_tags db \<subseteq> device_tags db'"
proof (induction rule: db_step.induct)
  case (upsert pg uid d now db a db')
  then show ?case
    by (auto simp: upsertDevice_sql_def with_uuid_def Let_def device_tags_def update_where_image
        split: option.splits if_splits)
next
  case (touch pg uid st seen now db u db')
  then show ?case
    by (auto simp: touchDevice_sql_def with_uuid_def Let_def device_tags_def update_where_image device_key_def
        split: option.splits if_splits)
next
  case (create pg c payload now db n db')
  then show ?case by (auto simp: device_tags_def elim!: insertCommand_InrE)
qed (auto simp: stmt_defs device_tags_def split: option.splits if_splits)

lemma db_steps_device_tags: "db_steps db db' \<Longrightarrow> device_tags db \<subseteq> device_tags db'"
  by (induction rule: rtranclp_induct) (auto dest: db_step_device_tags)

definition polled :: "string \<Rightarrow> http_reply \<Rightarrow> (world \<times> world) list \<Rightarrow> world \<Rightarrow> bool" where
  "polled ext reply h w \<longleftrightarrow> rp_status reply = 200 \<longrightarrow>
     (\<exists>cs. rp_body reply = JsonDoc (JObj [(''commands'', JArr (map commandWire cs))]) \<and>
       (\<forall>c\<in>set cs. (\<exists>dev. (dev, ProviderGuardianEdge, ext) \<in> device_tags (w_db w) \<and>
           pg_uuid (w_pg w) dev = Some (c_DeviceID c))) \<and>
       (cs \<noteq> [] \<longrightarrow> (\<exists>(a, b)\<in>set h. \<forall>c\<in>set cs. lifecycle (w_db a) (c_ID c) = Some CommandPending \<and>
           lifecycle (w_db b) (c_ID c) = Some CommandDelivered)))"

lemma stable_polled: "stable (polled ext)"
  unfolding stable_def
proof (intro allI impI)
  fix reply h x and w w' :: world
  assume p: "polled ext reply h w" and steps: "db_steps (w_db w) (w_db w')" and pg: "w_pg w' = w_pg w"
  have "device_tags (w_db w) \<subseteq> device_tags (w_db w')" by (rule db_steps_device_tags [OF steps])
  with p show "polled ext reply (h @ x) w'" by (fastforce simp: polled_def pg)
qed

lemma wp_Poll:
  "own_wp (\<lambda>r h' w'. safe w w' \<and> (\<forall>cs. r = Inr cs \<longrightarrow> (\<exists>a b. (a, b) \<in> set h' \<and> sound a \<and> safe w a \<and>
     FetchPendingCommands dev 10 a = (Inr cs, b)))) (go_Poll dev 10) h w"
  unfolding go_Poll_def
proof (intro wp_act)
  fix a assume a: "sound a" "safe w a"
  let ?op = "FetchPendingCommands dev 10" and ?count = "\<lambda>n. repeatInc n (CommandTransitions CommandDelivered)"
  have b: "safe w (snd (?op a))" using a(2) step_safe(7) safe_trans by blast
  have count: "safe v (?count n v)" for n v by (rule step_safe) simp
  show "own_wp (\<lambda>r h' w'. safe w w' \<and> (\<forall>cs. r = Inr cs \<longrightarrow> (\<exists>a b. (a, b) \<in> set h' \<and> sound a \<and> safe w a \<and>
      ?op a = (Inr cs, b)))) (case fst (?op a) of Inl e \<Rightarrow> Done (Inl e)
        | Inr cmds \<Rightarrow> doing (?count (length cmds)) (Done (Inr cmds))) (h @ [(a, snd (?op a))]) (snd (?op a))"
  proof (intro wp_branch(2) wp_doing)
    fix cs s assume cs: "fst (?op a) = Inr cs" and s: "safe (snd (?op a)) s"
    have "safe w (?count (length cs) s)" using b s count safe_trans by blast
    moreover have "?op a = (Inr cs, snd (?op a))" using cs by (simp add: prod_eq_iff)
    ultimately show "own_wp (\<lambda>r h' w'. safe w w' \<and> (\<forall>cs. r = Inr cs \<longrightarrow> (\<exists>a b. (a, b) \<in> set h' \<and> sound a \<and>
        safe w a \<and> ?op a = (Inr cs, b)))) (Done (Inr cs))
      ((h @ [(a, snd (?op a))]) @ [(s, ?count (length cs) s)]) (?count (length cs) s)"
      using a by auto
  qed (simp add: b)
qed

lemma wp_getCommands: "own_wp (polled (in_query rq ''deviceId'')) (go_getCommands rq) h w"
  unfolding go_getCommands_def Let_def
proof (intro wp_branch(1) wp_act)
  let ?ext = "in_query rq ''deviceId''"
  let ?find = "FindDeviceByExternalID ProviderGuardianEdge ?ext"
  fix a assume a: "sound a" "safe w a"
  show "own_wp (polled ?ext) (case fst (?find a) of
      Inl e \<Rightarrow> if errIs e ErrNotFound then Done (jsonReply StatusOK (JObj [(''commands'', JArr [])])) else Done internalError
    | Inr device \<Rightarrow> andThen (go_Poll (d_ID device) 10) (\<lambda>r. case r of Inl e \<Rightarrow> Done internalError
        | Inr cmds \<Rightarrow> Done (jsonReply StatusOK (JObj [(''commands'', JArr (map commandWire cmds))]))))
    (h @ [(a, snd (?find a))]) (snd (?find a))"
  proof (intro wp_branch(1,2))
    fix device assume "fst (?find a) = Inr device"
    then obtain b where b: "?find a = (Inr device, b)" by (metis prod.collapse)
    from FindDeviceByExternalID_Inr [OF b] have "(d_ID device, ProviderGuardianEdge, ?ext) \<in> device_tags (w_db b)"
      by (auto simp: device_tags_def scan_device_row_def intro!: rev_image_eqI)
    then have tag: "(d_ID device, ProviderGuardianEdge, ?ext) \<in> device_tags (w_db w')" if "safe b w'" for w'
      using that db_steps_device_tags by (auto simp: safe_def)
    have "own_wp (polled ?ext) (case r of Inl e \<Rightarrow> Done internalError
        | Inr cmds \<Rightarrow> Done (jsonReply StatusOK (JObj [(''commands'', JArr (map commandWire cmds))]))) h' w'"
      if "safe b w'" "\<forall>cs. r = Inr cs \<longrightarrow> (\<exists>p q. (p, q) \<in> set h' \<and> sound p \<and> safe b p \<and>
        FetchPendingCommands (d_ID device) 10 p = (Inr cs, q))" for r h' w'
    proof (cases r)
      case (Inr cs)
      with that(2) obtain p q where m: "(p, q) \<in> set h'" "sound p" "safe b p"
        "FetchPendingCommands (d_ID device) 10 p = (Inr cs, q)" by blast
      have inv: "db_inv (w_db p)" using m(2) by (simp add: sound_def)
      have pg: "w_pg w' = w_pg p" using m(3) that(1) by (simp add: safe_def)
      have "pg_uuid (w_pg w') (d_ID device) = Some (c_DeviceID c)" if "c \<in> set cs" for c
        using FetchPendingCommands_owner [OF m(4) inv] that by (simp add: list_all_iff pg)
      moreover have "\<forall>c\<in>set cs. lifecycle (w_db p) (c_ID c) = Some CommandPending \<and>
          lifecycle (w_db q) (c_ID c) = Some CommandDelivered"
        using FetchPendingCommands_lifecycle [OF m(4) inv] by simp
      ultimately show ?thesis
        using Inr tag [OF that(1)] m(1) by (auto simp: polled_def jsonReply_def intro!: exI [of _ cs])
    qed (simp add: polled_def internalError_def)
    then show "own_wp (polled ?ext) (andThen (go_Poll (d_ID device) 10) (\<lambda>r. case r of Inl e \<Rightarrow> Done internalError
        | Inr cmds \<Rightarrow> Done (jsonReply StatusOK (JObj [(''commands'', JArr (map commandWire cmds))]))))
      (h @ [(a, snd (?find a))]) (snd (?find a))"
      unfolding b snd_conv by (intro wp_andThen wp_mono [OF wp_Poll]) blast
  qed (auto simp: polled_def jsonReply_def internalError_def intro!: exI [of _ "[]"])
qed (simp add: polled_def badRequest_def)

lemma wp_polls:
  assumes "in_method rq = ''GET''" "in_path rq = ''/v1/edge/commands''"
  shows "own_wp (\<lambda>r h w. \<forall>rid reply. r = HttpAnswer rid reply \<longrightarrow> polled (in_query rq ''deviceId'') reply h w)
    (goroutine cfg ex (Http rq)) h w"
proof -
  let ?a = "edgeAPI cfg (ex_client ex)" and ?Q = "polled (in_query rq ''deviceId'')" and ?rq = "withPathValues [] rq"
  have "own_wp (\<lambda>(rid, reply). ?Q reply) (go_wrap (go_auth ?a go_getCommands) ''edge_commands_poll'' ?rq) h w"
  proof (rule wp_wrap [OF stable_polled])
    show "own_wp ?Q (go_auth ?a go_getCommands ?rq) h w" for h w
      using wp_getCommands [of ?rq h w] by (intro wp_auth) (simp_all add: polled_def)
  qed
  then show ?thesis
    unfolding goroutine.simps go_serve_polls [OF assms] by (intro wp_giving) (rule wp_mono, assumption, auto)
qed

text \<open>What a goroutine did that has answered a poll.\<close>

lemma poll_answered:
  assumes "interleaving (goroutine cfg ex) untouched_state ([], None, w) tr (ts, owner, w')" "db_inv (w_db w)"
    "i < length ts" "ts ! i = (Http rq, Done (HttpAnswer rid reply))"
    "in_method rq = ''GET''" "in_path rq = ''/v1/edge/commands''"
  shows "\<exists>v. safe v w' \<and> polled (in_query rq ''deviceId'') reply (own i tr) v"
proof -
  define Q where "Q en r h v \<longleftrightarrow> (\<forall>rid reply. en = Http rq \<longrightarrow> r = HttpAnswer rid reply \<longrightarrow>
    polled (in_query rq ''deviceId'') reply h v)" for en r h v
  have "own_wp (Q en) (goroutine cfg ex en) [] v" for en v
  proof (cases "en = Http rq")
    case True
    show ?thesis unfolding True
      by (rule wp_mono [OF wp_polls [OF assms(5,6)]]) (simp add: Q_def)
  qed (auto intro!: wp_True simp: Q_def)
  from connector.result_wp [OF assms(1) _ this assms(3,4)] assms(2) show ?thesis by (auto simp: sound_def Q_def)
qed

text \<open>The commands of such an answer were claimed in a move of the goroutine's own, and no command is
  claimed twice: between two claims it would have had to become pending again.\<close>

definition claimed_by :: "nat \<Rightarrow> string \<Rightarrow> (nat \<times> world \<times> world) list \<Rightarrow> bool" where
  "claimed_by i uid tr \<longleftrightarrow> (\<exists>k<length tr. \<exists>a b. tr ! k = (i, a, b) \<and>
     lifecycle (w_db a) uid = Some CommandPending \<and> lifecycle (w_db b) uid = Some CommandDelivered)"

lemma poll_claims:
  assumes "interleaving (goroutine cfg ex) untouched_state ([], None, w) tr (ts, owner, w')" "db_inv (w_db w)"
    "i < length ts" "ts ! i = (Http rq, Done (HttpAnswer rid reply))"
    "in_method rq = ''GET''" "in_path rq = ''/v1/edge/commands''" "rp_status reply = 200"
  shows "\<exists>cs. rp_body reply = JsonDoc (JObj [(''commands'', JArr (map commandWire cs))]) \<and>
    (\<forall>c\<in>set cs. (\<exists>row\<in>set (t_devices (w_db w')). device_key row = (ProviderGuardianEdge, in_query rq ''deviceId'') \<and>
      pg_uuid (w_pg w') (dv_id row) = Some (c_DeviceID c)) \<and> claimed_by i (c_ID c) tr)"
proof -
  from poll_answered [OF assms(1-6)] obtain v where v: "safe v w'" "polled (in_query rq ''deviceId'') reply (own i tr) v"
    by blast
  then obtain cs where cs: "rp_body reply = JsonDoc (JObj [(''commands'', JArr (map commandWire cs))])"
    "\<forall>c\<in>set cs. \<exists>dev. (dev, ProviderGuardianEdge, in_query rq ''deviceId'') \<in> device_tags (w_db v) \<and>
      pg_uuid (w_pg v) dev = Some (c_DeviceID c)"
    "cs \<noteq> [] \<longrightarrow> (\<exists>(a, b)\<in>set (own i tr). \<forall>c\<in>set cs. lifecycle (w_db a) (c_ID c) = Some CommandPending \<and>
       lifecycle (w_db b) (c_ID c) = Some CommandDelivered)"
    using assms(7) unfolding polled_def by blast
  have "device_tags (w_db v) \<subseteq> device_tags (w_db w')" "w_pg w' = w_pg v"
    using v(1) db_steps_device_tags by (auto simp: safe_def)
  then have "\<exists>row\<in>set (t_devices (w_db w')). device_key row = (ProviderGuardianEdge, in_query rq ''deviceId'') \<and>
      pg_uuid (w_pg w') (dv_id row) = Some (c_DeviceID c)" if "c \<in> set cs" for c
    using cs(2) that by (fastforce simp: device_tags_def)
  moreover have "claimed_by i (c_ID c) tr" if "c \<in> set cs" for c
  proof -
    from cs(3) that obtain a b where own: "(a, b) \<in> set (own i tr)" "lifecycle (w_db a) (c_ID c) = Some CommandPending"
      "lifecycle (w_db b) (c_ID c) = Some CommandDelivered" by fastforce
    from own_nth [OF own(1)] own(2,3) show ?thesis unfolding claimed_by_def by blast
  qed
  ultimately show ?thesis using cs(1) by blast
qed

lemma claimed_once:
  assumes "interleaving (goroutine cfg ex) untouched_state ([], None, w) tr (ts, owner, w')" "db_inv (w_db w)"
    "claimed_by i uid tr" "claimed_by j uid tr"
  shows "i = j"
proof (rule ccontr)
  assume "i \<noteq> j"
  have later: False if k: "k < l" "l < length tr" "tr ! k = (m, a, b)" "tr ! l = (n, p, q)"
    "lifecycle (w_db b) uid = Some CommandDelivered" "lifecycle (w_db p) uid = Some CommandPending" for k l m n a b p q
  proof -
    from interleaved_moves [OF assms(1,2) k(1-5)] k(6) have "CanTransition\<^sup>*\<^sup>* CommandDelivered CommandPending" by auto
    from CanTransition_star_rank [OF this] show False by (simp add: state_rank_def)
  qed
  from assms(3) obtain k a b where k: "k < length tr" "tr ! k = (i, a, b)" "lifecycle (w_db a) uid = Some CommandPending"
    "lifecycle (w_db b) uid = Some CommandDelivered" unfolding claimed_by_def by blast
  from assms(4) obtain l p q where l: "l < length tr" "tr ! l = (j, p, q)" "lifecycle (w_db p) uid = Some CommandPending"
    "lifecycle (w_db q) uid = Some CommandDelivered" unfolding claimed_by_def by blast
  have "k \<noteq> l" using k(2) l(2) \<open>i \<noteq> j\<close> by auto
  then show False
    using later [OF _ l(1) k(2) l(2) k(4) l(3)] later [OF _ k(1) l(2) k(2) l(4) k(3)] by linarith
qed



section \<open>Overlapping reports\<close>

definition admitted :: "ProviderName \<times> string \<Rightarrow> bool \<Rightarrow> (world \<times> world) list \<Rightarrow> world \<Rightarrow> bool" where
  "admitted key known h w \<longleftrightarrow> key \<in> hazard_keys (w_db w) \<and>
     (\<exists>a b. (a, b) \<in> set h \<and> (known \<longleftrightarrow> key \<in> hazard_keys (w_db a)) \<and> key \<in> hazard_keys (w_db b)) \<and>
     (\<not> known \<longrightarrow> (\<exists>a b e. (a, b) \<in> set h \<and> hazard_key e = key \<and> w_hub b = hubPublish e (w_hub a)))"

lemma admitted_stable: "admitted key known h w \<Longrightarrow> db_steps (w_db w) (w_db w') \<Longrightarrow> admitted key known (h @ x) w'"
  using hazards.steps_keep [of "w_db w" "w_db w'"] by (auto simp: admitted_def)

lemma admitted_new:
  "key \<in> hazard_keys (w_db w) \<Longrightarrow> (a, b) \<in> set h \<Longrightarrow> key \<notin> hazard_keys (w_db a) \<Longrightarrow> key \<in> hazard_keys (w_db b) \<Longrightarrow>
   (u, v) \<in> set h \<Longrightarrow> hazard_key e = key \<Longrightarrow> w_hub v = hubPublish e (w_hub u) \<Longrightarrow> admitted key False h w"
  unfolding admitted_def by blast

lemma wp_Accept:
  "own_wp (\<lambda>r h w. \<forall>known. r = Inr known \<longrightarrow> admitted (hazard_key e) known h w) (go_Accept e) h w"
  unfolding go_Accept_def
proof (intro wp_doing wp_branch(3) wp_act)
  let ?Q = "\<lambda>r h w. \<forall>known. r = Inr known \<longrightarrow> admitted (hazard_key e) known h w"
  fix s a h
  assume a: "sound a"
  show "own_wp ?Q (case fst (InsertHazardEvent e a) of
      Inl err \<Rightarrow>
        if errIs err ErrDuplicate then doing (metricInc (EventsDuplicate (e_Source e))) (Done (Inr True))
        else doing (metricInc (EventsFailed (e_Source e) ''storage'')) (Done (Inl err))
    | Inr stored \<Rightarrow> doing (metricInc (EventsProcessed (e_Source e))) (doing (publish stored) (Done (Inr False))))
    (h @ [(a, snd (InsertHazardEvent e a))]) (snd (InsertHazardEvent e a))"
  proof (intro wp_branch(1,2) wp_doing)
    fix err v assume err: "fst (InsertHazardEvent e a) = Inl err" "errIs err ErrDuplicate"
      and v: "safe (snd (InsertHazardEvent e a)) v"
    obtain b where b: "InsertHazardEvent e a = (Inl err, b)" using err(1) by (metis prod.collapse)
    from InsertHazardEvent_duplicate [OF b err(2)] have
      "hazard_key e \<in> hazard_keys (w_db a) \<and> hazard_key e \<in> hazard_keys (w_db b)" by simp
    then have "admitted (hazard_key e) True (h @ [(a, b)]) b" by (auto simp: admitted_def)
    moreover have "db_steps (w_db b) (w_db (metricInc m v))" for m using v b by (simp add: safe_def metricInc_def)
    ultimately show "own_wp ?Q (Done (Inr True)) ((h @ [(a, snd (InsertHazardEvent e a))]) @
        [(v, metricInc (EventsDuplicate (e_Source e)) v)]) (metricInc (EventsDuplicate (e_Source e)) v)"
      using admitted_stable by (simp only: wp.simps b snd_conv) blast
  next
    fix stored v u assume stored: "fst (InsertHazardEvent e a) = Inr stored"
      and v: "safe (snd (InsertHazardEvent e a)) v" and u: "safe (metricInc (EventsProcessed (e_Source e)) v) u"
    obtain b where b: "InsertHazardEvent e a = (Inr stored, b)" using stored by (metis prod.collapse)
    then have "es_InsertHazardEvent storage_event_store e a = (Inr stored, b)" by (simp add: storage_event_store_def)
    from storage.insert_stored [OF this] have new: "stored = e\<lparr>e_ID := e_ID stored\<rparr>"
      "hazard_key e \<notin> hazard_keys (w_db a)" "hazard_key e \<in> hazard_keys (w_db b)" by simp_all
    have key: "hazard_key stored = hazard_key e" by (subst new(1)) (simp add: hazard_key_def)
    have "db_steps (w_db b) (w_db v)" "db_steps (w_db v) (w_db (publish stored u))"
      using v u b by (simp_all add: safe_def metricInc_def publish_def)
    then have "db_steps (w_db b) (w_db (publish stored u))" by (rule rtranclp_trans)
    then have "hazard_key e \<in> hazard_keys (w_db (publish stored u))" using hazards.steps_keep new(3) by blast
    moreover have "w_hub (publish stored u) = hubPublish stored (w_hub u)" by (simp add: publish_def)
    ultimately show "own_wp ?Q (Done (Inr False)) (((h @ [(a, snd (InsertHazardEvent e a))]) @
        [(v, metricInc (EventsProcessed (e_Source e)) v)]) @ [(u, publish stored u)]) (publish stored u)"
      using new(2,3) key by (auto simp: b intro!: admitted_new [where a = a and b = b and u = u and e = stored])
  qed simp
qed simp

definition reported :: "eventRequest \<Rightarrow> http_reply \<Rightarrow> (world \<times> world) list \<Rightarrow> world \<Rightarrow> bool" where
  "reported req reply h w \<longleftrightarrow> rp_status reply = 202 \<longrightarrow>
     (\<exists>known. rp_body reply = JsonDoc (JObj [(''duplicate'', JBool known), (''status'', JStr ''accepted'')]) \<and>
       admitted (ProviderGuardianEdge, eq_EventID req) known h w)"

lemma stable_reported: "stable (reported req)"
  unfolding stable_def reported_def using admitted_stable by blast

lemma wp_postEvent:
  assumes "decode a unmarshalEvent rq = Inr req"
  shows "own_wp (reported req) (go_postEvent a rq) h w"
  unfolding go_postEvent_def assms sum.case
proof (intro wp_branch(1,2) wp_act)
  fix h and w :: world and dev now
  have key: "hazard_key (eventOf req dev now) = (ProviderGuardianEdge, eq_EventID req)"
    by (simp add: hazard_key_def eventOf_def)
  have "own_wp (reported req) (case acc of
      Inl e \<Rightarrow> (case asRejected e of Some rej \<Rightarrow> Done (httpError (ErrText rej) StatusBadRequest) | None \<Rightarrow> Done internalError)
    | Inr duplicate \<Rightarrow> Done (jsonReply StatusAccepted (JObj [(''duplicate'', JBool duplicate), (''status'', JStr ''accepted'')]))) h w"
    if "\<forall>known. acc = Inr known \<longrightarrow> admitted (ProviderGuardianEdge, eq_EventID req) known h w" for acc h w
    using that by (auto simp: reported_def jsonReply_def internalError_def split: sum.split option.split)
  then show "own_wp (reported req) (andThen (go_Accept (eventOf req dev now)) (\<lambda>acc. case acc of
      Inl e \<Rightarrow> (case asRejected e of Some rej \<Rightarrow> Done (httpError (ErrText rej) StatusBadRequest) | None \<Rightarrow> Done internalError)
    | Inr duplicate \<Rightarrow> Done (jsonReply StatusAccepted (JObj [(''duplicate'', JBool duplicate), (''status'', JStr ''accepted'')])))) h w"
    by (intro wp_andThen wp_mono [OF wp_Accept]) (simp add: key)
qed (simp_all add: reported_def badRequest_def internalError_def)

lemma wp_reports:
  assumes "in_method rq = ''POST''" "in_path rq = ''/v1/edge/events''" "decode (edgeAPI cfg (ex_client ex)) unmarshalEvent rq = Inr req"
  shows "own_wp (\<lambda>r h w. \<forall>rid reply. r = HttpAnswer rid reply \<longrightarrow> reported req reply h w) (goroutine cfg ex (Http rq)) h w"
proof -
  let ?a = "edgeAPI cfg (ex_client ex)" and ?rq = "withPathValues [] rq"
  have "own_wp (\<lambda>(rid, reply). reported req reply) (go_wrap (go_auth ?a (go_postEvent ?a)) ''edge_events'' ?rq) h w"
  proof (rule wp_wrap [OF stable_reported])
    show "own_wp (reported req) (go_auth ?a (go_postEvent ?a) ?rq) h w" for h w
      using wp_postEvent [of ?a ?rq req h w] assms(3) by (intro wp_auth) (simp_all add: reported_def)
  qed
  then show ?thesis
    unfolding goroutine.simps go_serve_events [OF assms(1,2)] by (intro wp_giving) (rule wp_mono, assumption, auto)
qed

text \<open>A report that cannot be decoded is not answered 202.\<close>

lemma wp_unreadable:
  assumes "in_method rq = ''POST''" "in_path rq = ''/v1/edge/events''" "decode (edgeAPI cfg (ex_client ex)) unmarshalEvent rq = Inl rep"
  shows "own_wp (\<lambda>r h w. \<forall>rid reply. r = HttpAnswer rid reply \<longrightarrow> rp_status reply \<noteq> 202) (goroutine cfg ex (Http rq)) h w"
proof -
  let ?a = "edgeAPI cfg (ex_client ex)" and ?rq = "withPathValues [] rq"
  have rep: "rp_status rep \<noteq> 202"
    using assms(3) by (auto simp: decode_def badRequest_def split: bounded_body.splits option.splits)
  have "own_wp (\<lambda>(rid, reply) h w. rp_status reply \<noteq> 202) (go_wrap (go_auth ?a (go_postEvent ?a)) ''edge_events'' ?rq) h w"
    using wp_wrap [where Q = "\<lambda>reply h w. rp_status reply \<noteq> 202" and g = "go_auth ?a (go_postEvent ?a)" and rq = ?rq]
    by (simp add: stable_def go_auth_def go_postEvent_def assms(3) rep case_prod_unfold)
  then show ?thesis
    unfolding goroutine.simps go_serve_events [OF assms(1,2)] by (intro wp_giving) (rule wp_mono, assumption, auto)
qed

lemma report_answered:
  assumes "interleaving (goroutine cfg ex) untouched_state ([], None, w) tr (ts, owner, w')" "db_inv (w_db w)"
    "i < length ts" "ts ! i = (Http rq, Done (HttpAnswer rid reply))"
    "in_method rq = ''POST''" "in_path rq = ''/v1/edge/events''" "rp_status reply = 202"
  shows "\<exists>req v. decode (edgeAPI cfg (ex_client ex)) unmarshalEvent rq = Inr req \<and> safe v w' \<and>
    reported req reply (own i tr) v"
proof -
  define Q where "Q en r h v \<longleftrightarrow> (\<forall>rid reply. en = Http rq \<longrightarrow> r = HttpAnswer rid reply \<longrightarrow>
    (case decode (edgeAPI cfg (ex_client ex)) unmarshalEvent rq of
       Inl rep \<Rightarrow> rp_status reply \<noteq> 202 | Inr req \<Rightarrow> reported req reply h v))" for en r h v
  have "own_wp (Q en) (goroutine cfg ex en) [] v" for en v
  proof (cases "en = Http rq")
    case True
    show ?thesis
    proof (cases "decode (edgeAPI cfg (ex_client ex)) unmarshalEvent rq")
      case (Inl rep)
      show ?thesis unfolding True by (rule wp_mono [OF wp_unreadable [OF assms(5,6) Inl]]) (simp add: Q_def Inl)
    next
      case (Inr req)
      show ?thesis unfolding True by (rule wp_mono [OF wp_reports [OF assms(5,6) Inr]]) (simp add: Q_def Inr)
    qed
  qed (auto intro!: wp_True simp: Q_def)
  from connector.result_wp [OF assms(1) _ this assms(3,4)] assms(2) obtain v where "safe v w'"
    "case decode (edgeAPI cfg (ex_client ex)) unmarshalEvent rq of
       Inl rep \<Rightarrow> rp_status reply \<noteq> 202 | Inr req \<Rightarrow> reported req reply (own i tr) v"
    by (auto simp: sound_def Q_def)
  then show ?thesis using assms(7) by (auto split: sum.splits)
qed


lemma demo_report_again:
  "rp_status (snd (fst (serve demo_config demo_externals demo_report
     (snd (serve demo_config demo_externals demo_report (calm (demo_db [])))))))  = 202"
proof -
  let ?a = "edgeAPI demo_config (ex_client demo_externals)"
  have valid: "Validate (eventOf demo_reported ''d1'' now) = None" for now
    by (simp add: Validate_None_iff demo_reported_valid)
  have api: "ia_store ?a = storage_ingest_store" "ia_events ?a = storage_event_store" "ia_token ?a = []"
    by (simp_all add: edgeAPI_def newIngest_def demo_config_def)
  show ?thesis
    by (simp add: serve_events wrap_def Middleware_def incomingID_def auth_def api postEvent_def demo_report_decodes
        demo_report_fields storage_ingest_store_def storage_event_store_def Accept_def valid demo_sql demo_defs run_defs
        metricInc_def publish_def upsert_device_row_def)
qed


end
