(* ===== verification/Resends.thy ===== *)
theory Resends
  imports Overlaps
begin

text \<open>
  Two overlapping gRPC calls with one idempotency key get one command.
\<close>

section \<open>Overlapping calls with one idempotency key\<close>

text \<open>
  The identifiers that PostgreSQL writes are accepted and read back as themselves, as its documentation
  of the type \<^verbatim>\<open>uuid\<close> says.
\<close>

definition canonical_ids :: "pg_params \<Rightarrow> bool" where
  "canonical_ids pg \<longleftrightarrow> (\<forall>s u. pg_uuid pg s = Some u \<longrightarrow> pg_uuid pg u = Some u)"

text \<open>The command is the row that carries the idempotency key of the device.\<close>

definition keyed :: "string \<Rightarrow> string \<Rightarrow> Command \<Rightarrow> world \<Rightarrow> bool" where
  "keyed dev key c w \<longleftrightarrow> (\<exists>d. pg_uuid (w_pg w) dev = Some d \<and> (c_ID c, Some (d, key)) \<in> command_tags (w_db w))"

lemma keyed_stable: "keyed dev key c w \<Longrightarrow> safe w w' \<Longrightarrow> keyed dev key c w'"
  using db_steps_command_tags by (auto simp: keyed_def safe_def)

definition outcome_keyed :: "string \<Rightarrow> string \<Rightarrow> create_outcome \<Rightarrow> world \<Rightarrow> bool" where
  "outcome_keyed dev key r w \<longleftrightarrow>
     (case r of
        CmdError e \<Rightarrow> \<not> errIs e ErrDuplicate
      | CmdExisting c \<Rightarrow> keyed dev key c w
      | CmdCreated c \<Rightarrow> keyed dev key c w \<and> (\<exists>s. pg_uuid (w_pg w) s = Some (c_ID c)))"

text \<open>The row that a conflicting insert finds, and the row that an insert leaves behind.\<close>

lemma found_keyed:
  assumes "c_IdempotencyKey c \<noteq> []"
  shows "outcome_keyed (c_DeviceID c) (c_IdempotencyKey c) (fst (afterInsertCommand c (Inr 0) v))
    (snd (afterInsertCommand c (Inr 0) v))"
proof -
  obtain x v' where f: "findCommandByIdemKey (c_DeviceID c) (c_IdempotencyKey c) v = (x, v')" by fastforce
  show ?thesis
  proof (cases x)
    case (Inl e)
    with f row_queries_errors(3) show ?thesis by (auto simp: afterInsertCommand_def outcome_keyed_def)
  next
    case (Inr q)
    note row = findCommandByIdemKey_Inr [OF f [unfolded Inr]]
    have "w_pg v' = w_pg v" using query_effects [of v] f store_effectD(2) by (metis snd_conv)
    then have "keyed (c_DeviceID c) (c_IdempotencyKey c) q v'"
      using row assms by (auto simp: keyed_def command_tags_def idem_key_def)
    then show ?thesis by (simp add: afterInsertCommand_def f Inr outcome_keyed_def)
  qed
qed

lemma inserted_keyed:
  assumes "pg_uuid (w_pg v) (c_ID c) = Some u" "pg_uuid (w_pg v) (c_DeviceID c) = Some d"
    "(u, Some (d, c_IdempotencyKey c)) \<in> command_tags (w_db v)" "n \<noteq> 0"
  shows "outcome_keyed (c_DeviceID c) (c_IdempotencyKey c) (fst (afterInsertCommand c (Inr n) v))
    (snd (afterInsertCommand c (Inr n) v))"
proof -
  obtain x v' where g: "GetCommand (c_ID c) v = (x, v')" by fastforce
  show ?thesis
  proof (cases x)
    case (Inl e)
    with g row_queries_errors(2) assms(4) show ?thesis by (auto simp: afterInsertCommand_def outcome_keyed_def)
  next
    case (Inr q)
    note row = GetCommand_Inr [OF g [unfolded Inr]]
    have v': "w_pg v' = w_pg v" using query_effects [of v] g store_effectD(2) by (metis snd_conv)
    have "c_ID q = u" using row assms(1) by simp
    then have "outcome_keyed (c_DeviceID c) (c_IdempotencyKey c) (CmdCreated q) v'"
      using row v' assms(1-3) by (auto simp: outcome_keyed_def keyed_def)
    then show ?thesis using assms(4) by (simp add: afterInsertCommand_def g Inr)
  qed
qed

lemma insert_then_answer:
  assumes "exec_sql (insertCommand_sql (w_pg a) c (create_payload c)) a = (r, b)" "safe b v"
    "c_IdempotencyKey c \<noteq> []"
  shows "outcome_keyed (c_DeviceID c) (c_IdempotencyKey c) (fst (afterInsertCommand c r v)) (snd (afterInsertCommand c r v))"
proof (cases r)
  case (Inl e)
  have "\<not> errIs e ErrDuplicate"
    by (rule exec_errors [OF assms(1) [unfolded Inl] validation_not_store(2)]) (rule write_errors_not_sentinel(4))
  then show ?thesis using Inl by (simp add: afterInsertCommand_def outcome_keyed_def)
next
  case (Inr n)
  from exec_sql_Inr [OF assms(1) [unfolded Inr]] obtain now where
    i: "insertCommand_sql (w_pg a) c (create_payload c) now (w_db a) = Inr (n, w_db b)" by blast
  have pg: "w_pg v = w_pg a"
    using store_effectD(2) [OF write_effects(7) [of a "w_pg a" c "create_payload c"]] assms(1,2) by (simp add: safe_def)
  show ?thesis
  proof (cases "n = 0")
    case True
    with found_keyed [OF assms(3)] Inr show ?thesis by simp
  next
    case False
    with i obtain u d doc where new: "pg_uuid (w_pg a) (c_ID c) = Some u" "pg_uuid (w_pg a) (c_DeviceID c) = Some d"
      "t_commands (w_db b) = t_commands (w_db a) @ [new_command_row (w_pg a) c u d doc now]"
      by (cases rule: insertCommand_InrE) auto
    have "(u, Some (d, c_IdempotencyKey c)) \<in> command_tags (w_db b)"
      using assms(3) by (simp add: new(3) command_tags_def idem_key_def)
    then have "(u, Some (d, c_IdempotencyKey c)) \<in> command_tags (w_db v)"
      using assms(2) db_steps_command_tags by (auto simp: safe_def)
    with inserted_keyed [OF _ _ this False] new(1,2) pg Inr show ?thesis by simp
  qed
qed

lemma wp_CreateCommand:
  assumes "c_IdempotencyKey c \<noteq> []"
  shows "own_wp (\<lambda>r h w. outcome_keyed (c_DeviceID c) (c_IdempotencyKey c) r w) (go_CreateCommand c) h w"
  unfolding go_CreateCommand_def Let_def
proof (intro wp_act wp_act_last)
  fix s a v
  obtain c1 s1 where u: "withCommandID c s = (c1, s1)" by fastforce
  define c2 where "c2 = (fst (withCommandID c s))\<lparr>c_State := CommandPending\<rparr>"
  let ?insert = "exec_sql (insertCommand_sql (w_pg a) c2 (create_payload c2)) a"
  assume v: "safe (snd ?insert) v"
  have "c2 = (c\<lparr>c_ID := c_ID c1\<rparr>)\<lparr>c_State := CommandPending\<rparr>"
    unfolding c2_def u fst_conv by (subst withCommandID_simps(3) [OF u]) (rule refl)
  then have keys: "c_DeviceID c2 = c_DeviceID c" "c_IdempotencyKey c2 = c_IdempotencyKey c" by simp_all
  from insert_then_answer [where c = c2 and a = a and r = "fst ?insert" and b = "snd ?insert" and v = v] v assms keys
  show "outcome_keyed (c_DeviceID c) (c_IdempotencyKey c) (fst (afterInsertCommand c2 (fst ?insert) v))
    (snd (afterInsertCommand c2 (fst ?insert) v))" by simp
qed

lemma wp_TransitionCommand:
  "own_wp (\<lambda>r h w. \<forall>c. r = Inr c \<longrightarrow> pg_uuid (w_pg w) uid = Some (c_ID c)) (go_TransitionCommand uid to msg) h w"
proof -
  have got: "pg_uuid (w_pg (snd (GetCommand uid v))) uid = Some (c_ID c)" if "fst (GetCommand uid v) = Inr c" for v c
  proof -
    have "w_pg (snd (GetCommand uid v)) = w_pg v" by (rule store_effectD(2) [OF query_effects(6)])
    then show ?thesis using that GetCommand_Inr [of uid v c "snd (GetCommand uid v)"] by (simp add: prod_eq_iff)
  qed
  show ?thesis
    unfolding go_TransitionCommand_def
    by (intro wp_branch(1-3) wp_act; (rule wp_act_last)?; simp add: got)
qed

text \<open>What a part of the program did, together with its guarantee.\<close>

lemma wp_safe:
  assumes "own_wp Q m h w" "ok m" "sound w" "always sound P m"
  shows "own_wp (\<lambda>r h' w'. Q r h' w' \<and> P r \<and> sound w' \<and> safe w w') m h w"
proof (rule wp_mono [OF wp_conj])
  show "own_wp Q m h w" by fact
  show "own_wp (\<lambda>r h' w'. P r \<and> sound w' \<and> safe w w' \<and> (\<exists>x. h' = h @ x)) m h w"
    using wp_guards [where I = sound and G = safe and h = "[]" and h0 = h and s = w and s0 = w and m = m and P = P]
      safe_refl safe_trans assms(2-4) by auto
qed simp

definition sent_key :: "string \<Rightarrow> string \<Rightarrow> Command res \<Rightarrow> (world \<times> world) list \<Rightarrow> world \<Rightarrow> bool" where
  "sent_key dev key r h w \<longleftrightarrow> (\<forall>c. r = Inr c \<longrightarrow> canonical_ids (w_pg w) \<longrightarrow> keyed dev key c w)"

lemma sent_key_stable:
  "sent_key dev key (Inr c) h w \<Longrightarrow> safe w w' \<Longrightarrow> sent_key dev key (Inr c) h' w'"
  using keyed_stable by (auto simp: sent_key_def safe_def)

lemma sent_key_simps [simp]:
  "sent_key dev key (Inl e) h w"
  "sent_key dev key r h (metricInc m w) = sent_key dev key r h w"
  by (simp_all add: sent_key_def keyed_def metricInc_def)

lemma wp_counted:
  assumes "sent_key dev key (Inr c) h w" "\<And>h w. sent_key dev key (Inr c) h w \<Longrightarrow> own_wp (sent_key dev key) t h w"
  shows "own_wp (sent_key dev key) (doing (metricInc m) t) h w"
proof (rule wp_doing)
  fix v assume "safe w v"
  from sent_key_stable [OF assms(1) this] show "own_wp (sent_key dev key) t (h @ [(v, metricInc m v)]) (metricInc m v)"
    by (intro assms(2)) simp
qed

lemma wp_moved:
  assumes "sound w" "sent_key dev key (Inr cmd) h w" "pg_uuid (w_pg w) uid = Some (c_ID cmd)"
    "\<And>e h w. own_wp (sent_key dev key) (k (Inl e)) h w"
    "\<And>c h w. sent_key dev key (Inr c) h w \<Longrightarrow> own_wp (sent_key dev key) (k (Inr c)) h w"
  shows "own_wp (sent_key dev key) (andThen (go_TransitionCommand (c_ID cmd) to msg) k) h w"
proof (rule wp_andThen, rule wp_mono)
  show "own_wp (\<lambda>r h w'. (\<forall>c. r = Inr c \<longrightarrow> pg_uuid (w_pg w') (c_ID cmd) = Some (c_ID c)) \<and> True \<and> sound w' \<and> safe w w')
      (go_TransitionCommand (c_ID cmd) to msg) h w"
    by (rule wp_safe [OF wp_TransitionCommand ok_storage(2) assms(1) always_True])
next
  fix r :: "Command res" and h' w'
  assume r: "(\<forall>c. r = Inr c \<longrightarrow> pg_uuid (w_pg w') (c_ID cmd) = Some (c_ID c)) \<and> True \<and> sound w' \<and> safe w w'"
  show "own_wp (sent_key dev key) (k r) h' w'"
  proof (cases r)
    case (Inr c)
    have "c_ID c = c_ID cmd" if "canonical_ids (w_pg w')"
      using that r Inr assms(3) by (auto simp: canonical_ids_def safe_def)
    moreover have "sent_key dev key (Inr cmd) h' w'" using sent_key_stable [OF assms(2)] r by blast
    ultimately have "sent_key dev key (Inr c) h' w'" by (auto simp: sent_key_def keyed_def)
    then show ?thesis unfolding Inr by (rule assms(5))
  qed (simp add: assms(4))
qed

lemma wp_dispatch:
  assumes "ok_senders senders" "senders p = Some send" "sound w" "sent_key dev key (Inr cmd) h w"
    "pg_uuid (w_pg w) uid = Some (c_ID cmd)"
  shows "own_wp (sent_key dev key) (go_dispatch send device cmd) h w"
proof -
  have send: "ok (send ext cmd)" for ext using assms(1,2) by (simp add: ok_senders_def)
  show ?thesis
    unfolding go_dispatch_def
  proof (rule connector.wp_skip [OF send always_True assms(3)])
    fix r w' x assume w': "sound w'" "safe w w'"
    note sent = w'(1) sent_key_stable [OF assms(4) w'(2)]
    have uid: "pg_uuid (w_pg w') uid = Some (c_ID cmd)" using w'(2) assms(5) by (simp add: safe_def)
    show "own_wp (sent_key dev key) (case r of
         Inl err \<Rightarrow>
           andThen (go_TransitionCommand (c_ID cmd) CommandFailed (ErrText err)) (\<lambda>t. case t of
               Inl terr \<Rightarrow> Done (Inl terr)
             | Inr failed \<Rightarrow> doing (metricInc (CommandTransitions CommandFailed)) (doing (metricInc CommandFailures) (Done (Inr failed))))
       | Inr (state, msg) \<Rightarrow>
           andThen (go_TransitionCommand (c_ID cmd) state msg) (\<lambda>t. case t of
               Inl terr \<Rightarrow> Done (Inl terr)
             | Inr updated \<Rightarrow> doing (metricInc (CommandTransitions state)) (Done (Inr updated)))) (h @ x) w'"
      by (intro wp_branch(2,4) wp_moved [OF sent uid]) (auto elim!: wp_counted)
  qed
qed

lemma wp_enqueue:
  assumes "ok_senders senders" "c_IdempotencyKey c \<noteq> []" "sound w"
  shows "own_wp (sent_key (c_DeviceID c) (c_IdempotencyKey c)) (go_enqueue (senders p) device c) h w"
  unfolding go_enqueue_def
proof (rule wp_andThen, rule wp_mono)
  let ?dev = "c_DeviceID c" and ?key = "c_IdempotencyKey c"
  show "own_wp (\<lambda>r h w'. outcome_keyed ?dev ?key r w' \<and> True \<and> sound w' \<and> safe w w') (go_CreateCommand c) h w"
    by (rule wp_safe [OF wp_CreateCommand [OF assms(2)] ok_storage(1) assms(3) always_True])
next
  let ?dev = "c_DeviceID c" and ?key = "c_IdempotencyKey c"
  fix r h' w' assume r: "outcome_keyed ?dev ?key r w' \<and> True \<and> sound w' \<and> safe w w'"
  show "own_wp (sent_key ?dev ?key) (case r of
         CmdError e \<Rightarrow> if errIs e ErrDuplicate then Done (Inr zeroCommand) else Done (Inl e)
       | CmdExisting cmd \<Rightarrow> Done (Inr cmd)
       | CmdCreated cmd \<Rightarrow>
           doing (metricInc (CommandsCreated (c_Type c)))
             (case senders p of Some send \<Rightarrow> go_dispatch send device cmd | None \<Rightarrow> Done (Inr cmd))) h' w'"
  proof (cases r)
    case (CmdCreated cmd)
    with r obtain s where cmd: "keyed ?dev ?key cmd w'" "pg_uuid (w_pg w') s = Some (c_ID cmd)"
      by (auto simp: outcome_keyed_def)
    have "own_wp (sent_key ?dev ?key) (doing (metricInc (CommandsCreated (c_Type c)))
        (case senders p of Some send \<Rightarrow> go_dispatch send device cmd | None \<Rightarrow> Done (Inr cmd))) h' w'"
    proof (intro wp_doing wp_branch(3))
      fix v assume v: "sound v" "safe w' v"
      let ?v = "metricInc (CommandsCreated (c_Type c)) v"
      have sent: "sent_key ?dev ?key (Inr cmd) hh ?v" for hh
        using keyed_stable [OF cmd(1) v(2)] by (simp add: sent_key_def keyed_def metricInc_def)
      then show "own_wp (sent_key ?dev ?key) (Done (Inr cmd)) (h' @ [(v, ?v)]) ?v" by simp
      have "sound ?v" using v(1) by (simp add: sound_def metricInc_def)
      moreover have "pg_uuid (w_pg ?v) s = Some (c_ID cmd)" using v(2) cmd(2) by (simp add: safe_def metricInc_def)
      ultimately show "own_wp (sent_key ?dev ?key) (go_dispatch send device cmd) (h' @ [(v, ?v)]) ?v"
        if "senders p = Some send" for send using wp_dispatch [OF assms(1) that] sent by blast
    qed
    then show ?thesis using CmdCreated by simp
  next
    case (CmdExisting cmd)
    with r show ?thesis by (simp add: outcome_keyed_def sent_key_def)
  next
    case (CmdError e)
    with r show ?thesis by (simp add: outcome_keyed_def)
  qed
qed

lemma wp_Create:
  assumes "ok_senders senders" "key \<noteq> []"
  shows "own_wp (sent_key dev key) (go_Create ttl senders dev typ payload key) h w"
  unfolding go_Create_def Let_def
proof (intro wp_branch(1,2) wp_act)
  fix v u exp p device h assume "sound v"
  then have "sound (snd (timeNow v))" by (simp add: sound_def)
  from wp_enqueue [OF assms(1) _ this, of "newCommand dev typ payload key exp" p device h] assms(2)
  show "own_wp (sent_key dev key) (go_enqueue (senders p) device (newCommand dev typ payload key exp)) h (snd (timeNow v))"
    by (simp add: newCommand_def)
qed simp_all

definition sent_id :: "sendCommandRequest \<Rightarrow> answer \<Rightarrow> (world \<times> world) list \<Rightarrow> world \<Rightarrow> bool" where
  "sent_id rq r h w \<longleftrightarrow> (\<forall>pc. r = CommandAnswer (Inr pc) \<longrightarrow> canonical_ids (w_pg w) \<longrightarrow>
     (\<exists>d. pg_uuid (w_pg w) (sr_DeviceId rq) = Some d \<and>
       (pc_Id pc, Some (d, sr_IdempotencyKey rq)) \<in> command_tags (w_db w)))"

lemma wp_sends:
  assumes "sr_IdempotencyKey rq \<noteq> []"
  shows "own_wp (sent_id rq) (goroutine cfg ex (RpcSendCommand rq)) h w"
  unfolding goroutine.simps go_SendCommand_def
proof (intro wp_giving wp_andThen, rule wp_mono [OF wp_Create [OF ok_senders_of assms]])
  fix r h w assume "sent_key (sr_DeviceId rq) (sr_IdempotencyKey rq) r h w"
  then show "own_wp (\<lambda>a. sent_id rq (CommandAnswer a)) (case r of
      Inl e \<Rightarrow> Done (if errIs e ErrValidation then Inl (InvalidArgument, ErrText e)
                 else statusError Internal ''command creation failed'')
    | Inr c \<Rightarrow> Done (Inr (commandToProto c))) h w"
    by (auto simp: sent_id_def sent_key_def keyed_def commandToProto_def statusError_def split: sum.split)
qed

text \<open>C6: an idempotency key makes one command, even for overlapping calls. When two gRPC calls of SendCommand
  with the same device and the same nonempty key have both succeeded, however their statements and those of
  all other goroutines interleaved, they were answered with the same command, and the database holds exactly
  one row with that key of the device.\<close>

theorem overlapping_sends_same_command:
  assumes "interleaving (goroutine cfg ex) untouched_state ([], None, w) tr (ts, owner, w')" "db_inv (w_db w)"
    "canonical_ids (w_pg w)"
    "i < length ts" "ts ! i = (RpcSendCommand rq, Done (CommandAnswer (Inr pc)))"
    "j < length ts" "ts ! j = (RpcSendCommand rq', Done (CommandAnswer (Inr pc')))"
    "sr_IdempotencyKey rq \<noteq> []" "sr_IdempotencyKey rq' = sr_IdempotencyKey rq" "sr_DeviceId rq' = sr_DeviceId rq"
  shows "pc_Id pc = pc_Id pc' \<and>
    (\<exists>!c. c \<in> set (t_commands (w_db w')) \<and> pg_uuid (w_pg w') (sr_DeviceId rq) = Some (c_DeviceID c) \<and>
       c_IdempotencyKey c = sr_IdempotencyKey rq)"
proof -
  have safe: "db_inv (w_db w')" "safe w w'" using connector_safe [OF assms(1,2)] by simp_all
  have pg: "w_pg w' = w_pg w" using safe(2) by (simp add: safe_def)
  have sent: "\<exists>d. pg_uuid (w_pg w') (sr_DeviceId rq) = Some d \<and>
      (pc_Id pc, Some (d, sr_IdempotencyKey rq)) \<in> command_tags (w_db w')"
    if at: "i < length ts" "ts ! i = (RpcSendCommand rq, Done (CommandAnswer (Inr pc)))" and key: "sr_IdempotencyKey rq \<noteq> []"
    for i rq pc
  proof -
    define Q where "Q en r h v \<longleftrightarrow> (en = RpcSendCommand rq \<longrightarrow> sent_id rq r h v)" for en r h v
    have "own_wp (Q en) (goroutine cfg ex en) [] v" for en v
    proof (cases "en = RpcSendCommand rq")
      case True
      show ?thesis unfolding True by (rule wp_mono [OF wp_sends [OF key]]) (simp add: Q_def)
    qed (auto intro!: wp_True simp: Q_def)
    from connector.result_wp [OF assms(1) _ this at] assms(2) obtain v where
      v: "safe v w'" "sent_id rq (CommandAnswer (Inr pc)) (own i tr) v" by (auto simp: sound_def Q_def)
    then have "w_pg v = w_pg w'" "command_tags (w_db v) \<subseteq> command_tags (w_db w')"
      using db_steps_command_tags by (auto simp: safe_def)
    with v(2) assms(3) pg show ?thesis by (auto simp: sent_id_def)
  qed
  from sent [OF assms(4,5,8)] obtain d where d: "pg_uuid (w_pg w') (sr_DeviceId rq) = Some d"
    "(pc_Id pc, Some (d, sr_IdempotencyKey rq)) \<in> command_tags (w_db w')" by blast
  from sent [OF assms(6,7)] assms(8-10) d(1) have
    d': "(pc_Id pc', Some (d, sr_IdempotencyKey rq)) \<in> command_tags (w_db w')" by auto
  have inv: "commands_inv (w_db w')" using safe(1) by (simp add: db_inv_def)
  from d(2) obtain c where c: "c \<in> set (t_commands (w_db w'))" "c_ID c = pc_Id pc"
    "idem_key c = Some (d, sr_IdempotencyKey rq)" by (auto simp: command_tags_def)
  from d' obtain c' where c': "c' \<in> set (t_commands (w_db w'))" "c_ID c' = pc_Id pc'"
    "idem_key c' = Some (d, sr_IdempotencyKey rq)" by (auto simp: command_tags_def)
  have same: "c' = c" by (rule idem_key_unique [OF inv c'(1) c(1) c'(3) c(3)])
  have key: "idem_key x = Some (d, sr_IdempotencyKey rq) \<longleftrightarrow> c_DeviceID x = d \<and> c_IdempotencyKey x = sr_IdempotencyKey rq" for x
    using assms(8) by (auto simp: idem_key_def)
  have "\<exists>!c. c \<in> set (t_commands (w_db w')) \<and> pg_uuid (w_pg w') (sr_DeviceId rq) = Some (c_DeviceID c) \<and>
      c_IdempotencyKey c = sr_IdempotencyKey rq"
  proof (rule ex1I [of _ c])
    fix x assume "x \<in> set (t_commands (w_db w')) \<and> pg_uuid (w_pg w') (sr_DeviceId rq) = Some (c_DeviceID x) \<and>
      c_IdempotencyKey x = sr_IdempotencyKey rq"
    then show "x = c" using idem_key_unique [OF inv _ c(1) _ c(3)] key d(1) by auto
  qed (use c key d(1) in auto)
  then show ?thesis using same c(2) c'(2) by simp
qed

definition demo_send :: sendCommandRequest where
  "demo_send = \<lparr>sr_DeviceId = ''d1'', sr_Type = 1, sr_PayloadJson = [], sr_IdempotencyKey = ''k''\<rparr>"

lemma exec_rpc: "fst (exec (goroutine cfg ex (RpcSendCommand rq)) w) =
    CommandAnswer (fst (rpcSendCommand (grpcServer cfg (ex_client ex)) rq w))"
  by (simp add: exec_send split: prod.split)

lemma demo_send_ok:
  "\<not> isl (fst (rpcSendCommand (grpcServer demo_config (ex_client demo_externals)) demo_send (calm (demo_db []))))"
  "\<not> isl (fst (rpcSendCommand (grpcServer demo_config (ex_client demo_externals)) demo_send
     (snd (rpcSendCommand (grpcServer demo_config (ex_client demo_externals)) demo_send (calm (demo_db []))))))"
proof -
  note defs = rpcSendCommand_def grpcServer_def commandSvc_def Create_def demo_send_def demo_config_def demo_externals_def
    service_def storage_command_store_def GetDevice_def getDevice_sql_def scan_device_row_def sendersOf_def enqueue_def
    newCommand_def findCommandByIdemKey_def findByIdemKey_sql_def metricInc_def commandTypeFromProto_def ValidCommandType_def pb_enums
  show "\<not> isl (fst (rpcSendCommand (grpcServer demo_config (ex_client demo_externals)) demo_send (calm (demo_db []))))"
  "\<not> isl (fst (rpcSendCommand (grpcServer demo_config (ex_client demo_externals)) demo_send
     (snd (rpcSendCommand (grpcServer demo_config (ex_client demo_externals)) demo_send (calm (demo_db []))))))"
    by (simp_all add: defs create_run_defs demo_defs device_ids_def)
qed

lemma overlapping_sends_same_command_witness:
  "\<exists>tr ts w' pc pc'.
     interleaving (goroutine demo_config demo_externals) untouched_state ([], None, calm (demo_db [])) tr (ts, None, w') \<and>
     map snd ts = [Done (CommandAnswer (Inr pc)), Done (CommandAnswer (Inr pc'))] \<and> pc_Id pc = pc_Id pc'"
proof -
  let ?w = "calm (demo_db [])" and ?send = "rpcSendCommand (grpcServer demo_config (ex_client demo_externals)) demo_send"
  obtain pc pc' where pc: "fst (?send ?w) = Inr pc" "fst (?send (snd (?send ?w))) = Inr pc'"
    using demo_send_ok by (metis isl_def obj_sumE)
  have enter: "enter demo_config demo_externals (RpcSendCommand demo_send) v = snd (?send v)" for v by simp
  obtain tr where run: "interleaving (goroutine demo_config demo_externals) untouched_state ([], None, ?w) tr
     ([(RpcSendCommand demo_send, Done (CommandAnswer (Inr pc))),
       (RpcSendCommand demo_send, Done (CommandAnswer (Inr pc')))], None, snd (?send (snd (?send ?w))))"
    using two_goroutines [of demo_config demo_externals ?w "RpcSendCommand demo_send" "RpcSendCommand demo_send"]
    unfolding exec_rpc enter pc by blast
  have "canonical_ids demo_pg" by (simp add: canonical_ids_def split: if_splits)
  moreover have "sr_IdempotencyKey demo_send \<noteq> []" by (simp add: demo_send_def)
  ultimately have "pc_Id pc = pc_Id pc'"
    by (intro overlapping_sends_same_command [OF run, where i = 0 and j = 1, THEN conjunct1]) simp_all
  with run show ?thesis
    by - (rule exI, rule exI, rule exI, rule exI [of _ pc], rule exI [of _ pc'], rule conjI, assumption, simp)
qed

end
