(* ===== verification/Critical.thy ===== *)
theory Critical
  imports Interleave
begin

text \<open>
  A variable that the mutex protects. A program is disciplined when it writes the variable only inside a
  critical section in which it has looked at the variable and found it stale, or to reset it. Then every
  change of the variable, in any interleaving, is of one of these two kinds, and nothing came between the
  look and the write.
\<close>

section \<open>Disciplined programs\<close>

datatype 'v section_state = Outside | Inside | Looked 'v

text \<open>
  \<open>disciplined v stale reset t x\<close>: the rest \<open>t\<close> of a program that is outside a critical section, inside one,
  or inside one where it found the value stale. A step leaves the variable alone, or is a look, or writes
  after a look, or resets.
\<close>

primrec disciplined ::
  "('s \<Rightarrow> 'v) \<Rightarrow> ('s \<Rightarrow> bool) \<Rightarrow> ('s \<Rightarrow> 's \<Rightarrow> bool) \<Rightarrow> ('s, 'r) thread \<Rightarrow> 'v section_state \<Rightarrow> bool" where
  "disciplined v stale reset (Done r) = (\<lambda>x. x = Outside)"
| "disciplined v stale reset (Step f) = (\<lambda>x. \<forall>s. case (map_prod (disciplined v stale reset) id \<circ> f) s of (next_ok, s') \<Rightarrow>
     v s' = v s \<and> next_ok x \<or>
     v s' = v s \<and> x = Inside \<and> stale s \<and> next_ok (Looked (v s)) \<or>
     (\<exists>a. x = Looked a) \<and> next_ok Inside \<or>
     x \<noteq> Outside \<and> reset s s' \<and> next_ok Inside)"
| "disciplined v stale reset (Lock t) = (\<lambda>x. x = Outside \<and> disciplined v stale reset t Inside)"
| "disciplined v stale reset (Unlock t) = (\<lambda>x. x \<noteq> Outside \<and> disciplined v stale reset t Outside)"

text \<open>
  The explanation of the move at place \<open>l\<close> of a trace: it left the variable alone, or reset it, or the same
  goroutine had looked at this value before and found it stale, and no move since then changed it.
\<close>

definition looked :: "('s \<Rightarrow> 'v) \<Rightarrow> ('s \<Rightarrow> bool) \<Rightarrow> 's trace \<Rightarrow> nat \<Rightarrow> nat \<Rightarrow> 'v \<Rightarrow> bool" where
  "looked v stale tr l i x \<longleftrightarrow> (\<exists>k<l. \<exists>a b. tr ! k = (i, a, b) \<and> stale a \<and> v a = x \<and>
     (\<forall>m. k \<le> m \<and> m < l \<longrightarrow> (case tr ! m of (_, p, q) \<Rightarrow> v p = x \<and> v q = x)))"

definition explained :: "('s \<Rightarrow> 'v) \<Rightarrow> ('s \<Rightarrow> bool) \<Rightarrow> ('s \<Rightarrow> 's \<Rightarrow> bool) \<Rightarrow> 's trace \<Rightarrow> nat \<Rightarrow> bool" where
  "explained v stale reset tr l \<longleftrightarrow> (case tr ! l of (i, c, d) \<Rightarrow>
     v d = v c \<or> reset c d \<or> looked v stale tr l i (v c))"

lemma looked_append: "l \<le> length tr \<Longrightarrow> looked v stale (tr @ tr') l i x = looked v stale tr l i x"
  by (auto simp: looked_def nth_append)

lemma explained_append: "l < length tr \<Longrightarrow> explained v stale reset (tr @ tr') l = explained v stale reset tr l"
  by (simp add: explained_def nth_append looked_append)

lemma looked_later:
  assumes "looked v stale tr (length tr) i x" "v a = x" "v b = x"
  shows "looked v stale (tr @ [(j, a, b)]) (Suc (length tr)) i x"
proof -
  from assms(1) obtain k p q where k: "k < length tr" "tr ! k = (i, p, q)" "stale p" "v p = x"
    "\<forall>m. k \<le> m \<and> m < length tr \<longrightarrow> (case tr ! m of (_, p, q) \<Rightarrow> v p = x \<and> v q = x)" by (auto simp: looked_def)
  then have "\<forall>m. k \<le> m \<and> m < Suc (length tr) \<longrightarrow> (case (tr @ [(j, a, b)]) ! m of (_, p, q) \<Rightarrow> v p = x \<and> v q = x)"
    using assms(2,3) by (auto simp: nth_append less_Suc_eq)
  with k show ?thesis unfolding looked_def
    by (intro exI [of _ k]) (auto simp: nth_append)
qed

lemma looked_now:
  assumes "stale a" "v b = v a"
  shows "looked v stale (tr @ [(i, a, b)]) (Suc (length tr)) i (v a)"
  unfolding looked_def using assms by (intro exI [of _ "length tr"]) (auto simp: nth_append)

section \<open>Every interleaving of disciplined programs\<close>

text \<open>One goroutine fits the owner of the mutex and what it has looked at; all do, and all moves are explained.\<close>

definition fits ::
  "('s \<Rightarrow> 'v) \<Rightarrow> ('s \<Rightarrow> bool) \<Rightarrow> ('s \<Rightarrow> 's \<Rightarrow> bool) \<Rightarrow> nat option \<Rightarrow> 's \<Rightarrow> 's trace \<Rightarrow> nat \<Rightarrow>
   ('s, 'r) thread \<Rightarrow> 'v section_state \<Rightarrow> bool" where
  "fits v stale reset owner s tr i t x \<longleftrightarrow> disciplined v stale reset t x \<and> (owner = Some i \<longleftrightarrow> x \<noteq> Outside) \<and>
     (\<forall>a. x = Looked a \<longrightarrow> v s = a \<and> looked v stale tr (length tr) i a)"

definition sections_ok ::
  "('s \<Rightarrow> 'v) \<Rightarrow> ('s \<Rightarrow> bool) \<Rightarrow> ('s \<Rightarrow> 's \<Rightarrow> bool) \<Rightarrow> 's trace \<Rightarrow> ('e, 's, 'r) pool \<Rightarrow> bool" where
  "sections_ok v stale reset tr = (\<lambda>(ts, owner, s).
     (\<forall>i. owner = Some i \<longrightarrow> i < length ts) \<and>
     (\<forall>i<length ts. \<exists>x. fits v stale reset owner s tr i (snd (ts ! i)) x) \<and>
     (\<forall>l<length tr. explained v stale reset tr l))"

lemma disciplined_StepD:
  assumes "disciplined v stale reset (Step f) x" "f s = (t, s')"
  obtains (alone) "v s' = v s" "disciplined v stale reset t x"
  | (look) "v s' = v s" "x = Inside" "stale s" "disciplined v stale reset t (Looked (v s))"
  | (written) a where "x = Looked a" "disciplined v stale reset t Inside"
  | (reset) "x \<noteq> Outside" "reset s s'" "disciplined v stale reset t Inside"
  using assms by (auto dest!: spec [of _ s])

text \<open>A turn of the goroutine itself, and of another one.\<close>

lemma turn_fits:
  assumes "turn i (ts, owner, s) (ts', owner', s')" "fits v stale reset owner s tr i (snd (ts ! i)) x"
  obtains y where "fits v stale reset owner' s' (tr @ [(i, s, s')]) i (snd (ts' ! i)) y"
    "explained v stale reset (tr @ [(i, s, s')]) (length tr)" "x = Outside \<Longrightarrow> v s' = v s"
proof -
  let ?tr = "tr @ [(i, s, s')]"
  have "\<exists>y. fits v stale reset owner' s' ?tr i (snd (ts' ! i)) y \<and> explained v stale reset ?tr (length tr) \<and>
    (x = Outside \<longrightarrow> v s' = v s)"
    using assms(1)
  proof (cases rule: turnE)
    case (step e f t)
    have "disciplined v stale reset (Step f) x" using assms(2) step(2) by (simp add: fits_def)
    then show ?thesis
      using step(3)
    proof (cases rule: disciplined_StepD)
      case alone
      with assms(2) step show ?thesis
        by (intro exI [of _ x]) (auto simp: fits_def explained_def nth_append intro: looked_later)
    next
      case look
      with assms(2) step show ?thesis
        by (intro exI [of _ "Looked (v s)"]) (auto simp: fits_def explained_def nth_append intro: looked_now)
    next
      case written
      with assms(2) step show ?thesis
        by (intro exI [of _ Inside]) (auto simp: fits_def explained_def nth_append looked_append)
    next
      case reset
      with assms(2) step show ?thesis
        by (intro exI [of _ Inside]) (auto simp: fits_def explained_def nth_append)
    qed
  next
    case (lock e t)
    with assms(2) show ?thesis
      by (intro exI [of _ Inside]) (auto simp: fits_def explained_def nth_append)
  next
    case (unlock e t)
    with assms(2) show ?thesis
      by (intro exI [of _ Outside]) (auto simp: fits_def explained_def nth_append)
  qed
  then show thesis using that by blast
qed

lemma other_fits:
  assumes "turn i (ts, owner, s) (ts', owner', s')" "fits v stale reset owner s tr i (snd (ts ! i)) x"
    "x = Outside \<Longrightarrow> v s' = v s" "fits v stale reset owner s tr j (snd (ts ! j)) z" "j \<noteq> i"
  shows "fits v stale reset owner' s' (tr @ [(i, s, s')]) j (snd (ts' ! j)) z"
proof -
  have same: "ts' ! j = ts ! j" "owner' = Some j \<longleftrightarrow> owner = Some j"
    using assms(1,2,5) by (auto elim!: turnE simp: fits_def)
  have "v s' = v s" if "z \<noteq> Outside" using that assms(2-5) by (auto simp: fits_def)
  then show ?thesis using same assms(4) by (auto simp: fits_def intro: looked_later)
qed

lemma turn_sections:
  assumes "turn i (ts, owner, s) (ts', owner', s')" "sections_ok v stale reset tr (ts, owner, s)"
  shows "sections_ok v stale reset (tr @ [(i, s, s')]) (ts', owner', s')"
proof -
  let ?tr = "tr @ [(i, s, s')]"
  have own: "\<And>i. owner = Some i \<Longrightarrow> i < length ts" and tr: "\<And>l. l < length tr \<Longrightarrow> explained v stale reset tr l"
    and all: "\<And>j. j < length ts \<Longrightarrow> \<exists>x. fits v stale reset owner s tr j (snd (ts ! j)) x"
    using assms(2) by (auto simp: sections_ok_def)
  have i: "i < length ts" "length ts' = length ts" using assms(1) by (auto elim: turnE)
  obtain x where x: "fits v stale reset owner s tr i (snd (ts ! i)) x" using all [OF i(1)] by blast
  from turn_fits [OF assms(1) x] obtain y where y: "fits v stale reset owner' s' ?tr i (snd (ts' ! i)) y"
    "explained v stale reset ?tr (length tr)" "x = Outside \<Longrightarrow> v s' = v s" by blast
  have "\<exists>z. fits v stale reset owner' s' ?tr j (snd (ts' ! j)) z" if "j < length ts" for j
    using all [OF that] y(1) other_fits [OF assms(1) x y(3)] by (cases "j = i") blast+
  moreover have "explained v stale reset ?tr l" if "l < length ?tr" for l
    using that tr y(2) by (auto simp: less_Suc_eq explained_append)
  moreover have "owner' = Some j \<Longrightarrow> j < length ts'" for j
    using assms(1) own i by (auto elim!: turnE)
  ultimately show ?thesis using i(2) by (auto simp: sections_ok_def)
qed

lemma interleaving_sections:
  assumes "interleaving prog env ([], None, s0) tr (ts, owner, s)"
    "\<And>e. disciplined v stale reset (prog e) Outside" "\<And>s s'. env s s' \<Longrightarrow> v s' = v s"
  shows "sections_ok v stale reset tr (ts, owner, s)"
  using assms(1)
proof (induction tr "(ts, owner, s)" arbitrary: ts owner s rule: interleaving.induct)
  case start
  then show ?case by (simp add: sections_ok_def)
next
  case (spawn tr ts owner s e)
  then have "owner \<noteq> Some (length ts)" by (auto simp: sections_ok_def)
  then have "fits v stale reset owner s tr (length ts) (prog e) Outside" using assms(2) [of e] by (simp add: fits_def)
  with spawn show ?case by (auto simp: sections_ok_def nth_append less_Suc_eq)
next
  case (turn tr ts owner s i ts' owner' s')
  from turn_sections [OF turn.hyps(3,2)] show ?case .
next
  case (outside tr ts owner s s')
  then show ?case using assms(3) [of s s'] by (simp add: sections_ok_def fits_def)
qed

lemma changes_explained:
  assumes "interleaving prog env ([], None, s0) tr (ts, owner, s)"
    "\<And>e. disciplined v stale reset (prog e) Outside" "\<And>s s'. env s s' \<Longrightarrow> v s' = v s" "l < length tr"
  shows "explained v stale reset tr l"
  using interleaving_sections [OF assms(1-3)] assms(4) by (simp add: sections_ok_def)

section \<open>Which programs are disciplined\<close>

text \<open>Parts that do not use the mutex and leave the variable alone.\<close>

definition quiet :: "('s \<Rightarrow> 'v) \<Rightarrow> ('s, 'r) thread \<Rightarrow> bool" where
  "quiet v t \<longleftrightarrow> lockFree t \<and> guards (\<lambda>_. True) (\<lambda>s s'. v s' = v s) t"

lemma quiet_rules:
  "quiet v (Done r)"
  "(\<And>s. v (snd (op s)) = v s) \<Longrightarrow> quiet v (act op)"
  "(\<And>s. v (g s) = v s) \<Longrightarrow> quiet v t \<Longrightarrow> quiet v (doing g t)"
  "quiet v m \<Longrightarrow> (\<And>a. quiet v (k a)) \<Longrightarrow> quiet v (andThen m k)"
  "(b \<Longrightarrow> quiet v t) \<Longrightarrow> (\<not> b \<Longrightarrow> quiet v t') \<Longrightarrow> quiet v (if b then t else t')"
  "(\<And>a. quiet v (f a)) \<Longrightarrow> (\<And>c. quiet v (h c)) \<Longrightarrow> quiet v (case x of Inl a \<Rightarrow> f a | Inr c \<Rightarrow> h c)"
  "quiet v t \<Longrightarrow> (\<And>a. quiet v (j a)) \<Longrightarrow> quiet v (case y of None \<Rightarrow> t | Some a \<Rightarrow> j a)"
  "(\<And>a c. quiet v (q a c)) \<Longrightarrow> quiet v (case p of (a, c) \<Rightarrow> q a c)"
  unfolding quiet_def
  by (simp_all add: lockFree_rules lockFree_doing lockFree_andThen guards_rules guards_doing guards_andThen
      split: sum.split option.split prod.split)

lemma disciplined_after_quiet:
  "quiet v m \<Longrightarrow> (\<And>a. disciplined v stale reset (k a) x) \<Longrightarrow> disciplined v stale reset (andThen m k) x"
proof (induction m rule: thread_induct)
  case (Step f)
  then have "quiet v (fst (f s)) \<and> v (snd (f s)) = v s" for s by (simp add: quiet_def)
  with Step show ?case by (simp add: split_beta)
qed (simp_all add: quiet_def)

lemma disciplined_quiet: "quiet v m \<Longrightarrow> disciplined v stale reset m Outside"
  using disciplined_after_quiet [of v m stale reset Done Outside] by simp

lemma disciplined_andThen:
  "disciplined v stale reset m x \<Longrightarrow> (\<And>a. disciplined v stale reset (k a) Outside) \<Longrightarrow>
   disciplined v stale reset (andThen m k) x"
proof (induction m arbitrary: x rule: thread_induct)
  case (Step f)
  have "disciplined v stale reset (andThen (fst (f s)) k) y" if "disciplined v stale reset (fst (f s)) y" for s y
    using Step.IH [OF that] Step.prems(2) by blast
  then show ?case using Step.prems(1) by (simp add: split_beta) blast
qed simp_all

lemma disciplined_rules:
  "disciplined v stale reset (Done r) Outside"
  "(\<And>s. v (snd (op s)) = v s) \<Longrightarrow> disciplined v stale reset (act op) Outside"
  "(\<And>s. v (g s) = v s) \<Longrightarrow> disciplined v stale reset t Outside \<Longrightarrow> disciplined v stale reset (doing g t) Outside"
  "(b \<Longrightarrow> disciplined v stale reset t Outside) \<Longrightarrow> (\<not> b \<Longrightarrow> disciplined v stale reset t' Outside) \<Longrightarrow>
     disciplined v stale reset (if b then t else t') Outside"
  "(\<And>a. disciplined v stale reset (f a) Outside) \<Longrightarrow> (\<And>c. disciplined v stale reset (h c) Outside) \<Longrightarrow>
     disciplined v stale reset (case x of Inl a \<Rightarrow> f a | Inr c \<Rightarrow> h c) Outside"
  "disciplined v stale reset t Outside \<Longrightarrow> (\<And>a. y = Some a \<Longrightarrow> disciplined v stale reset (j a) Outside) \<Longrightarrow>
     disciplined v stale reset (case y of None \<Rightarrow> t | Some a \<Rightarrow> j a) Outside"
  "(\<And>a c. disciplined v stale reset (q a c) Outside) \<Longrightarrow> disciplined v stale reset (case p of (a, c) \<Rightarrow> q a c) Outside"
proof -
  show "disciplined v stale reset (act op) Outside" if "\<And>s. v (snd (op s)) = v s"
    by (rule disciplined_quiet) (rule quiet_rules that)+
  show "disciplined v stale reset (doing g t) Outside" if "\<And>s. v (g s) = v s" "disciplined v stale reset t Outside"
    unfolding doing_def by (rule disciplined_after_quiet) (simp_all add: that change_def quiet_rules)
qed (auto split: sum.split option.split prod.split)

lemma disciplined_forEach:
  "(\<And>x. disciplined v stale reset (f x) Outside) \<Longrightarrow> disciplined v stale reset (forEach f xs) Outside"
  by (induction xs) (auto intro: disciplined_andThen)

text \<open>Critical sections.\<close>

lemma disciplined_look:
  assumes "\<And>s. v (snd (op s)) = v s \<and>
    (disciplined v stale reset (k (fst (op s))) Inside \<or>
     stale s \<and> disciplined v stale reset (k (fst (op s))) (Looked (v s)))"
  shows "disciplined v stale reset (andThen (act op) k) Inside"
  using assms by (simp add: act_def split_beta) blast

lemma disciplined_write:
  "disciplined v stale reset (k ()) Inside \<Longrightarrow> disciplined v stale reset (andThen (change g) k) (Looked a)"
  by (simp add: change_def act_def)

lemma disciplined_reset:
  "(\<And>s. reset s (g s)) \<Longrightarrow> disciplined v stale reset (k ()) Inside \<Longrightarrow>
   disciplined v stale reset (andThen (change g) k) Inside"
  by (simp add: change_def act_def)

end
