(* ===== verification/TokenUse.thy ===== *)
theory TokenUse
  imports Concurrency Critical
begin

text \<open>
  The cached OAuth token under interleaving: every goroutine is disciplined in its use of the token
  mutex, so a token is only ever replaced by the goroutine that found this very token expired.
\<close>

section \<open>What leaves the token alone\<close>

lemma step_token:
  "w_token (snd (UpsertDevice d w)) = w_token w" "w_token (snd (TouchDevice dev st seen w)) = w_token w"
  "w_token (snd (InsertTelemetry t w)) = w_token w" "w_token (snd (InsertHazardEvent e w)) = w_token w"
  "w_token (snd (RecordWebhookDelivery p key w)) = w_token w" "w_token (snd (InsertDeadLetter src why body w)) = w_token w"
  "w_token (snd (FetchPendingCommands dev limit w)) = w_token w" "w_token (snd (ExpireCommands w)) = w_token w"
  "w_token (snd (GetDevice uid w)) = w_token w" "w_token (snd (FindDeviceByExternalID p ext w)) = w_token w"
  "w_token (snd (GetCommand uid w)) = w_token w" "w_token (snd (afterInsertCommand c r w)) = w_token w"
  "w_token (snd (ListDevices w)) = w_token w" "w_token (snd (ListRecentEvents k w)) = w_token w"
  "w_token (snd (exec_sql (insertCommand_sql pg c doc) w)) = w_token w"
  "transition_sources to = Some from \<Longrightarrow> w_token (snd (exec_sql (transition_sql pg uid to msg from) w)) = w_token w"
  by (simp_all add: store_effectD(6) steps_intros afterInsertCommand_effect)

lemma sql_keeps_token: "w_token (snd (exec_sql stmt w)) = w_token w"
  by (simp add: exec_sql_def environment_defs Let_def split: fault.split sum.split)

lemma repeat_token: "w_token ((metricInc m ^^ n) w) = w_token w"
  by (induction n) (simp_all add: metricInc_def)

lemma quiet_token:
  "w_token (snd (ctxErr w)) = w_token w" "w_token (snd (timeNow w)) = w_token w" "w_token (snd (http_do rq w)) = w_token w"
  "w_token (snd (backoff p n w)) = w_token w" "w_token (snd (incomingID hq w)) = w_token w"
  "w_token (snd (withCommandID c w)) = w_token w" "w_token (metricInc m w) = w_token w" "w_token (repeatInc n m w) = w_token w"
  "w_token (publish e w) = w_token w" "w_token (snd (Subscribe w)) = w_token w" "w_token (cancelSubscription i w) = w_token w"
  "w_token (receive i w) = w_token w" "w_token (snd (reject code reason w)) = w_token w"
  by (simp_all add: environment_defs http_do_def backoff_def rand_N_def incomingID_def withCommandID_def Let_def
      metricInc_def repeatInc_def repeat_token publish_def Subscribe_def cancelSubscription_def receive_def reject_def
      split: prod.split)

lemmas keeps_token = step_token quiet_token

section \<open>The token manager\<close>

definition expired :: "world \<Rightarrow> bool" where
  "expired w \<longleftrightarrow> \<not> token_Valid (w_token w) (fst (timeNow w))"

definition dropped :: "world \<Rightarrow> world \<Rightarrow> bool" where
  "dropped w w' \<longleftrightarrow> w' = Invalidate w"

abbreviation careful :: "'r program \<Rightarrow> bool" where
  "careful t \<equiv> disciplined w_token expired dropped t Outside"

lemmas careful_rules = disciplined_rules disciplined_forEach disciplined_andThen

lemma quiet_loop: "(\<And>s. quiet w_token (op s)) \<Longrightarrow> quiet w_token (go_loop p tot op a left s)"
proof (induction left arbitrary: a s)
  case 0
  then show ?case by (subst go_loop.simps) (auto intro!: quiet_rules simp: keeps_token)
next
  case (Suc left)
  then show ?case by (subst go_loop.simps) (auto intro!: quiet_rules simp: keeps_token)
qed

lemma quiet_obtain: "quiet w_token (go_obtainLocked cfg refresh)"
proof -
  have op: "quiet w_token (go_grantOp cfg f tok)" for f tok
    unfolding go_grantOp_def Let_def by (intro quiet_rules; simp add: keeps_token)
  have grant: "quiet w_token (go_grant cfg f)" for f
    unfolding go_grant_def go_Do_def Let_def
    by (rule quiet_rules(4) [OF quiet_loop [OF op]]) (auto split: prod.split outcome.split option.split intro: quiet_rules)
  have fresh: "quiet w_token (go_obtainFresh cfg)"
    unfolding go_obtainFresh_def by (intro quiet_rules grant)
  show ?thesis
    unfolding go_obtainLocked_def by (intro quiet_rules grant fresh)
qed

lemma careful_manager: "careful (go_AccessToken cfg)" "careful go_Invalidate"
proof -
  have unlock: "disciplined w_token expired dropped (Unlock (Done a)) x" if "x \<noteq> Outside" for a :: 'a and x
    using that by simp
  have "disciplined w_token expired dropped
      (andThen (case r of Inl e \<Rightarrow> Done (Inl e) | Inr tok \<Rightarrow> doing (\<lambda>w. w\<lparr>w_token := tok\<rparr>) (Done (Inr (tk_AccessToken tok))))
        (\<lambda>a. Unlock (Done a))) (Looked old)" for r :: "Token res" and old
    by (cases r) (auto simp: doing_def andThen_assoc intro: disciplined_write)
  then have "disciplined w_token expired dropped
      (andThen (go_obtainLocked cfg rt) (\<lambda>r. andThen (case r of Inl e \<Rightarrow> Done (Inl e)
          | Inr tok \<Rightarrow> doing (\<lambda>w. w\<lparr>w_token := tok\<rparr>) (Done (Inr (tk_AccessToken tok)))) (\<lambda>a. Unlock (Done a)))) (Looked old)" for rt old
    by (rule disciplined_after_quiet [OF quiet_obtain])
  then have "disciplined w_token expired dropped
      (andThen (act lookAtToken) (\<lambda>a. andThen (case a of (cached, now) \<Rightarrow>
         if token_Valid cached now then Done (Inr (tk_AccessToken cached))
         else andThen (go_obtainLocked cfg (tk_RefreshToken cached)) (\<lambda>r. case r of
              Inl e \<Rightarrow> Done (Inl e)
            | Inr tok \<Rightarrow> doing (\<lambda>w. w\<lparr>w_token := tok\<rparr>) (Done (Inr (tk_AccessToken tok))))) (\<lambda>a. Unlock (Done a)))) Inside"
    by (intro disciplined_look)
      (auto simp: lookAtToken_def expired_def andThen_assoc timeNow_def split: prod.split)
  then show "careful (go_AccessToken cfg)"
    by (simp add: go_AccessToken_def locked_def andThen_assoc)
  show "careful go_Invalidate"
    by (simp add: go_Invalidate_def locked_def) (rule disciplined_reset; simp add: dropped_def)
qed

section \<open>The programs\<close>

lemma careful_loop: "(\<And>s. careful (op s)) \<Longrightarrow> careful (go_loop p tot op a left s)"
proof (induction left arbitrary: a s)
  case 0
  then show ?case by (subst go_loop.simps) (auto intro!: careful_rules simp: keeps_token)
next
  case (Suc left)
  then show ?case by (subst go_loop.simps) (auto intro!: careful_rules simp: keeps_token)
qed

lemma careful_alpha:
  "careful (go_alphaDo c verb path body dec zero)" "careful (go_FetchDevices c)"
  "careful (go_FetchEvents c since)" "careful (go_alphaSendCommand c ext cmd)"
proof -
  have answer: "careful (go_alphaAnswer verb path dec resp st)" for verb path and dec :: "string \<Rightarrow> 'c option" and resp st
    unfolding go_alphaAnswer_def Let_def by (intro careful_rules careful_manager)
  have op: "careful (go_alphaOp c verb path body dec st)" for verb path body and dec :: "string \<Rightarrow> 'c option" and st
    unfolding go_alphaOp_def by (intro careful_rules careful_manager answer; simp add: keeps_token)
  have do: "careful (go_alphaDo c verb path body dec zero)" for verb path body and dec :: "string \<Rightarrow> 'c option" and zero
    unfolding go_alphaDo_def go_Do_def Let_def
    by (rule disciplined_andThen [OF careful_loop [OF op]]) (auto split: prod.split outcome.split option.split)
  show "careful (go_alphaDo c verb path body dec zero)" by (rule do)
  show "careful (go_FetchDevices c)" "careful (go_FetchEvents c since)" "careful (go_alphaSendCommand c ext cmd)"
    unfolding go_FetchDevices_def go_FetchEvents_def go_alphaSendCommand_def Let_def
    by (intro careful_rules do; simp add: keeps_token)+
qed

lemma careful_pipeline:
  "careful (go_Accept e)" "careful (go_AcceptFromProvider ne)" "careful (go_DeadLetter src why body)"
  "careful (go_CreateCommand c)" "careful (go_TransitionCommand uid to msg)"
proof -
  show accept: "careful (go_Accept e)" for e
    unfolding go_Accept_def by (intro careful_rules; simp add: keeps_token)
  show "careful (go_AcceptFromProvider ne)" "careful (go_DeadLetter src why body)" "careful (go_CreateCommand c)"
    "careful (go_TransitionCommand uid to msg)"
    unfolding go_AcceptFromProvider_def go_DeadLetter_def go_CreateCommand_def go_TransitionCommand_def Let_def
    by (intro careful_rules accept; simp add: keeps_token)+
qed

lemma careful_handlers:
  "careful (go_postTelemetry a rq)" "careful (go_postEvent a rq)" "careful (go_getCommands rq)"
  "careful (go_postCommandResult a rq)" "careful (go_BetaGrid secret skew maxBytes rq)" "careful go_reaperTick"
proof -
  show "careful (go_postTelemetry a rq)" "careful (go_postEvent a rq)" "careful (go_getCommands rq)"
    "careful (go_postCommandResult a rq)" "careful go_reaperTick"
    unfolding go_postTelemetry_def go_postEvent_def go_getCommands_def go_Poll_def go_postCommandResult_def
      go_ReportResult_def go_reaperTick_def Let_def
    by (intro careful_rules careful_pipeline; simp add: keeps_token)+
  have "careful (go_handleAuthentic skew body)" for body
    unfolding go_handleAuthentic_def go_gateDelivery_def go_processDelivery_def go_processEvent_def
      go_processHeartbeat_def go_DeadLetterReject_def
    by (intro careful_rules careful_pipeline; simp add: keeps_token)
  then show "careful (go_BetaGrid secret skew maxBytes rq)"
    unfolding go_BetaGrid_def
    by (auto split: bounded_body.split intro!: careful_rules simp: keeps_token)
qed

lemma careful_send: "careful (go_SendCommand ttl (go_sendersOf cfg client) rq)"
proof -
  have "careful (send ext cmd)" if "go_sendersOf cfg client p = Some send" for p send ext cmd
    using that by (auto simp: go_sendersOf_def careful_alpha split: if_splits)
  then have dispatch: "careful (go_dispatch send device cmd)" if "go_sendersOf cfg client p = Some send" for p send device cmd
    unfolding go_dispatch_def using that by (intro careful_rules careful_pipeline; simp add: keeps_token)
  have "careful (case r of
      CmdError e \<Rightarrow> if errIs e ErrDuplicate then Done (Inr zeroCommand) else Done (Inl e)
    | CmdExisting cmd \<Rightarrow> Done (Inr cmd)
    | CmdCreated cmd \<Rightarrow>
        doing (metricInc (CommandsCreated (c_Type c)))
          (case go_sendersOf cfg client p of Some send \<Rightarrow> go_dispatch send device cmd | None \<Rightarrow> Done (Inr cmd)))"
    for r c p device
    by (cases r) (auto intro!: careful_rules dispatch simp: keeps_token)
  then have "careful (go_enqueue (go_sendersOf cfg client p) device c)" for p device c
    unfolding go_enqueue_def by (intro careful_rules careful_pipeline)
  then show ?thesis
    unfolding go_SendCommand_def go_Create_def Let_def by (intro careful_rules; simp add: keeps_token)
qed

lemma careful_cycle: "careful (go_cycle c lap since)"
  unfolding go_cycle_def go_pollDevices_def go_pollEvents_def
  by (intro careful_rules careful_alpha careful_pipeline; simp add: keeps_token)

lemma plainRoutes_token: "(pattern, g) \<in> set (plainRoutes ex) \<Longrightarrow> w_token (snd (bare g rq w)) = w_token w"
proof -
  have "w_token (snd (ReadyHandler Ping rq w)) = w_token w"
    by (simp add: ReadyHandler_def Ping_def sql_keeps_token split: prod.split sum.split) (metis sql_keeps_token snd_conv)
  then show "(pattern, g) \<in> set (plainRoutes ex) \<Longrightarrow> w_token (snd (bare g rq w)) = w_token w"
    by (auto simp: plainRoutes_def HealthHandler_def MetricsHandler_def bare_def split: prod.split)
qed

lemma careful_serve: "careful (go_serve cfg ex rq)"
proof (cases "muxFind (go_routes cfg ex) (in_method rq) (in_path rq)")
  case (MuxFound h vs)
  have auth: "careful (go_auth a g rq)" if "\<And>rq. careful (g rq)" for a g rq
    unfolding go_auth_def by (intro careful_rules that)
  from muxFind_found [OF MuxFound] obtain pattern where "(pattern, h) \<in> set (go_routes cfg ex)" by blast
  then consider g route where "(pattern, g, route) \<in> set (go_wrappedRoutes cfg (ex_client ex))" "h = go_wrap g route"
    | g where "(pattern, g) \<in> set (plainRoutes ex)" "h = (\<lambda>rq. act (bare g rq))"
    by (auto simp: go_routes_def)
  then have "careful (h rq')" for rq'
  proof cases
    case (1 g route)
    then have "careful (g rq)" for rq
      by (auto simp: go_wrappedRoutes_def Let_def intro: auth careful_handlers)
    then show ?thesis
      unfolding 1(2) go_wrap_def go_Middleware_def Let_def by (intro careful_rules; simp add: keeps_token)
  next
    case (2 g)
    then show ?thesis by (auto intro!: careful_rules plainRoutes_token)
  qed
  then show ?thesis using MuxFound by (simp add: go_serve_def)
qed (simp_all add: go_serve_def)

lemma rpc_token:
  "w_token (snd (rpcGetDevice (grpcServer cfg client) uid w)) = w_token w"
  "w_token (snd (rpcListDevices (grpcServer cfg client) w)) = w_token w"
  "w_token (snd (rpcListRecentEvents (grpcServer cfg client) n w)) = w_token w"
  "w_token (snd (rpcGetCommand (grpcServer cfg client) uid w)) = w_token w"
proof -
  show "w_token (snd (rpcGetDevice (grpcServer cfg client) uid w)) = w_token w"
    using step_token(9) [of uid w] by (auto simp: rpcGetDevice_def grpcServer_def storage_grpc_store_def split: prod.split sum.split)
  show "w_token (snd (rpcListDevices (grpcServer cfg client) w)) = w_token w"
    using step_token(13) [of w] by (auto simp: rpcListDevices_def grpcServer_def storage_grpc_store_def split: prod.split sum.split)
  show "w_token (snd (rpcListRecentEvents (grpcServer cfg client) n w)) = w_token w"
    using step_token(14) [of n w] by (auto simp: rpcListRecentEvents_def grpcServer_def storage_grpc_store_def Let_def
        split: prod.split sum.split)
  show "w_token (snd (rpcGetCommand (grpcServer cfg client) uid w)) = w_token w"
    using step_token(11) [of uid w] by (auto simp: rpcGetCommand_def getCommand_def grpcServer_def commandSvc_def
        split: prod.split sum.split)
qed

lemma careful_change: "(\<And>w. w_token (g w) = w_token w) \<Longrightarrow> careful (change g)"
  unfolding change_def by (rule careful_rules) simp

lemma careful_goroutine: "careful (goroutine cfg ex en)"
  by (cases en) (auto simp: giving_def careful_serve careful_send careful_cycle careful_handlers rpc_token keeps_token
      intro!: careful_rules careful_change split: list.split)

section \<open>The token is replaced once\<close>


definition demo_polling :: config where
  "demo_polling = demo_config\<lparr>cf_AlphaSense := \<lparr>as_BaseURL = ''http://as'', as_TokenURL = ''http://as/token'',
     as_ClientID = ''c'', as_ClientSecret = ''s'', as_PollInterval = Minute\<rparr>\<rparr>"

definition demo_granting :: world where
  "demo_granting = (calm (demo_db []))\<lparr>w_net := (\<lambda>n rq. Inr \<lparr>rs_status = 200, rs_body = demo_grant_body\<rparr>, 0)\<rparr>"

lemma demo_granted: "decodeTokenResponse (take 65536 demo_grant_body) =
    (\<lparr>tr_AccessToken = ''t2'', tr_RefreshToken = [], tr_ExpiresIn = 60, tr_Error = []\<rparr>, True)"
proof -
  have "take 65536 demo_grant_body = demo_grant_body" by (simp add: demo_grant_body_def)
  then show ?thesis by (simp add: decodeTokenResponse_def demo_grant_body_def json_run decode_run)
qed

lemma demo_stores:
  "case solo (Suc (Suc (Suc (Suc (Suc (Suc (Suc (Suc (Suc 0))))))))) (goroutine demo_polling demo_externals (PollCycle 0)) demo_granting of (h, t, w) \<Rightarrow>
     length h = 9 \<and> w_token (fst (h ! 8)) = zeroToken \<and> tk_AccessToken (w_token (snd (h ! 8))) = ''t2''"
proof -
  note demo = demo_polling_def demo_config_def demo_externals_def demo_granting_def demo_world_def zeroToken_def
  note programs = pollersOf_def giving_def go_cycle_def go_pollDevices_def go_FetchDevices_def go_alphaDo_def go_Do_def
    go_alphaOp_def go_AccessToken_def go_obtainLocked_def go_obtainFresh_def go_grant_def go_grantOp_def
    alphaClientOf_def newAlphaSense_def alphaOauth_def Let_def
  show ?thesis
    by (simp add: programs demo andThen_assoc solo_steps solo_loop environment_defs http_do_def lookAtToken_def
      token_Valid_def demo_granted metricInc_def)
qed


end
